(* ===== verification/Prelude.thy ===== *)
theory Prelude
  imports Complex_Main "HOL-Library.Multiset" "HOL-Library.Option_ord"
begin

text \<open>
  Shared vocabulary of the development: the collections of rewrite rules that the components
  extend, Python's stable descending sort, slicing and order-preserving de-duplication, and the
  interface of a ranking (a stable descending permutation) with the facts that every caller
  that keeps the best n elements of a ranking relies on.
\<close>

named_theorems store_simps \<open>read-after-write equations of the database models\<close>
named_theorems inv_intros \<open>preservation of the components' invariants\<close>

section \<open>Results\<close>

text \<open>Sequencing of operations that may raise: an \<open>Inl\<close> (the exception) skips the rest.\<close>

fun res_bind :: "'e + 'a \<Rightarrow> ('a \<Rightarrow> 'e + 'b) \<Rightarrow> 'e + 'b" where
  "res_bind (Inl e) f = Inl e"
| "res_bind (Inr a) f = f a"

lemma res_bind_Inr_iff: "res_bind m f = Inr b \<longleftrightarrow> (\<exists>a. m = Inr a \<and> f a = Inr b)"
  by (cases m) auto

lemma res_bind_Inl_iff: "res_bind m f = Inl e \<longleftrightarrow> m = Inl e \<or> (\<exists>a. m = Inr a \<and> f a = Inl e)"
  by (cases m) auto

lemmas res_bind_iff = res_bind_Inr_iff res_bind_Inl_iff

lemma res_bind_cong [fundef_cong]:
  "m = m' \<Longrightarrow> (\<And>a. m' = Inr a \<Longrightarrow> f a = f' a) \<Longrightarrow> res_bind m f = res_bind m' f'"
  by (cases m') auto

section \<open>Python lists\<close>

text \<open>
  \<open>sorted(xs, key=f, reverse=True)\<close>: descending, and elements with equal keys keep their input
  order (Python reverses, sorts stably and reverses again).
\<close>

definition py_sort_desc :: "('a \<Rightarrow> 'k::linorder) \<Rightarrow> 'a list \<Rightarrow> 'a list" where
  "py_sort_desc f xs = rev (sort_key f (rev xs))"

text \<open>\<open>xs[a:b]\<close> for non-negative bounds.\<close>

definition py_slice :: "nat \<Rightarrow> nat \<Rightarrow> 'a list \<Rightarrow> 'a list" where
  "py_slice a b xs = take (b - a) (drop a xs)"

text \<open>\<open>list(dict.fromkeys(xs))\<close>: the first occurrence of every value, in input order.\<close>

fun py_dedup :: "'a list \<Rightarrow> 'a list" where
  "py_dedup [] = []"
| "py_dedup (x # xs) = x # filter (\<lambda>y. y \<noteq> x) (py_dedup xs)"

text \<open>\<open>next((x for x in xs if p x), None)\<close> is the library's \<open>find\<close>; \<open>enumerate(xs, start=n)\<close> is
  \<open>enumerate n xs\<close>.\<close>

lemma find_append: "find P (xs @ ys) = (case find P xs of None \<Rightarrow> find P ys | Some x \<Rightarrow> Some x)"
  by (induction xs) auto

lemma mset_py_sort_desc [simp]: "mset (py_sort_desc f xs) = mset xs"
  by (simp add: py_sort_desc_def)

lemma set_py_sort_desc [simp]: "set (py_sort_desc f xs) = set xs"
  by (simp add: py_sort_desc_def)

lemma length_py_sort_desc [simp]: "length (py_sort_desc f xs) = length xs"
  by (simp add: py_sort_desc_def)

lemma distinct_py_sort_desc [simp]: "distinct (py_sort_desc f xs) = distinct xs"
  by (simp add: py_sort_desc_def)

lemma sorted_wrt_py_sort_desc: "sorted_wrt (\<lambda>x y. f y \<le> f x) (py_sort_desc f xs)"
proof -
  have "sorted_wrt (\<lambda>x y. f x \<le> f y) (sort_key f (rev xs))"
    using sorted_sort_key [of f "rev xs"] by (simp add: sorted_map)
  then show ?thesis by (simp add: py_sort_desc_def sorted_wrt_rev)
qed

lemma filter_py_sort_desc: "filter (\<lambda>x. f x = k) (py_sort_desc f xs) = filter (\<lambda>x. f x = k) xs"
  by (simp add: py_sort_desc_def rev_filter [symmetric] sort_key_stable)

lemma set_py_slice_subset: "set (py_slice a b xs) \<subseteq> set xs"
  by (auto simp: py_slice_def dest: in_set_takeD in_set_dropD)

lemma length_py_slice: "length (py_slice a b xs) = min (b - a) (length xs - a)"
  by (simp add: py_slice_def)

lemma set_py_dedup [simp]: "set (py_dedup xs) = set xs"
  by (induction xs) auto

lemma distinct_py_dedup [simp]: "distinct (py_dedup xs)"
  by (induction xs) auto

lemma py_dedup_id: "distinct xs \<Longrightarrow> py_dedup xs = xs"
  by (induction xs) (auto simp: filter_id_conv)

lemma sorted_wrt_dropI: "sorted_wrt P xs \<Longrightarrow> sorted_wrt P (drop n xs)"
  by (metis append_take_drop_id sorted_wrt_append)

lemma sorted_wrt_takeI: "sorted_wrt P xs \<Longrightarrow> sorted_wrt P (take n xs)"
  by (metis append_take_drop_id sorted_wrt_append)

section \<open>Python strings\<close>

text \<open>
  A \<open>str\<close> is its sequence of code points. \<open>py_isspace\<close> is \<open>str.isspace\<close> of one character, which is
  also what \<open>\s\<close> matches and what \<open>strip\<close> removes.
\<close>

type_synonym pystr = "nat list"

definition codes :: "string \<Rightarrow> pystr" where
  "codes s = map of_char s"

definition py_isspace :: "nat \<Rightarrow> bool" where
  "py_isspace c \<longleftrightarrow> 9 \<le> c \<and> c \<le> 13 \<or> 28 \<le> c \<and> c \<le> 32 \<or> c = 133 \<or> c = 160 \<or> c = 5760
     \<or> 8192 \<le> c \<and> c \<le> 8202 \<or> c = 8232 \<or> c = 8233 \<or> c = 8239 \<or> c = 8287 \<or> c = 12288"

definition py_strip :: "pystr \<Rightarrow> pystr" where
  "py_strip s = rev (dropWhile py_isspace (rev (dropWhile py_isspace s)))"

text \<open>\<open>s.split(c)\<close> for a single character \<open>c\<close>; it never returns an empty list.\<close>

fun py_split :: "nat \<Rightarrow> pystr \<Rightarrow> pystr list" where
  "py_split c [] = [[]]"
| "py_split c (x # xs) =
     (if x = c then [] # py_split c xs
      else (case py_split c xs of [] \<Rightarrow> [[x]] | w # ws \<Rightarrow> (x # w) # ws))"

lemma py_split_not_Nil [simp]: "py_split c s \<noteq> []"
  by (induction s) (auto split: list.split)

lemma py_split_append: "py_split c (s @ c # t) = py_split c s @ py_split c t"
proof (induction s)
  case (Cons x s)
  then show ?case by (cases "py_split c s") auto
qed simp

section \<open>The ranking interface\<close>

text \<open>
  Every place that shows the user a top-n list first ranks its candidates. What such a client
  needs of the ranking is that it permutes the candidates, puts higher scores first and keeps
  candidates of equal score in input order.
\<close>

locale ranking =
  fixes rank :: "'a list \<Rightarrow> 'a list"
    and score :: "'a \<Rightarrow> 'k::linorder"
  assumes rank_mset: "mset (rank xs) = mset xs"
    and rank_desc: "sorted_wrt (\<lambda>x y. score y \<le> score x) (rank xs)"
    and rank_stable: "filter (\<lambda>x. score x = k) (rank xs) = filter (\<lambda>x. score x = k) xs"
begin

lemma rank_set: "set (rank xs) = set xs"
  by (metis rank_mset set_mset_mset)

lemma rank_length: "length (rank xs) = length xs"
  by (metis rank_mset size_mset)

text \<open>Nothing outside the kept prefix beats anything inside it.\<close>

lemma top_dominates:
  assumes "x \<in> set (take n (rank xs))" and "y \<in> set (drop n (rank xs))"
  shows "score y \<le> score x"
  using rank_desc [of xs] assms
  by (metis append_take_drop_id sorted_wrt_append)

lemma top_subset: "set (take n (rank xs)) \<subseteq> set xs"
  using set_take_subset [of n "rank xs"] rank_set by blast

lemma top_length: "length (take n (rank xs)) = min n (length xs)"
  by (simp add: rank_length)

text \<open>A stable descending permutation is unique, so ranking twice changes nothing.\<close>

lemma desc_stable_unique:
  assumes "sorted_wrt (\<lambda>x y. score y \<le> score x) xs"
    and "sorted_wrt (\<lambda>x y. score y \<le> score x) ys"
    and "\<And>k. filter (\<lambda>x. score x = k) xs = filter (\<lambda>x. score x = k) ys"
  shows "xs = ys"
  using assms
proof (induction xs arbitrary: ys)
  case Nil
  show ?case
    using Nil.prems(3) [of "score (hd ys)"] by (cases ys) auto
next
  case (Cons x xs)
  have "x \<in> set (filter (\<lambda>z. score z = score x) ys)"
    unfolding Cons.prems(3) [symmetric] by simp
  then have x: "x \<in> set ys" by simp
  then obtain y ys' where ys: "ys = y # ys'" by (cases ys) auto
  have "y \<in> set (filter (\<lambda>z. score z = score y) (x # xs))"
    unfolding Cons.prems(3) ys by simp
  then have "y \<in> set (x # xs)" by (auto split: if_splits)
  then have "score y \<le> score x" using Cons.prems(1) by auto
  moreover have "score x \<le> score y" using x Cons.prems(2) ys by auto
  ultimately have eq: "score x = score y" by simp
  with Cons.prems(3) [of "score x"] ys have "x = y" by simp
  have "xs = ys'"
  proof (rule Cons.IH)
    show "sorted_wrt (\<lambda>x y. score y \<le> score x) xs" using Cons.prems(1) by simp
    show "sorted_wrt (\<lambda>x y. score y \<le> score x) ys'" using Cons.prems(2) ys by simp
    show "filter (\<lambda>x. score x = k) xs = filter (\<lambda>x. score x = k) ys'" for k
      using Cons.prems(3) [of k] ys \<open>x = y\<close> by (auto split: if_splits)
  qed
  with ys \<open>x = y\<close> show ?case by simp
qed

lemma rank_of_ranked:
  assumes "sorted_wrt (\<lambda>x y. score y \<le> score x) xs"
  shows "rank xs = xs"
  by (rule desc_stable_unique) (auto simp: rank_desc rank_stable assms)

lemma rank_idem: "rank (rank xs) = rank xs"
  by (rule rank_of_ranked) (rule rank_desc)

end

text \<open>Python's sort provides the interface; the components interpret it at their own keys.\<close>

interpretation pysort: ranking "py_sort_desc f" f for f :: "'a \<Rightarrow> 'k::linorder"
  by unfold_locales (auto simp: sorted_wrt_py_sort_desc filter_py_sort_desc)

section \<open>Sequences of guarded steps\<close>

text \<open>A step gives \<open>None\<close> if it is not enabled; \<open>steps_ok\<close> says that every step was taken under its guard.\<close>

fun exec_steps :: "('s \<Rightarrow> 'e \<Rightarrow> 's option) \<Rightarrow> 's \<Rightarrow> 'e list \<Rightarrow> 's option" where
  "exec_steps step s [] = Some s"
| "exec_steps step s (e # es) = (case step s e of None \<Rightarrow> None | Some s' \<Rightarrow> exec_steps step s' es)"

fun steps_ok :: "('s \<Rightarrow> 'e \<Rightarrow> 's option) \<Rightarrow> ('s \<Rightarrow> 'e \<Rightarrow> bool) \<Rightarrow> 's \<Rightarrow> 'e list \<Rightarrow> bool" where
  "steps_ok step guard s [] = True"
| "steps_ok step guard s (e # es) = (guard s e \<and> (case step s e of None \<Rightarrow> True | Some s' \<Rightarrow> steps_ok step guard s' es))"

locale guarded_steps =
  fixes step :: "'s \<Rightarrow> 'e \<Rightarrow> 's option" and guard :: "'s \<Rightarrow> 'e \<Rightarrow> bool" and inv :: "'s \<Rightarrow> bool"
  assumes step_keeps: "inv s \<Longrightarrow> guard s e \<Longrightarrow> step s e = Some s' \<Longrightarrow> inv s'"
begin

lemma steps_keep: "inv s \<Longrightarrow> steps_ok step guard s es \<Longrightarrow> exec_steps step s es = Some s' \<Longrightarrow> inv s'"
  by (induction es arbitrary: s) (auto dest: step_keeps split: option.splits)

end

end
