(* ===== verification/Paper_Lifecycle.thy ===== *)
theory Paper_Lifecycle
  imports Prelude
begin

text \<open>
  The per-user reading state of papers: the tables it lives in, the owner functions of
  \<open>db/init.sql\<close> that write them, the helpers of \<open>jarvis_common/paper_state.py\<close> and the request
  handlers of \<open>routers/papers_lifecycle.py\<close>, \<open>papers_service.py\<close> and \<open>routers/papers_bulk.py\<close>.
  State names are the strings of the schema's CHECK constraint. Every operation takes the
  database and returns the new one or the exception it raises; a transaction or savepoint that
  raises leaves the database as it was, because the caller keeps the old one.
\<close>

section \<open>Tables\<close>

text \<open>A \<open>papers\<close> row (the columns these operations read) and a \<open>paper_user_state\<close> row.\<close>

record paper =
  paper_public :: bool
  paper_pdf_url :: "string option"
  paper_pdf_local :: "string option"
  paper_chunks :: nat

record pus =
  pus_state :: string
  pus_before :: "string option"
  pus_starred :: bool
  pus_notes :: "string option"
  pus_rating :: "int option"
  pus_flagged :: bool

record domain_event =
  ev_id :: nat
  ev_type :: string
  ev_user :: int
  ev_paper :: int
  ev_open :: bool

record lc_db =
  db_papers :: "int \<Rightarrow> paper option"
  db_library :: "(int \<times> int) set"
  db_pus :: "int \<times> int option \<Rightarrow> pus option"
  db_feedback :: "int \<times> int option \<times> string \<Rightarrow> string option"
  db_events :: "domain_event list"
  db_pending :: "nat \<Rightarrow> (int \<times> int) option"
  db_jobs :: "(string \<times> int option \<times> int) list"

text \<open>The exceptions the handlers see: HTTP errors, the database's and Python's own.\<close>

datatype lc_error =
    Http nat
  | Check_violation
  | Foreign_key_violation
  | Not_null_violation
  | Raise_exception
  | Value_error

text \<open>\<open>session_user\<close>: the database role of the calling service.\<close>

datatype db_role = Research_runtime | Learning_runtime | Other_role

type_synonym 'a lc_result = "lc_error + 'a"

definition reading_states :: "string list" where
  "reading_states = [''inbox'', ''to_read'', ''reading'', ''done'']"

definition valid_state :: "string \<Rightarrow> bool" where
  "valid_state s \<longleftrightarrow> s \<in> set reading_states \<or> s = ''trash''"

text \<open>The three CHECK constraints of the table.\<close>

definition pus_check :: "pus \<Rightarrow> bool" where
  "pus_check r \<longleftrightarrow> valid_state (pus_state r)
     \<and> (case pus_before r of None \<Rightarrow> True | Some b \<Rightarrow> b \<in> set reading_states)
     \<and> (case pus_rating r of None \<Rightarrow> True | Some n \<Rightarrow> 1 \<le> n \<and> n \<le> 5)"

definition default_pus :: pus where
  "default_pus = \<lparr>pus_state = ''inbox'', pus_before = None, pus_starred = False,
     pus_notes = None, pus_rating = None, pus_flagged = False\<rparr>"

text \<open>
  \<open>INSERT ... VALUES ins ON CONFLICT (paper_id, user_id) DO UPDATE SET ... WHERE ...\<close>. PostgreSQL
  checks the CHECK constraints of the proposed row before it looks for the conflict, those of
  the updated row after it, and the foreign key of a row it really inserts. \<open>upd\<close> is \<open>None\<close>
  when the \<open>WHERE\<close> clause (or \<open>DO NOTHING\<close>) leaves the stored row alone.
\<close>

definition upsert_pus ::
  "lc_db \<Rightarrow> int \<Rightarrow> int option \<Rightarrow> pus \<Rightarrow> (pus \<Rightarrow> pus option) \<Rightarrow> lc_db lc_result" where
  "upsert_pus db pid uid ins upd =
     (if \<not> pus_check ins then Inl Check_violation
      else case db_pus db (pid, uid) of
        None \<Rightarrow>
          (if db_papers db pid = None then Inl Foreign_key_violation
           else Inr (db\<lparr>db_pus := (db_pus db)((pid, uid) \<mapsto> ins)\<rparr>))
      | Some r \<Rightarrow>
          (case upd r of
             None \<Rightarrow> Inr db
           | Some r' \<Rightarrow>
               (if pus_check r' then Inr (db\<lparr>db_pus := (db_pus db)((pid, uid) \<mapsto> r')\<rparr>)
                else Inl Check_violation)))"

text \<open>\<open>COALESCE(p, stored)\<close>.\<close>

definition coalesce :: "'a option \<Rightarrow> 'a \<Rightarrow> 'a" where
  "coalesce p d = (case p of None \<Rightarrow> d | Some v \<Rightarrow> v)"

definition coalesce_opt :: "'a option \<Rightarrow> 'a option \<Rightarrow> 'a option" where
  "coalesce_opt p d = (case p of None \<Rightarrow> d | Some v \<Rightarrow> Some v)"

lemma coalesce_simps [simp]:
  "coalesce None d = d" "coalesce (Some v) d = v"
  "coalesce_opt None e = e" "coalesce_opt (Some v) e = Some v"
  by (simp_all add: coalesce_def coalesce_opt_def)

section \<open>Owner functions of the database\<close>

definition paper_visible :: "lc_db \<Rightarrow> int \<Rightarrow> int \<Rightarrow> bool" where
  "paper_visible db uid pid =
     (case db_papers db pid of
        None \<Rightarrow> False
      | Some p \<Rightarrow> paper_public p \<or> (uid, pid) \<in> db_library db)"

definition upsert_paper_state_v1 ::
  "db_role \<Rightarrow> lc_db \<Rightarrow> int \<Rightarrow> int option \<Rightarrow> string option \<Rightarrow> bool option \<Rightarrow> string \<Rightarrow> lc_db lc_result"
where
  "upsert_paper_state_v1 role db pid uid st starred mode =
     (if role = Other_role \<or> mode \<notin> {''dynamic'', ''first_sync'', ''advance''} then Inl Raise_exception
      else if role = Learning_runtime
           \<and> (case uid of None \<Rightarrow> True | Some u \<Rightarrow> \<not> paper_visible db u pid) then Inl Raise_exception
      else if mode = ''first_sync'' then
        upsert_pus db pid uid
          (default_pus\<lparr>pus_state := coalesce st ''inbox'', pus_starred := coalesce starred False\<rparr>)
          (\<lambda>r. None)
      else if mode = ''advance'' then
        (case st of
           None \<Rightarrow> Inl Not_null_violation
         | Some s \<Rightarrow>
             upsert_pus db pid uid (default_pus\<lparr>pus_state := s\<rparr>)
               (\<lambda>r. if pus_state r \<in> {''inbox'', ''to_read''} then Some (r\<lparr>pus_state := s\<rparr>) else None))
      else
        upsert_pus db pid uid
          (default_pus\<lparr>pus_state := coalesce st ''inbox'', pus_starred := coalesce starred False\<rparr>)
          (\<lambda>r. Some (r\<lparr>pus_state := coalesce st (pus_state r),
                      pus_starred := coalesce starred (pus_starred r)\<rparr>)))"

text \<open>Returns \<open>is_new_row\<close> and \<open>prev_starred\<close>, the latter NULL when there was no row.\<close>

definition star_paper_v1 ::
  "db_role \<Rightarrow> lc_db \<Rightarrow> int \<Rightarrow> int option \<Rightarrow> ((bool \<times> bool option) \<times> lc_db) lc_result" where
  "star_paper_v1 role db pid uid =
     (if role \<noteq> Research_runtime then Inl Raise_exception
      else let before = db_pus db (pid, uid) in
        res_bind
          (upsert_pus db pid uid (default_pus\<lparr>pus_starred := True\<rparr>) (\<lambda>r. Some (r\<lparr>pus_starred := True\<rparr>)))
          (\<lambda>db'. Inr ((before = None, map_option pus_starred before), db')))"

definition update_paper_feedback_v1 ::
  "db_role \<Rightarrow> lc_db \<Rightarrow> int \<Rightarrow> int option \<Rightarrow> int option \<Rightarrow> string option \<Rightarrow> bool option
     \<Rightarrow> (pus \<times> lc_db) lc_result" where
  "update_paper_feedback_v1 role db pid uid rating notes flagged =
     (if role \<noteq> Research_runtime then Inl Raise_exception
      else res_bind
        (upsert_pus db pid uid
           (default_pus\<lparr>pus_rating := rating, pus_notes := notes, pus_flagged := coalesce flagged False\<rparr>)
           (\<lambda>r. Some (r\<lparr>pus_rating := coalesce_opt rating (pus_rating r),
                       pus_notes := coalesce_opt notes (pus_notes r),
                       pus_flagged := coalesce flagged (pus_flagged r)\<rparr>)))
        (\<lambda>db'. Inr (the (db_pus db' (pid, uid)), db')))"

definition trash_paper_v1 :: "db_role \<Rightarrow> lc_db \<Rightarrow> int \<Rightarrow> int option \<Rightarrow> lc_db lc_result" where
  "trash_paper_v1 role db pid uid =
     (if role \<noteq> Research_runtime then Inl Raise_exception
      else upsert_pus db pid uid
        (default_pus\<lparr>pus_state := ''trash'', pus_before := Some ''inbox''\<rparr>)
        (\<lambda>r. Some (r\<lparr>pus_before := (if pus_state r = ''trash'' then pus_before r else Some (pus_state r)),
                    pus_state := ''trash''\<rparr>)))"

text \<open>The \<open>UPDATE\<close> has no condition on the stored state: it restores whatever row it finds.\<close>

definition restore_paper_v1 :: "db_role \<Rightarrow> lc_db \<Rightarrow> int \<Rightarrow> int option \<Rightarrow> (bool \<times> lc_db) lc_result" where
  "restore_paper_v1 role db pid uid =
     (if role \<noteq> Research_runtime then Inl Raise_exception
      else case db_pus db (pid, uid) of
        None \<Rightarrow> Inr (False, db)
      | Some r \<Rightarrow>
          (let r' = r\<lparr>pus_state := coalesce (pus_before r) ''inbox'', pus_before := None\<rparr>
           in if pus_check r' then Inr (True, db\<lparr>db_pus := (db_pus db)((pid, uid) \<mapsto> r')\<rparr>)
              else Inl Check_violation))"

section \<open>Helpers of the services\<close>

datatype on_conflict =
    Update_dynamic
  | Update_starred_only
  | Update_partial
  | Do_nothing
  | Update_state_when_inbox_or_to_read

datatype upsert_result =
    No_result
  | Star_result bool "bool option"
  | Row_result pus

definition upsert_dynamic ::
  "db_role \<Rightarrow> lc_db \<Rightarrow> int \<Rightarrow> int option \<Rightarrow> string option \<Rightarrow> bool option \<Rightarrow> lc_db lc_result" where
  "upsert_dynamic role db pid uid st starred =
     (if st = None \<and> starred = None then Inr db
      else upsert_paper_state_v1 role db pid uid st starred ''dynamic'')"

definition upsert_do_nothing ::
  "db_role \<Rightarrow> lc_db \<Rightarrow> int \<Rightarrow> int option \<Rightarrow> string option \<Rightarrow> bool option \<Rightarrow> lc_db lc_result" where
  "upsert_do_nothing role db pid uid st starred =
     upsert_paper_state_v1 role db pid uid
       (Some (coalesce st ''inbox'')) (Some (coalesce starred False)) ''first_sync''"

definition upsert_state_conditional ::
  "db_role \<Rightarrow> lc_db \<Rightarrow> int \<Rightarrow> int option \<Rightarrow> string \<Rightarrow> lc_db lc_result" where
  "upsert_state_conditional role db pid uid st =
     upsert_paper_state_v1 role db pid uid (Some st) None ''advance''"

fun upsert_paper_user_state ::
  "db_role \<Rightarrow> lc_db \<Rightarrow> int \<Rightarrow> int option \<Rightarrow> string option \<Rightarrow> bool option \<Rightarrow> int option
     \<Rightarrow> string option \<Rightarrow> bool option \<Rightarrow> on_conflict \<Rightarrow> (upsert_result \<times> lc_db) lc_result" where
  "upsert_paper_user_state role db pid uid st starred rating notes flagged Update_dynamic =
     res_bind (upsert_dynamic role db pid uid st starred) (\<lambda>db'. Inr (No_result, db'))"
| "upsert_paper_user_state role db pid uid st starred rating notes flagged Update_starred_only =
     res_bind (star_paper_v1 role db pid uid) (\<lambda>((n, p), db'). Inr (Star_result n p, db'))"
| "upsert_paper_user_state role db pid uid st starred rating notes flagged Update_partial =
     res_bind (update_paper_feedback_v1 role db pid uid rating notes flagged)
       (\<lambda>(r, db'). Inr (Row_result r, db'))"
| "upsert_paper_user_state role db pid uid st starred rating notes flagged Do_nothing =
     res_bind (upsert_do_nothing role db pid uid st starred) (\<lambda>db'. Inr (No_result, db'))"
| "upsert_paper_user_state role db pid uid st starred rating notes flagged
     Update_state_when_inbox_or_to_read =
     (case st of
        None \<Rightarrow> Inl Value_error
      | Some s \<Rightarrow> res_bind (upsert_state_conditional role db pid uid s) (\<lambda>db'. Inr (No_result, db')))"

text \<open>The helpers below run under the research service's database role, as the handlers do.\<close>

definition trash_paper :: "lc_db \<Rightarrow> int \<Rightarrow> int option \<Rightarrow> lc_db lc_result" where
  "trash_paper db pid uid = trash_paper_v1 Research_runtime db pid uid"

definition restore_paper :: "lc_db \<Rightarrow> int \<Rightarrow> int option \<Rightarrow> lc_db lc_result" where
  "restore_paper db pid uid =
     res_bind (restore_paper_v1 Research_runtime db pid uid)
       (\<lambda>(updated, db'). if updated then Inr db' else Inl (Http 404))"

text \<open>A missing row (and an empty string) counts as \<open>inbox\<close>.\<close>

definition current_state :: "lc_db \<Rightarrow> int \<Rightarrow> int option \<Rightarrow> string" where
  "current_state db pid uid =
     (case db_pus db (pid, uid) of None \<Rightarrow> ''inbox''
      | Some r \<Rightarrow> (if pus_state r = [] then ''inbox'' else pus_state r))"

definition assert_paper_in_states ::
  "lc_db \<Rightarrow> int \<Rightarrow> int option \<Rightarrow> string list \<Rightarrow> unit lc_result" where
  "assert_paper_in_states db pid uid allowed =
     (if current_state db pid uid \<in> set allowed then Inr () else Inl (Http 409))"

definition assert_paper_ownership :: "lc_db \<Rightarrow> int \<Rightarrow> int option \<Rightarrow> unit lc_result" where
  "assert_paper_ownership db pid uid =
     (case uid of
        None \<Rightarrow> Inr ()
      | Some u \<Rightarrow>
          (if db_papers db pid = None then Inl (Http 404)
           else if \<not> paper_visible db u pid then Inl (Http 403)
           else Inr ()))"

text \<open>\<open>_upsert_state_and_starred\<close>.\<close>

definition upsert_state_and_starred ::
  "lc_db \<Rightarrow> int \<Rightarrow> int option \<Rightarrow> string option \<Rightarrow> bool option \<Rightarrow> lc_db lc_result" where
  "upsert_state_and_starred db pid uid st starred =
     res_bind (upsert_paper_user_state Research_runtime db pid uid st starred None None None Update_dynamic)
       (\<lambda>(r, db'). Inr db')"

text \<open>
  \<open>_upsert_recommendation_feedback\<close>: the row is keyed by paper, user and source; reason, topic
  and time stamp are not read by anything modelled here.
\<close>

definition upsert_recommendation_feedback ::
  "lc_db \<Rightarrow> int \<Rightarrow> int option \<Rightarrow> string \<Rightarrow> string \<Rightarrow> lc_db lc_result" where
  "upsert_recommendation_feedback db pid uid signal source =
     (if db_papers db pid = None then Inl Foreign_key_violation
      else Inr (db\<lparr>db_feedback := (db_feedback db)((pid, uid, source) \<mapsto> signal)\<rparr>))"

text \<open>
  \<open>NULLIF(BTRIM(x), '') IS NOT NULL\<close>: \<open>BTRIM\<close> strips spaces.
\<close>

definition nonblank :: "string option \<Rightarrow> bool" where
  "nonblank x = (case x of None \<Rightarrow> False | Some s \<Rightarrow> list_ex (\<lambda>c. c \<noteq> CHR '' '') s)"

definition find_papers_needing_analysis :: "lc_db \<Rightarrow> int list \<Rightarrow> int list" where
  "find_papers_needing_analysis db pids =
     filter (\<lambda>pid. case db_papers db pid of None \<Rightarrow> False
       | Some p \<Rightarrow> (nonblank (paper_pdf_url p) \<or> nonblank (paper_pdf_local p)) \<and> paper_chunks p = 0)
       (py_dedup pids)"

text \<open>
  \<open>record_event\<close>: at most one undelivered \<open>paper.deleted\<close> event per user and paper; the id
  returned is the one of the newest matching event. \<open>fresh\<close> is the UUID drawn for the insert.
\<close>

definition ev_matches :: "string \<Rightarrow> int \<Rightarrow> int \<Rightarrow> domain_event \<Rightarrow> bool" where
  "ev_matches t u p e \<longleftrightarrow> ev_type e = t \<and> ev_user e = u \<and> ev_paper e = p"

definition record_event :: "nat \<Rightarrow> lc_db \<Rightarrow> string \<Rightarrow> int \<Rightarrow> int \<Rightarrow> nat \<times> lc_db" where
  "record_event fresh db t u p =
     (let evs = (if t = ''paper.deleted'' \<and> (\<exists>e\<in>set (db_events db). ev_matches t u p e \<and> ev_open e)
                 then db_events db
                 else db_events db @ [\<lparr>ev_id = fresh, ev_type = t, ev_user = u, ev_paper = p, ev_open = True\<rparr>])
      in (ev_id (last (filter (ev_matches t u p) evs)), db\<lparr>db_events := evs\<rparr>))"

text \<open>\<open>DELETE FROM papers\<close> cascades to the per-paper tables.\<close>

definition delete_paper_row :: "lc_db \<Rightarrow> int \<Rightarrow> lc_db" where
  "delete_paper_row db pid =
     db\<lparr>db_papers := (db_papers db)(pid := None),
        db_library := {(u, p) \<in> db_library db. p \<noteq> pid},
        db_pus := (\<lambda>k. if fst k = pid then None else db_pus db k),
        db_feedback := (\<lambda>k. if fst k = pid then None else db_feedback db k)\<rparr>"

definition hard_delete_scoped :: "nat \<Rightarrow> lc_db \<Rightarrow> int \<Rightarrow> int option \<Rightarrow> bool \<times> lc_db" where
  "hard_delete_scoped fresh db pid uid =
     (case uid of
        None \<Rightarrow> (True, delete_paper_row db pid)
      | Some u \<Rightarrow>
          (let db1 = db\<lparr>db_library := db_library db - {(u, pid)}\<rparr>;
               (eid, db2) = record_event fresh db1 ''paper.deleted'' u pid
           in (False, db2\<lparr>db_pending := (case db_pending db2 eid of
                             None \<Rightarrow> (db_pending db2)(eid \<mapsto> (u, pid))
                           | Some _ \<Rightarrow> db_pending db2)\<rparr>)))"

section \<open>Request handlers\<close>

text \<open>
  What a request meets besides the database: whether the job broker accepts the enqueue (a
  failure is logged and ignored), the UUID drawn for an event, the number of the caller's own
  projects that link the paper and the caller's \<open>zotero.auto_push_on_star\<close> setting.
\<close>

record lc_env =
  env_broker :: bool
  env_fresh :: nat
  env_links :: nat
  env_auto_push :: bool

definition enqueue :: "lc_env \<Rightarrow> string \<Rightarrow> int option \<Rightarrow> int \<Rightarrow> lc_db \<Rightarrow> lc_db" where
  "enqueue env kind uid pid db =
     (if env_broker env then db\<lparr>db_jobs := db_jobs db @ [(kind, uid, pid)]\<rparr> else db)"

text \<open>Ownership check, state check, upsert: the shape of most transitions.\<close>

definition guarded_upsert ::
  "lc_db \<Rightarrow> int \<Rightarrow> int option \<Rightarrow> string list option \<Rightarrow> string option \<Rightarrow> bool option \<Rightarrow> lc_db lc_result" where
  "guarded_upsert db pid uid allowed st starred =
     res_bind (assert_paper_ownership db pid uid) (\<lambda>_.
     res_bind (case allowed of None \<Rightarrow> Inr () | Some a \<Rightarrow> assert_paper_in_states db pid uid a) (\<lambda>_.
     upsert_state_and_starred db pid uid st starred))"

definition save_paper :: "lc_env \<Rightarrow> lc_db \<Rightarrow> int \<Rightarrow> int \<Rightarrow> lc_db lc_result" where
  "save_paper env db pid u =
     res_bind (guarded_upsert db pid (Some u) (Some [''inbox'', ''done'', ''to_read'', ''reading''])
                 (Some ''to_read'') None)
       (\<lambda>db'. Inr (if pid \<in> set (find_papers_needing_analysis db' [pid])
                   then enqueue env ''paper.analyze'' (Some u) pid db' else db'))"

definition unsave_paper :: "lc_db \<Rightarrow> int \<Rightarrow> int \<Rightarrow> lc_db lc_result" where
  "unsave_paper db pid u = guarded_upsert db pid (Some u) (Some [''to_read'']) (Some ''inbox'') None"

definition skip_paper :: "lc_db \<Rightarrow> int \<Rightarrow> int \<Rightarrow> lc_db lc_result" where
  "skip_paper db pid u = guarded_upsert db pid (Some u) (Some [''inbox'']) (Some ''done'') None"

text \<open>One transaction; the event is recorded only when the paper was not being read already.\<close>

definition reading_paper :: "lc_env \<Rightarrow> lc_db \<Rightarrow> int \<Rightarrow> int \<Rightarrow> (bool \<times> lc_db) lc_result" where
  "reading_paper env db pid u =
     (let state_before = current_state db pid (Some u) in
      res_bind (guarded_upsert db pid (Some u) (Some [''to_read'', ''reading'', ''done'']) (Some ''reading'') None)
        (\<lambda>db'. if state_before \<noteq> ''reading''
               then Inr (True, snd (record_event (env_fresh env) db' ''paper.read'' u pid))
               else Inr (False, db')))"

definition done_paper :: "lc_db \<Rightarrow> int \<Rightarrow> int \<Rightarrow> lc_db lc_result" where
  "done_paper db pid u = guarded_upsert db pid (Some u) None (Some ''done'') None"

definition star_paper :: "lc_env \<Rightarrow> lc_db \<Rightarrow> int \<Rightarrow> int \<Rightarrow> lc_db lc_result" where
  "star_paper env db pid u =
     res_bind (assert_paper_ownership db pid (Some u)) (\<lambda>_.
     res_bind (upsert_paper_user_state Research_runtime db pid (Some u) None None None None None
                 Update_starred_only)
       (\<lambda>(r, db').
          (let was_new_star = (case r of Star_result is_new prev \<Rightarrow> is_new \<or> prev \<noteq> Some True | _ \<Rightarrow> False)
           in Inr (if was_new_star \<and> env_links env > 0 \<and> env_auto_push env
                   then enqueue env ''zotero.push'' (Some u) pid db' else db'))))"

definition unstar_paper :: "lc_db \<Rightarrow> int \<Rightarrow> int \<Rightarrow> lc_db lc_result" where
  "unstar_paper db pid u = guarded_upsert db pid (Some u) None None (Some False)"

definition trash_handler :: "lc_db \<Rightarrow> int \<Rightarrow> int \<Rightarrow> lc_db lc_result" where
  "trash_handler db pid u =
     res_bind (assert_paper_ownership db pid (Some u)) (\<lambda>_. trash_paper db pid (Some u))"

definition restore_handler :: "lc_db \<Rightarrow> int \<Rightarrow> int \<Rightarrow> lc_db lc_result" where
  "restore_handler db pid u =
     res_bind (assert_paper_ownership db pid (Some u)) (\<lambda>_.
     res_bind (assert_paper_in_states db pid (Some u) [''trash'']) (\<lambda>_.
     restore_paper db pid (Some u)))"

definition annotate_paper ::
  "lc_db \<Rightarrow> int \<Rightarrow> int \<Rightarrow> int option \<Rightarrow> string option \<Rightarrow> bool option \<Rightarrow> (pus \<times> lc_db) lc_result" where
  "annotate_paper db pid u rating notes flagged =
     res_bind (assert_paper_ownership db pid (Some u)) (\<lambda>_.
     (case upsert_paper_user_state Research_runtime db pid (Some u) None None rating notes flagged
             Update_partial of
        Inl Foreign_key_violation \<Rightarrow> Inl (Http 404)
      | Inl e \<Rightarrow> Inl e
      | Inr (Row_result r, db') \<Rightarrow> Inr (r, db')
      | Inr _ \<Rightarrow> Inl Raise_exception))"

definition hard_delete_paper :: "lc_env \<Rightarrow> lc_db \<Rightarrow> int \<Rightarrow> int \<Rightarrow> lc_db lc_result" where
  "hard_delete_paper env db pid u =
     res_bind (assert_paper_ownership db pid (Some u)) (\<lambda>_.
     res_bind (assert_paper_in_states db pid (Some u) [''trash'']) (\<lambda>_.
     Inr (snd (hard_delete_scoped (env_fresh env) db pid (Some u)))))"

text \<open>
  \<open>_apply_bulk_action\<close>: the flag tells the caller to remove the paper's shared vectors after
  the transaction. There is no state check before save, skip, mark_reading and mark_done.
\<close>

definition apply_bulk_action ::
  "nat \<Rightarrow> lc_db \<Rightarrow> int \<Rightarrow> int option \<Rightarrow> string \<Rightarrow> (bool \<times> lc_db) lc_result" where
  "apply_bulk_action fresh db pid uid action =
     (let keep = (\<lambda>m. res_bind m (\<lambda>db'. Inr (False, db'))) in
      if action = ''save'' then keep (upsert_state_and_starred db pid uid (Some ''to_read'') None)
      else if action = ''skip'' then keep (upsert_state_and_starred db pid uid (Some ''done'') None)
      else if action = ''trash'' then keep (trash_paper db pid uid)
      else if action = ''mark_reading'' then keep (upsert_state_and_starred db pid uid (Some ''reading'') None)
      else if action = ''mark_done'' then keep (upsert_state_and_starred db pid uid (Some ''done'') None)
      else if action = ''restore'' then
        keep (res_bind (assert_paper_in_states db pid uid [''trash'']) (\<lambda>_. restore_paper db pid uid))
      else if action = ''star'' then keep (upsert_state_and_starred db pid uid None (Some True))
      else if action = ''unstar'' then keep (upsert_state_and_starred db pid uid None (Some False))
      else if action = ''feedback_positive'' then
        keep (upsert_recommendation_feedback db pid uid ''positive'' ''feed_thumbs'')
      else if action = ''feedback_negative'' then
        keep (upsert_recommendation_feedback db pid uid ''negative'' ''feed_thumbs'')
      else if action = ''hard_delete'' then
        res_bind (assert_paper_in_states db pid uid [''trash'']) (\<lambda>_.
          Inr (hard_delete_scoped fresh db pid uid))
      else Inl Value_error)"

definition classify_bulk_error :: "lc_error \<Rightarrow> string" where
  "classify_bulk_error e =
     (case e of
        Http n \<Rightarrow> (if n = 404 then ''not_found'' else if n = 403 then ''forbidden''
                    else if n = 409 then ''conflict'' else ''http_error'')
      | Foreign_key_violation \<Rightarrow> ''not_found''
      | Not_null_violation \<Rightarrow> ''constraint_error''
      | Check_violation \<Rightarrow> ''constraint_error''
      | Raise_exception \<Rightarrow> ''db_error''
      | Value_error \<Rightarrow> ''invalid_action'')"

record bulk_result =
  bulk_succeeded :: "int list"
  bulk_failed :: "(int \<times> string) list"
  bulk_vectors :: "int list"

text \<open>
  \<open>bulk_action_papers\<close>: every paper runs in its own savepoint; a failing paper rolls back to it
  and is reported, the others are kept. The n-th paper draws the UUID \<open>fresh + n\<close>.
\<close>

fun bulk_loop ::
  "nat \<Rightarrow> lc_db \<Rightarrow> int list \<Rightarrow> int option \<Rightarrow> string \<Rightarrow> bulk_result \<Rightarrow> bulk_result \<times> lc_db" where
  "bulk_loop fresh db [] uid action acc = (acc, db)"
| "bulk_loop fresh db (pid # pids) uid action acc =
     (case res_bind (assert_paper_ownership db pid uid) (\<lambda>_. apply_bulk_action fresh db pid uid action) of
        Inl e \<Rightarrow>
          bulk_loop (Suc fresh) db pids uid action
            (acc\<lparr>bulk_failed := bulk_failed acc @ [(pid, classify_bulk_error e)]\<rparr>)
      | Inr (deleted, db') \<Rightarrow>
          bulk_loop (Suc fresh) db' pids uid action
            (acc\<lparr>bulk_succeeded := bulk_succeeded acc @ [pid],
                 bulk_vectors := bulk_vectors acc @ (if deleted then [pid] else [])\<rparr>))"

definition bulk_action_papers ::
  "nat \<Rightarrow> lc_db \<Rightarrow> int list \<Rightarrow> int option \<Rightarrow> string \<Rightarrow> bulk_result \<times> lc_db" where
  "bulk_action_papers fresh db pids uid action =
     bulk_loop fresh db pids uid action \<lparr>bulk_succeeded = [], bulk_failed = [], bulk_vectors = []\<rparr>"

text \<open>The per-paper endpoints as one request type, dispatched as the router does.\<close>

datatype lc_request =
    Save | Unsave | Skip | Mark_reading | Mark_done | Star | Unstar | Trash_it | Restore_it
  | Annotate "int option" "string option" "bool option"
  | Hard_delete

fun handle :: "lc_env \<Rightarrow> lc_db \<Rightarrow> int \<Rightarrow> int \<Rightarrow> lc_request \<Rightarrow> lc_db lc_result" where
  "handle env db u pid Save = save_paper env db pid u"
| "handle env db u pid Unsave = unsave_paper db pid u"
| "handle env db u pid Skip = skip_paper db pid u"
| "handle env db u pid Mark_reading = res_bind (reading_paper env db pid u) (\<lambda>(_, db'). Inr db')"
| "handle env db u pid Mark_done = done_paper db pid u"
| "handle env db u pid Star = star_paper env db pid u"
| "handle env db u pid Unstar = unstar_paper db pid u"
| "handle env db u pid Trash_it = trash_handler db pid u"
| "handle env db u pid Restore_it = restore_handler db pid u"
| "handle env db u pid (Annotate r n f) = res_bind (annotate_paper db pid u r n f) (\<lambda>(_, db'). Inr db')"
| "handle env db u pid Hard_delete = hard_delete_paper env db pid u"

section \<open>The contract of the state writers\<close>

text \<open>
  Integrity of the stored data: every row satisfies the CHECK constraints and belongs to an
  existing paper, and so does every library membership.
\<close>

definition lc_ok :: "lc_db \<Rightarrow> bool" where
  "lc_ok db \<longleftrightarrow> (\<forall>k r. db_pus db k = Some r \<longrightarrow> pus_check r \<and> db_papers db (fst k) \<noteq> None)
     \<and> (\<forall>m \<in> db_library db. db_papers db (snd m) \<noteq> None)"

text \<open>\<open>db'\<close> is \<open>db\<close> with at most the row of one user and one paper rewritten, legally.\<close>

definition writes_row :: "lc_db \<Rightarrow> int \<Rightarrow> int option \<Rightarrow> lc_db \<Rightarrow> bool" where
  "writes_row db pid uid db' \<longleftrightarrow>
     (\<exists>x. db' = db\<lparr>db_pus := (db_pus db)((pid, uid) := x)\<rparr>
        \<and> (\<forall>r. x = Some r \<longrightarrow> db_pus db (pid, uid) = Some r
              \<or> pus_check r \<and> (db_papers db pid \<noteq> None \<or> db_pus db (pid, uid) \<noteq> None)))"

lemma writes_row_refl: "writes_row db pid uid db"
  unfolding writes_row_def by (rule exI [where x = "db_pus db (pid, uid)"]) auto

lemma writes_row_ok:
  assumes "writes_row db pid uid db'" and ok: "lc_ok db"
  shows "lc_ok db'"
proof -
  obtain x where db': "db' = db\<lparr>db_pus := (db_pus db)((pid, uid) := x)\<rparr>"
    and x: "\<And>r. x = Some r \<Longrightarrow> db_pus db (pid, uid) = Some r
              \<or> pus_check r \<and> (db_papers db pid \<noteq> None \<or> db_pus db (pid, uid) \<noteq> None)"
    using assms(1) by (auto simp: writes_row_def)
  have stored: "db_pus db k = Some r \<Longrightarrow> pus_check r \<and> db_papers db (fst k) \<noteq> None" for k r
    using ok unfolding lc_ok_def by blast
  have "x = Some r \<Longrightarrow> pus_check r \<and> db_papers db pid \<noteq> None" for r
    using x [of r] stored [of "(pid, uid)"] by auto
  then have "db_pus db' k = Some r \<Longrightarrow> pus_check r \<and> db_papers db' (fst k) \<noteq> None" for k r
    using stored [of k r] by (auto simp: db' split: if_splits)
  moreover have "\<forall>m \<in> db_library db'. db_papers db' (snd m) \<noteq> None"
    using ok by (simp add: db' lc_ok_def)
  ultimately show ?thesis unfolding lc_ok_def by blast
qed

lemma writes_row_frame:
  assumes "writes_row db pid uid db'"
  shows "k \<noteq> (pid, uid) \<Longrightarrow> db_pus db' k = db_pus db k"
    and "db_papers db' = db_papers db" and "db_library db' = db_library db"
    and "db_events db' = db_events db" and "db_pending db' = db_pending db"
    and "db_jobs db' = db_jobs db" and "db_feedback db' = db_feedback db"
  using assms by (auto simp: writes_row_def)

lemma upsert_pus_writes: "upsert_pus db pid uid ins upd = Inr db' \<Longrightarrow> writes_row db pid uid db'"
  unfolding upsert_pus_def
  by (auto simp: writes_row_refl split: if_splits option.splits)
    (auto simp: writes_row_def)

locale lifecycle_op =
  fixes op :: "lc_db \<Rightarrow> int \<Rightarrow> int option \<Rightarrow> lc_db lc_result"
  assumes op_writes: "op db pid uid = Inr db' \<Longrightarrow> writes_row db pid uid db'"
begin

lemma op_ok: "op db pid uid = Inr db' \<Longrightarrow> lc_ok db \<Longrightarrow> lc_ok db'"
  by (blast dest: op_writes writes_row_ok)

lemma op_frame: "op db pid uid = Inr db' \<Longrightarrow> k \<noteq> (pid, uid) \<Longrightarrow> db_pus db' k = db_pus db k"
  by (blast dest: op_writes writes_row_frame(1))

text \<open>A writer behind any guard is still a writer of the same row.\<close>

lemma guarded_writes: "res_bind g (\<lambda>_. op db pid uid) = Inr db' \<Longrightarrow> writes_row db pid uid db'"
  by (cases g) (auto dest: op_writes)

end

lemma upsert_paper_state_v1_writes:
  "upsert_paper_state_v1 role db pid uid st starred mode = Inr db' \<Longrightarrow> writes_row db pid uid db'"
  unfolding upsert_paper_state_v1_def
  by (auto split: if_splits option.splits dest: upsert_pus_writes)

interpretation state_upsert: lifecycle_op "\<lambda>db pid uid. upsert_state_and_starred db pid uid st starred"
  for st starred
  by unfold_locales
    (auto simp: upsert_state_and_starred_def upsert_dynamic_def res_bind_iff writes_row_refl
          split: if_splits dest: upsert_paper_state_v1_writes)

interpretation first_sync: lifecycle_op "\<lambda>db pid uid. upsert_do_nothing role db pid uid st starred"
  for role st starred
  by unfold_locales (auto simp: upsert_do_nothing_def dest: upsert_paper_state_v1_writes)

interpretation advance: lifecycle_op "\<lambda>db pid uid. upsert_state_conditional role db pid uid st"
  for role st
  by unfold_locales (auto simp: upsert_state_conditional_def dest: upsert_paper_state_v1_writes)

interpretation trash_op: lifecycle_op trash_paper
  by unfold_locales (auto simp: trash_paper_def trash_paper_v1_def dest: upsert_pus_writes)

interpretation restore_op: lifecycle_op restore_paper
proof unfold_locales
  fix db pid uid db'
  assume "restore_paper db pid uid = Inr db'"
  then show "writes_row db pid uid db'"
    by (auto simp: restore_paper_def restore_paper_v1_def res_bind_iff writes_row_def Let_def
             split: option.splits if_splits)
qed

interpretation star_op: lifecycle_op
  "\<lambda>db pid uid. res_bind (star_paper_v1 Research_runtime db pid uid) (\<lambda>(_, db'). Inr db')"
  by unfold_locales (auto simp: star_paper_v1_def Let_def res_bind_iff dest: upsert_pus_writes)

interpretation feedback_op: lifecycle_op
  "\<lambda>db pid uid. res_bind (update_paper_feedback_v1 Research_runtime db pid uid r n f) (\<lambda>(_, db'). Inr db')"
  for r n f
  by unfold_locales (auto simp: update_paper_feedback_v1_def res_bind_iff dest: upsert_pus_writes)

section \<open>What a request may change\<close>

text \<open>
  \<open>user_step u db db'\<close>: integrity is kept, no paper row appears or changes, and the reading state
  and library of every user but \<open>u\<close> are as before.
\<close>

definition user_step :: "int \<Rightarrow> lc_db \<Rightarrow> lc_db \<Rightarrow> bool" where
  "user_step u db db' \<longleftrightarrow> (lc_ok db \<longrightarrow> lc_ok db') \<and> db_papers db' = db_papers db
     \<and> (\<forall>p v. v \<noteq> Some u \<longrightarrow> db_pus db' (p, v) = db_pus db (p, v))
     \<and> (\<forall>v p. v \<noteq> u \<longrightarrow> ((v, p) \<in> db_library db' \<longleftrightarrow> (v, p) \<in> db_library db))"

lemma user_step_refl [simp]: "user_step u db db"
  by (simp add: user_step_def)

lemma user_step_trans: "user_step u db db1 \<Longrightarrow> user_step u db1 db2 \<Longrightarrow> user_step u db db2"
  by (auto simp: user_step_def)

lemma writes_row_user_step: "writes_row db pid (Some u) db' \<Longrightarrow> user_step u db db'"
  using writes_row_ok [of db pid "Some u" db'] writes_row_frame [of db pid "Some u" db']
  by (auto simp: user_step_def)

lemma user_step_enqueue: "user_step u db db1 \<Longrightarrow> user_step u db (enqueue env kind uid pid db1)"
  by (rule user_step_trans) (auto simp: user_step_def enqueue_def lc_ok_def)

lemma user_step_record_event: "user_step u db (snd (record_event fresh db t v p))"
  by (simp add: user_step_def record_event_def lc_ok_def Let_def)


lemma user_step_hard_delete: "user_step u db (snd (hard_delete_scoped fresh db pid (Some u)))"
  by (auto simp: user_step_def hard_delete_scoped_def record_event_def lc_ok_def Let_def
           split: option.splits)

lemma guarded_upsert_writes:
  "guarded_upsert db pid uid allowed st starred = Inr db' \<Longrightarrow> writes_row db pid uid db'"
  by (auto simp: guarded_upsert_def res_bind_iff dest: state_upsert.op_writes)

lemma guarded_upsert_step:
  "guarded_upsert db pid (Some u) allowed st starred = Inr db' \<Longrightarrow> user_step u db db'"
  by (blast dest: guarded_upsert_writes writes_row_user_step)

lemma star_paper_step: "star_paper env db pid u = Inr db' \<Longrightarrow> user_step u db db'"
proof -
  assume "star_paper env db pid u = Inr db'"
  then obtain n p db1 where 1: "star_paper_v1 Research_runtime db pid (Some u) = Inr ((n, p), db1)"
    and 2: "db' = db1 \<or> db' = enqueue env ''zotero.push'' (Some u) pid db1"
    by (auto simp: star_paper_def res_bind_iff Let_def split: if_splits)
  from 1 have "res_bind (star_paper_v1 Research_runtime db pid (Some u)) (\<lambda>(_, db'). Inr db') = Inr db1"
    by simp
  then have "user_step u db db1" by (rule star_op.op_writes [THEN writes_row_user_step])
  with 2 show ?thesis by (blast intro: user_step_enqueue)
qed

lemma annotate_paper_step: "annotate_paper db pid u r n f = Inr (row, db') \<Longrightarrow> user_step u db db'"
proof -
  assume "annotate_paper db pid u r n f = Inr (row, db')"
  then have "update_paper_feedback_v1 Research_runtime db pid (Some u) r n f = Inr (row, db')"
    by (auto simp: annotate_paper_def res_bind_iff split: sum.splits lc_error.splits upsert_result.splits)
  then have "res_bind (update_paper_feedback_v1 Research_runtime db pid (Some u) r n f)
               (\<lambda>(_, db'). Inr db') = Inr db'"
    by simp
  then show ?thesis by (rule feedback_op.op_writes [THEN writes_row_user_step])
qed

lemma handle_step: "handle env db u pid req = Inr db' \<Longrightarrow> user_step u db db'"
proof (cases req)
  case Save
  assume "handle env db u pid req = Inr db'"
  then show ?thesis using Save
    by (auto simp: save_paper_def res_bind_iff
             dest!: guarded_upsert_step intro: user_step_enqueue)
next
  case Mark_reading
  assume "handle env db u pid req = Inr db'"
  then show ?thesis using Mark_reading
    by (auto simp: reading_paper_def res_bind_iff Let_def split: if_splits
             dest!: guarded_upsert_step intro: user_step_trans user_step_record_event)
qed (auto simp: unsave_paper_def skip_paper_def done_paper_def unstar_paper_def
       trash_handler_def restore_handler_def hard_delete_paper_def res_bind_iff user_step_hard_delete
     dest: guarded_upsert_step star_paper_step annotate_paper_step
       trash_op.op_writes [THEN writes_row_user_step] restore_op.op_writes [THEN writes_row_user_step])





section \<open>Behaviour of the requests\<close>

text \<open>The states each endpoint starts from, and the row it leaves behind.\<close>

fun request_sources :: "lc_request \<Rightarrow> string set" where
  "request_sources Save = {''inbox'', ''done'', ''to_read'', ''reading''}"
| "request_sources Unsave = {''to_read''}"
| "request_sources Skip = {''inbox''}"
| "request_sources Mark_reading = {''to_read'', ''reading'', ''done''}"
| "request_sources Restore_it = {''trash''}"
| "request_sources Hard_delete = {''trash''}"
| "request_sources _ = {''inbox'', ''to_read'', ''reading'', ''done'', ''trash''}"


definition row_of :: "lc_db \<Rightarrow> int \<Rightarrow> int option \<Rightarrow> pus" where
  "row_of db pid uid = (case db_pus db (pid, uid) of None \<Rightarrow> default_pus | Some r \<Rightarrow> r)"

definition put_row :: "lc_db \<Rightarrow> int \<Rightarrow> int option \<Rightarrow> pus \<Rightarrow> lc_db" where
  "put_row db pid uid r = db\<lparr>db_pus := (db_pus db)((pid, uid) \<mapsto> r)\<rparr>"

lemma put_row_simps [store_simps]:
  "db_pus (put_row db pid uid r) = (db_pus db)((pid, uid) \<mapsto> r)"
  "db_papers (put_row db pid uid r) = db_papers db"
  "db_library (put_row db pid uid r) = db_library db"
  "row_of (put_row db pid uid r) pid uid = r"
  "put_row (put_row db pid uid r) pid uid r' = put_row db pid uid r'"
  by (simp_all add: put_row_def row_of_def)

lemma paper_visible_put_row: "paper_visible (put_row db pid uid r) u p = paper_visible db u p"
  by (simp add: paper_visible_def store_simps split: option.split)

lemma lc_okD: "lc_ok db \<Longrightarrow> db_pus db (pid, uid) = Some r \<Longrightarrow> pus_check r \<and> db_papers db pid \<noteq> None"
  unfolding lc_ok_def by (metis fst_conv)

lemma pus_check_default [simp]: "pus_check default_pus"
  by (simp add: pus_check_def default_pus_def valid_state_def reading_states_def)

lemma row_of_check: "lc_ok db \<Longrightarrow> pus_check (row_of db pid uid)"
  by (auto simp: row_of_def dest: lc_okD split: option.split)

lemma current_state_row: "lc_ok db \<Longrightarrow> current_state db pid uid = pus_state (row_of db pid uid)"
  using lc_okD [of db pid uid]
  by (force simp: current_state_def row_of_def default_pus_def pus_check_def valid_state_def
        reading_states_def split: option.split)

lemma current_state_valid: "lc_ok db \<Longrightarrow> valid_state (current_state db pid uid)"
  using row_of_check [of db pid uid] by (simp add: current_state_row pus_check_def)

lemma visible_exists: "paper_visible db u pid \<Longrightarrow> db_papers db pid \<noteq> None"
  by (auto simp: paper_visible_def split: option.splits)

lemma ownership_iff: "lc_ok db \<Longrightarrow> assert_paper_ownership db pid (Some u) = Inr () \<longleftrightarrow> paper_visible db u pid"
  using visible_exists [of db u pid] by (auto simp: assert_paper_ownership_def)

text \<open>On stored data that satisfies the constraints, an upsert of a legal value cannot fail.\<close>

lemma upsert_state_eq:
  assumes "lc_ok db" and "db_papers db pid \<noteq> None" and "s \<in> set reading_states"
  shows "upsert_state_and_starred db pid uid (Some s) None
    = Inr (put_row db pid uid ((row_of db pid uid)\<lparr>pus_state := s\<rparr>))"
  using assms lc_okD [of db pid uid]
  by (auto simp: upsert_state_and_starred_def upsert_dynamic_def upsert_paper_state_v1_def
      upsert_pus_def pus_check_def default_pus_def valid_state_def row_of_def put_row_def
      split: option.split)



lemma trash_eq:
  assumes "lc_ok db" and "db_papers db pid \<noteq> None"
  shows "trash_paper db pid uid = Inr (put_row db pid uid ((row_of db pid uid)
     \<lparr>pus_before := (if pus_state (row_of db pid uid) = ''trash'' then pus_before (row_of db pid uid)
                     else Some (pus_state (row_of db pid uid))),
      pus_state := ''trash''\<rparr>))"
  using assms lc_okD [of db pid uid]
  by (auto simp: trash_paper_def trash_paper_v1_def upsert_pus_def pus_check_def default_pus_def
      valid_state_def row_of_def put_row_def reading_states_def split: option.split)

lemma restore_eq:
  assumes "lc_ok db" and "db_pus db (pid, uid) = Some r"
  shows "restore_paper db pid uid
    = Inr (put_row db pid uid (r\<lparr>pus_state := coalesce (pus_before r) ''inbox'', pus_before := None\<rparr>))"
  using assms lc_okD [of db pid uid r]
  by (auto simp: restore_paper_def restore_paper_v1_def pus_check_def valid_state_def put_row_def
      reading_states_def Let_def split: option.splits)

definition annotated :: "pus \<Rightarrow> int option \<Rightarrow> string option \<Rightarrow> bool option \<Rightarrow> pus" where
  "annotated r rating notes flagged = r\<lparr>pus_rating := coalesce_opt rating (pus_rating r),
     pus_notes := coalesce_opt notes (pus_notes r), pus_flagged := coalesce flagged (pus_flagged r)\<rparr>"


text \<open>The ownership and state checks in front of a request.\<close>

definition gate :: "lc_db \<Rightarrow> int \<Rightarrow> int \<Rightarrow> string set \<Rightarrow> lc_error option" where
  "gate db u pid sources =
     (if db_papers db pid = None then Some (Http 404)
      else if \<not> paper_visible db u pid then Some (Http 403)
      else if current_state db pid (Some u) \<notin> sources then Some (Http 409)
      else None)"

lemma all_sources: "lc_ok db \<Longrightarrow> current_state db pid uid \<in> {''inbox'', ''to_read'', ''reading'', ''done'', ''trash''}"
  using current_state_valid [of db pid uid] by (auto simp: valid_state_def reading_states_def)

lemma guard_gate:
  "res_bind (assert_paper_ownership db pid (Some u)) (\<lambda>_.
     res_bind (assert_paper_in_states db pid (Some u) allowed) (\<lambda>_. k))
   = (case gate db u pid (set allowed) of None \<Rightarrow> k | Some e \<Rightarrow> Inl e)"
  by (simp add: gate_def assert_paper_ownership_def assert_paper_in_states_def)

lemma owner_gate:
  assumes "lc_ok db"
  shows "res_bind (assert_paper_ownership db pid (Some u)) (\<lambda>_. k)
   = (case gate db u pid {''inbox'', ''to_read'', ''reading'', ''done'', ''trash''} of
        None \<Rightarrow> k | Some e \<Rightarrow> Inl e)"
  using all_sources [OF assms, of pid "Some u"]
  by (simp add: gate_def assert_paper_ownership_def)



text \<open>One reading state as a machine of its own: what each request makes of the caller's row.\<close>

fun request_row :: "lc_request \<Rightarrow> pus \<Rightarrow> pus" where
  "request_row Save r = r\<lparr>pus_state := ''to_read''\<rparr>"
| "request_row Unsave r = r\<lparr>pus_state := ''inbox''\<rparr>"
| "request_row Skip r = r\<lparr>pus_state := ''done''\<rparr>"
| "request_row Mark_reading r = r\<lparr>pus_state := ''reading''\<rparr>"
| "request_row Mark_done r = r\<lparr>pus_state := ''done''\<rparr>"
| "request_row Star r = r\<lparr>pus_starred := True\<rparr>"
| "request_row Unstar r = r\<lparr>pus_starred := False\<rparr>"
| "request_row Trash_it r =
     r\<lparr>pus_before := (if pus_state r = ''trash'' then pus_before r else Some (pus_state r)),
       pus_state := ''trash''\<rparr>"
| "request_row Restore_it r = r\<lparr>pus_state := coalesce (pus_before r) ''inbox'', pus_before := None\<rparr>"
| "request_row (Annotate n t f) r = annotated r n t f"
| "request_row Hard_delete r = r"


lemma guarded_none_eq:
  "lc_ok db \<Longrightarrow>
   guarded_upsert db pid (Some u) None st starred
   = (case gate db u pid {''inbox'', ''to_read'', ''reading'', ''done'', ''trash''} of
        None \<Rightarrow> upsert_state_and_starred db pid (Some u) st starred
      | Some e \<Rightarrow> Inl e)"
  by (simp add: guarded_upsert_def owner_gate)

lemma row_of_enqueue [store_simps]: "row_of (enqueue env k v p db) pid uid = row_of db pid uid"
  by (simp add: row_of_def enqueue_def)

lemma row_of_event [store_simps]: "row_of (snd (record_event fresh db t v p)) pid uid = row_of db pid uid"
  by (simp add: row_of_def record_event_def Let_def)

lemma row_of_hard_delete [store_simps]:
  "row_of (snd (hard_delete_scoped fresh db p (Some v))) pid uid = row_of db pid uid"
  by (simp add: row_of_def hard_delete_scoped_def record_event_def Let_def)

lemma reading_states_mem [simp]:
  "''inbox'' \<in> set reading_states" "''to_read'' \<in> set reading_states"
  "''reading'' \<in> set reading_states" "''done'' \<in> set reading_states"
  by (simp_all add: reading_states_def)





lemma restore_handler_eq:
  assumes "lc_ok db" and g: "gate db u pid (request_sources Restore_it) = None"
  shows "restore_handler db pid u = Inr (put_row db pid (Some u) (request_row Restore_it (row_of db pid (Some u))))"
proof -
  have "current_state db pid (Some u) = ''trash''" using g by (auto simp: gate_def split: if_splits)
  then obtain r where "db_pus db (pid, Some u) = Some r"
    by (auto simp: current_state_def split: option.splits)
  then show ?thesis using assms
    by (simp add: restore_handler_def guard_gate restore_eq row_of_def)
qed






definition demo_env :: lc_env where
  "demo_env = \<lparr>env_broker = True, env_fresh = 0, env_links = 0, env_auto_push = False\<rparr>"










text \<open>
  Trashing a visible paper and restoring it gives back the row it had (state, star, notes,
  rating, flag) with \<open>state_before_trash\<close> cleared, and nothing else in the database changed;
  trashing it twice is the same as trashing it once.
\<close>

lemma trash_restore_roundtrip:
  assumes "lc_ok db" and "paper_visible db u pid" and "current_state db pid (Some u) \<noteq> ''trash''"
  shows "\<exists>db1. trash_handler db pid u = Inr db1
    \<and> current_state db1 pid (Some u) = ''trash''
    \<and> trash_handler db1 pid u = Inr db1
    \<and> restore_handler db1 pid u
        = Inr (put_row db pid (Some u) ((row_of db pid (Some u))\<lparr>pus_before := None\<rparr>))"
proof -
  let ?r = "row_of db pid (Some u)"
  let ?t = "?r\<lparr>pus_before := Some (pus_state ?r), pus_state := ''trash''\<rparr>"
  let ?db1 = "put_row db pid (Some u) ?t"
  have ex: "db_papers db pid \<noteq> None" by (rule visible_exists) fact
  have st: "pus_state ?r \<noteq> ''trash''" using assms(1,3) by (simp add: current_state_row)
  have 1: "trash_handler db pid u = Inr ?db1"
    using assms st ex by (simp add: trash_handler_def assert_paper_ownership_def trash_eq)
  have "writes_row db pid (Some u) ?db1"
    using 1 ex assms(2) by (auto simp: trash_handler_def assert_paper_ownership_def intro: trash_op.op_writes)
  then have ok1: "lc_ok ?db1" using assms(1) by (rule writes_row_ok)
  have vis1: "paper_visible ?db1 u pid"
    using assms(2) by (simp add: paper_visible_put_row)
  have cur1: "current_state ?db1 pid (Some u) = ''trash''"
    by (simp add: current_state_row [OF ok1] store_simps)
  have 2: "trash_handler ?db1 pid u = Inr ?db1"
    using vis1 ex trash_eq [OF ok1, of pid "Some u"]
    by (simp add: trash_handler_def assert_paper_ownership_def store_simps)
  have "restore_handler ?db1 pid u
     = Inr (put_row ?db1 pid (Some u) (request_row Restore_it (row_of ?db1 pid (Some u))))"
    by (rule restore_handler_eq [OF ok1]) (simp add: gate_def vis1 cur1 ex store_simps)
  then have 3: "restore_handler ?db1 pid u = Inr (put_row db pid (Some u) (?r\<lparr>pus_before := None\<rparr>))"
    by (simp add: store_simps)
  show ?thesis using 1 2 3 cur1 by blast
qed

section \<open>Bulk actions\<close>

definition bulk_append :: "bulk_result \<Rightarrow> bulk_result \<Rightarrow> bulk_result" where
  "bulk_append a b = \<lparr>bulk_succeeded = bulk_succeeded a @ bulk_succeeded b,
     bulk_failed = bulk_failed a @ bulk_failed b, bulk_vectors = bulk_vectors a @ bulk_vectors b\<rparr>"

definition bulk_empty :: bulk_result where
  "bulk_empty = \<lparr>bulk_succeeded = [], bulk_failed = [], bulk_vectors = []\<rparr>"

lemma bulk_append_simps [simp]:
  "bulk_append a bulk_empty = a" "bulk_append bulk_empty a = a"
  "bulk_append (bulk_append a b) c = bulk_append a (bulk_append b c)"
  "bulk_succeeded (bulk_append a b) = bulk_succeeded a @ bulk_succeeded b"
  "bulk_failed (bulk_append a b) = bulk_failed a @ bulk_failed b"
  "bulk_vectors (bulk_append a b) = bulk_vectors a @ bulk_vectors b"
  "bulk_succeeded bulk_empty = []" "bulk_failed bulk_empty = []" "bulk_vectors bulk_empty = []"
  by (simp_all add: bulk_append_def bulk_empty_def)

definition bulk_one ::
  "nat \<Rightarrow> lc_db \<Rightarrow> int \<Rightarrow> int option \<Rightarrow> string \<Rightarrow> (bool \<times> lc_db) lc_result" where
  "bulk_one fresh db pid uid action =
     res_bind (assert_paper_ownership db pid uid) (\<lambda>_. apply_bulk_action fresh db pid uid action)"

lemma bulk_upd_append:
  "acc\<lparr>bulk_failed := bulk_failed acc @ [x]\<rparr> = bulk_append acc (bulk_empty\<lparr>bulk_failed := [x]\<rparr>)"
  "acc\<lparr>bulk_succeeded := bulk_succeeded acc @ [y], bulk_vectors := bulk_vectors acc @ v\<rparr>
     = bulk_append acc (bulk_empty\<lparr>bulk_succeeded := [y], bulk_vectors := v\<rparr>)"
  by (simp_all add: bulk_append_def bulk_empty_def)

text \<open>The accumulator is only ever appended to.\<close>

lemma bulk_loop_acc:
  "bulk_loop fresh db pids uid action acc =
    (let (r, db') = bulk_loop fresh db pids uid action bulk_empty in (bulk_append acc r, db'))"
proof (induction pids arbitrary: fresh db acc)
  case (Cons pid pids)
  show ?case
  proof (cases "bulk_one fresh db pid uid action")
    case (Inl e)
    let ?x = "(pid, classify_bulk_error e)"
    show ?thesis using Inl
      Cons.IH [of "Suc fresh" db "bulk_append acc (bulk_empty\<lparr>bulk_failed := [?x]\<rparr>)"]
      Cons.IH [of "Suc fresh" db "bulk_empty\<lparr>bulk_failed := [?x]\<rparr>"]
      by (simp add: bulk_one_def bulk_upd_append split: prod.splits)
  next
    case (Inr a)
    obtain d db1 where "a = (d, db1)" by force
    let ?r = "bulk_empty\<lparr>bulk_succeeded := [pid], bulk_vectors := (if d then [pid] else [])\<rparr>"
    show ?thesis using Inr \<open>a = (d, db1)\<close>
      Cons.IH [of "Suc fresh" db1 "bulk_append acc ?r"] Cons.IH [of "Suc fresh" db1 ?r]
      by (simp add: bulk_one_def bulk_upd_append split: prod.splits)
  qed
qed (simp add: bulk_append_def bulk_empty_def)

lemma bulk_loop_Inl:
  "bulk_one fresh db pid uid action = Inl e \<Longrightarrow>
   bulk_loop fresh db (pid # pids) uid action bulk_empty =
     (let (r, db') = bulk_loop (Suc fresh) db pids uid action bulk_empty
      in (bulk_append (bulk_empty\<lparr>bulk_failed := [(pid, classify_bulk_error e)]\<rparr>) r, db'))"
  using bulk_loop_acc [of "Suc fresh" db pids uid action "bulk_empty\<lparr>bulk_failed := [(pid, classify_bulk_error e)]\<rparr>"]
  by (simp add: bulk_one_def)

lemma bulk_loop_Inr:
  "bulk_one fresh db pid uid action = Inr (d, db1) \<Longrightarrow>
   bulk_loop fresh db (pid # pids) uid action bulk_empty =
     (let (r, db') = bulk_loop (Suc fresh) db1 pids uid action bulk_empty
      in (bulk_append (bulk_empty\<lparr>bulk_succeeded := [pid], bulk_vectors := (if d then [pid] else [])\<rparr>) r, db'))"
  using bulk_loop_acc [of "Suc fresh" db1 pids uid action
    "bulk_empty\<lparr>bulk_succeeded := [pid], bulk_vectors := (if d then [pid] else [])\<rparr>"]
  by (simp add: bulk_one_def)

lemma bulk_one_fresh: "action \<noteq> ''hard_delete'' \<Longrightarrow> bulk_one fresh db pid uid action = bulk_one 0 db pid uid action"
  by (simp add: bulk_one_def apply_bulk_action_def Let_def)

lemma bulk_partition:
  "bulk_loop fresh db pids uid action bulk_empty = (r, db') \<Longrightarrow>
   mset (bulk_succeeded r) + mset (map fst (bulk_failed r)) = mset pids"
proof (induction pids arbitrary: fresh db r db')
  case (Cons pid pids)
  show ?case
  proof (cases "bulk_one fresh db pid uid action")
    case (Inl e)
    then show ?thesis using Cons bulk_loop_Inl [OF Inl, of pids]
      by (force split: prod.splits simp del: bulk_loop.simps)
  next
    case (Inr a)
    obtain d db1 where "a = (d, db1)" by force
    then show ?thesis using Cons Inr bulk_loop_Inr [of fresh db pid uid action d db1 pids]
      by (force split: prod.splits simp del: bulk_loop.simps)
  qed
qed (simp add: bulk_empty_def)

lemma bulk_replay:
  assumes "action \<noteq> ''hard_delete''"
  shows "bulk_loop fresh db pids uid action bulk_empty = (r, db') \<Longrightarrow>
   bulk_loop fresh' db (bulk_succeeded r) uid action bulk_empty
     = (r\<lparr>bulk_failed := []\<rparr>, db')"
proof (induction pids arbitrary: fresh fresh' db r db')
  case (Cons pid pids)
  show ?case
  proof (cases "bulk_one fresh db pid uid action")
    case (Inl e)
    then show ?thesis using Cons bulk_loop_Inl [OF Inl, of pids]
      by (force split: prod.splits simp del: bulk_loop.simps simp: bulk_append_def bulk_empty_def)
  next
    case (Inr a)
    obtain d db1 where a: "a = (d, db1)" by force
    obtain r1 where r1: "bulk_loop (Suc fresh) db1 pids uid action bulk_empty = (r1, db')"
      and r: "r = bulk_append (bulk_empty\<lparr>bulk_succeeded := [pid], bulk_vectors := (if d then [pid] else [])\<rparr>) r1"
      using Cons.prems bulk_loop_Inr [of fresh db pid uid action d db1 pids] Inr a
      by (auto split: prod.splits simp del: bulk_loop.simps)
    have "bulk_one fresh' db pid uid action = Inr (d, db1)"
      using Inr a bulk_one_fresh [OF assms, of fresh] bulk_one_fresh [OF assms, of fresh'] by simp
    from bulk_loop_Inr [OF this, of "bulk_succeeded r1"] show ?thesis
      using Cons.IH [OF r1, of "Suc fresh'"] r
      by (simp add: bulk_append_def bulk_empty_def del: bulk_loop.simps)
  qed
qed (simp add: bulk_empty_def)

text \<open>
  A bulk action reports every requested paper exactly once, as succeeded or as failed, and its
  failed papers leave no trace: running the action on the succeeded papers alone reports no failure
  and ends in the same database (a hard delete draws its event ids by position, so there the second
  half is left out).
\<close>

lemma bulk_isolates_failures:
  assumes "bulk_action_papers fresh db pids uid action = (r, db')"
  shows "mset (bulk_succeeded r) + mset (map fst (bulk_failed r)) = mset pids
    \<and> (action \<noteq> ''hard_delete'' \<longrightarrow>
         bulk_action_papers fresh' db (bulk_succeeded r) uid action = (r\<lparr>bulk_failed := []\<rparr>, db'))"
  using assms bulk_partition bulk_replay by (simp add: bulk_action_papers_def bulk_empty_def)

text \<open>
  \<open>done\<close> has no state check, so it takes a trashed paper out of trash and leaves its
  \<open>state_before_trash\<close> behind; the restore endpoint then refuses with a 409, but the restore helper,
  which is documented to raise a 404 for a paper that is not in trash, succeeds and moves the paper
  back to the state from before it was trashed.
\<close>

lemma leaving_trash_without_restore:
  assumes "lc_ok db" and "paper_visible db u pid"
    and "db_pus db (pid, Some u) = Some r" and "pus_state r = ''trash''"
  shows "\<exists>db'. done_paper db pid u = Inr db'
    \<and> db_pus db' (pid, Some u) = Some (r\<lparr>pus_state := ''done''\<rparr>)
    \<and> restore_handler db' pid u = Inl (Http 409)
    \<and> restore_paper db' pid (Some u)
        = Inr (put_row db pid (Some u) (r\<lparr>pus_state := coalesce (pus_before r) ''inbox'', pus_before := None\<rparr>))"
proof -
  let ?db' = "put_row db pid (Some u) (r\<lparr>pus_state := ''done''\<rparr>)"
  have ex: "db_papers db pid \<noteq> None" by (rule visible_exists) fact
  have row: "row_of db pid (Some u) = r" using assms(3) by (simp add: row_of_def)
  have "gate db u pid {''inbox'', ''to_read'', ''reading'', ''done'', ''trash''} = None"
    using assms ex by (simp add: gate_def current_state_row row)
  then have 1: "done_paper db pid u = Inr ?db'"
    using assms(1) ex by (simp add: done_paper_def guarded_none_eq upsert_state_eq row)
  have "handle demo_env db u pid Mark_done = Inr ?db'" using 1 by simp
  then have "lc_ok ?db'" using assms(1) handle_step unfolding user_step_def by blast
  moreover have "db_pus ?db' (pid, Some u) = Some (r\<lparr>pus_state := ''done''\<rparr>)" by (simp add: store_simps)
  moreover have "assert_paper_ownership ?db' pid (Some u) = Inr ()"
    using assms(2) ex by (simp add: assert_paper_ownership_def paper_visible_put_row store_simps)
  ultimately show ?thesis
    using 1 by (auto simp: restore_handler_def assert_paper_in_states_def current_state_def
      restore_eq store_simps)
qed

end
