(* ===== verification/Source_Limiter.thy ===== *)
theory Source_Limiter
  imports Prelude
begin

text \<open>
  The rate limiters of the paper sources (\<open>jarvis_common/source_rate_limiter.py\<close>): the in-memory
  token bucket, and the limiter that shares one slot per source through the \<open>source_health\<close> table,
  with the two owner functions of \<open>db/init.sql\<close> it calls. Clock readings and durations are real
  numbers of seconds; the readings an operation takes are its arguments, so a theorem quantifies
  over every clock and every interleaving of the workers.
\<close>

section \<open>The token bucket\<close>

record bucket =
  bk_rate :: real
  bk_cap :: real
  bk_tokens :: real
  bk_last :: real

text \<open>\<open>SourceRateLimiter.__init__\<close>; \<open>None\<close> is its \<open>ValueError\<close>.\<close>

definition bucket_init :: "real \<Rightarrow> nat \<Rightarrow> real option \<Rightarrow> real \<Rightarrow> bucket option" where
  "bucket_init rate_per_second burst rpm now =
     (let rate = (case rpm of None \<Rightarrow> rate_per_second | Some r \<Rightarrow> r / 60) in
      if rate \<le> 0 then None
      else Some \<lparr>bk_rate = rate, bk_cap = real burst, bk_tokens = real burst, bk_last = now\<rparr>)"

text \<open>
  \<open>SourceRateLimiter.acquire\<close>, entered at time \<open>now\<close>; \<open>over\<close> is how much longer than asked the
  sleep took. Returns the bucket and the time at which the caller may go on. The lock is held
  through the sleep, so calls are sequential.
\<close>

definition bucket_acquire :: "bucket \<Rightarrow> real \<Rightarrow> real \<Rightarrow> bucket \<times> real" where
  "bucket_acquire b now over =
     (let tokens = min (bk_cap b) (bk_tokens b + (now - bk_last b) * bk_rate b) in
      if tokens < 1 then
        (let wait_time = (1 - tokens) / bk_rate b; woken = now + wait_time + over
         in (b\<lparr>bk_tokens := 0, bk_last := woken\<rparr>, woken))
      else (b\<lparr>bk_tokens := tokens - 1, bk_last := now\<rparr>, now))"

fun bucket_grants :: "bucket \<Rightarrow> (real \<times> real) list \<Rightarrow> real list" where
  "bucket_grants b [] = []"
| "bucket_grants b ((now, over) # xs) =
     (let (b', t) = bucket_acquire b now over in t # bucket_grants b' xs)"

text \<open>What the monotonic clock and \<open>asyncio.sleep\<close> guarantee of a schedule of calls.\<close>

fun bucket_schedule :: "bucket \<Rightarrow> (real \<times> real) list \<Rightarrow> bool" where
  "bucket_schedule b [] = True"
| "bucket_schedule b ((now, over) # xs) \<longleftrightarrow>
     bk_last b \<le> now \<and> 0 \<le> over \<and> bucket_schedule (fst (bucket_acquire b now over)) xs"

definition bucket_ok :: "bucket \<Rightarrow> bool" where
  "bucket_ok b \<longleftrightarrow> 0 < bk_rate b \<and> 0 \<le> bk_tokens b \<and> bk_tokens b \<le> bk_cap b"

lemma bucket_init_ok: "bucket_init r n rpm now = Some b \<Longrightarrow> bucket_ok b"
  by (auto simp: bucket_init_def bucket_ok_def Let_def split: if_splits)

lemma bucket_acquire_ok [inv_intros]:
  "bucket_ok b \<Longrightarrow> bk_last b \<le> now \<Longrightarrow> bucket_ok (fst (bucket_acquire b now over))"
  by (auto simp: bucket_ok_def bucket_acquire_def Let_def)

lemma bucket_acquire_const [simp]:
  "bk_rate (fst (bucket_acquire b now over)) = bk_rate b"
  "bk_cap (fst (bucket_acquire b now over)) = bk_cap b"
  "snd (bucket_acquire b now over) = bk_last (fst (bucket_acquire b now over))"
  by (simp_all add: bucket_acquire_def Let_def)

text \<open>Each grant is paid for: the tokens and what the elapsed time would refill drop by one.\<close>

lemma bucket_acquire_pays:
  assumes "bucket_ok b" and "bk_last b \<le> now" and "0 \<le> over"
  defines "b' \<equiv> fst (bucket_acquire b now over)"
  shows "bk_tokens b' + 1 \<le> bk_tokens b + bk_rate b * (bk_last b' - bk_last b)"
proof -
  let ?t = "min (bk_cap b) (bk_tokens b + (now - bk_last b) * bk_rate b)"
  have rate: "0 < bk_rate b" using assms(1) by (simp add: bucket_ok_def)
  have le: "?t \<le> bk_tokens b + (now - bk_last b) * bk_rate b" by simp
  show ?thesis
  proof (cases "?t < 1")
    case True
    have "bk_rate b * (now + (1 - ?t) / bk_rate b + over - bk_last b)
        = (now - bk_last b) * bk_rate b + (1 - ?t) + bk_rate b * over"
      using rate by (simp add: field_simps)
    moreover have "0 \<le> bk_rate b * over" using rate assms(3) by simp
    moreover have "bk_tokens b' = 0" "bk_last b' = now + (1 - ?t) / bk_rate b + over"
      using True by (simp_all add: b'_def bucket_acquire_def Let_def)
    ultimately show ?thesis using le by simp
  next
    case False
    then have "bk_tokens b' = ?t - 1" "bk_last b' = now"
      by (simp_all add: b'_def bucket_acquire_def Let_def)
    then show ?thesis using le by (simp add: mult.commute)
  qed
qed

lemma bucket_grants_from:
  "bucket_ok b \<Longrightarrow> bucket_schedule b xs \<Longrightarrow> j < length (bucket_grants b xs) \<Longrightarrow>
   real j + 1 \<le> bk_tokens b + bk_rate b * (bucket_grants b xs ! j - bk_last b)"
proof (induction xs arbitrary: b j)
  case (Cons x xs)
  obtain now over where x: "x = (now, over)" by force
  let ?b = "fst (bucket_acquire b now over)"
  have grants: "bucket_grants b (x # xs) = bk_last ?b # bucket_grants ?b xs"
    by (simp add: x split_def Let_def)
  have pre: "bk_last b \<le> now" "0 \<le> over" "bucket_schedule ?b xs" using Cons.prems x by auto
  have pays: "bk_tokens ?b + 1 \<le> bk_tokens b + bk_rate b * (bk_last ?b - bk_last b)"
    by (rule bucket_acquire_pays) (use Cons.prems pre in auto)
  have ok: "bucket_ok ?b" by (rule bucket_acquire_ok) (use Cons.prems pre in auto)
  show ?case
  proof (cases j)
    case 0
    then show ?thesis using pays ok by (simp add: grants bucket_ok_def)
  next
    case (Suc i)
    have "real i + 1 \<le> bk_tokens ?b + bk_rate b * (bucket_grants ?b xs ! i - bk_last ?b)"
      using Cons.IH [OF ok pre(3), of i] Cons.prems(3) Suc by (simp add: grants)
    then show ?thesis using pays by (simp add: grants Suc algebra_simps)
  qed
qed simp

lemma bucket_window:
  "bucket_ok b \<Longrightarrow> bucket_schedule b xs \<Longrightarrow> i \<le> j \<Longrightarrow> j < length (bucket_grants b xs) \<Longrightarrow>
   real (j - i + 1) \<le> max 1 (bk_cap b) + bk_rate b * (bucket_grants b xs ! j - bucket_grants b xs ! i)"
proof (induction xs arbitrary: b i j)
  case (Cons x xs)
  obtain now over where x: "x = (now, over)" by force
  let ?b = "fst (bucket_acquire b now over)"
  have grants: "bucket_grants b (x # xs) = bk_last ?b # bucket_grants ?b xs"
    by (simp add: x split_def Let_def)
  have pre: "bk_last b \<le> now" "0 \<le> over" "bucket_schedule ?b xs" using Cons.prems x by auto
  have ok: "bucket_ok ?b" by (rule bucket_acquire_ok) (use Cons.prems pre in auto)
  show ?case
  proof (cases i)
    case (Suc i')
    then obtain j' where j: "j = Suc j'" "i' \<le> j'" using Cons.prems(3) by (cases j) auto
    then show ?thesis using Cons.IH [OF ok pre(3), of i' j'] Cons.prems(4) Suc by (simp add: grants)
  next
    case 0
    have tok: "bk_tokens ?b + 1 \<le> max 1 (bk_cap b)"
      by (auto simp: bucket_acquire_def Let_def)
    show ?thesis
    proof (cases j)
      case (Suc j')
      have "real j' + 1 \<le> bk_tokens ?b + bk_rate b * (bucket_grants ?b xs ! j' - bk_last ?b)"
        using bucket_grants_from [OF ok pre(3), of j'] Cons.prems(4) Suc by (simp add: grants)
      then show ?thesis using tok by (simp add: grants Suc \<open>i = 0\<close>)
    qed (simp add: \<open>i = 0\<close>)
  qed
qed simp

section \<open>The shared slot\<close>

record health_row =
  hr_last :: "real option"
  hr_status :: "string option"
  hr_cooldown :: "real option"
  hr_failures :: int

text \<open>Rows are unique per user and source, NULL users included; a user id is a foreign key.\<close>

type_synonym source_key = "int option \<times> string"

record sh_db =
  sh_rows :: "source_key \<Rightarrow> health_row option"
  sh_users :: "int set"
  sh_runtime :: bool

datatype sh_error = Not_allowed | No_such_user | Db_down

definition sh_user_ok :: "sh_db \<Rightarrow> int option \<Rightarrow> bool" where
  "sh_user_ok db uid = (case uid of None \<Rightarrow> True | Some u \<Rightarrow> u \<in> sh_users db)"

text \<open>
  The insert-or-update of the slot claim. \<open>now\<close> is the transaction's \<open>NOW()\<close>; \<open>Some t\<close> is the
  returned row, \<open>None\<close> the empty result of an update whose \<open>WHERE\<close> was false.
\<close>

definition claim_source_slot_v1 ::
  "sh_db \<Rightarrow> int option \<Rightarrow> string \<Rightarrow> real \<Rightarrow> real \<Rightarrow> sh_error + (real option \<times> sh_db)" where
  "claim_source_slot_v1 db uid src min_s now =
     (if \<not> sh_runtime db \<or> src = [] \<or> min_s < 0 \<or> min_s > 86400 then Inl Not_allowed
      else case sh_rows db (uid, src) of
        None \<Rightarrow>
          (if \<not> sh_user_ok db uid then Inl No_such_user
           else Inr (Some now, db\<lparr>sh_rows := (sh_rows db)((uid, src) \<mapsto>
             \<lparr>hr_last = Some now, hr_status = None, hr_cooldown = None, hr_failures = 0\<rparr>)\<rparr>))
      | Some r \<Rightarrow>
          (if (case hr_last r of None \<Rightarrow> True | Some l \<Rightarrow> l < now - min_s)
           then Inr (Some now, db\<lparr>sh_rows := (sh_rows db)((uid, src) \<mapsto> r\<lparr>hr_last := Some now\<rparr>)\<rparr>)
           else Inr (None, db)))"

definition update_source_health_v1 ::
  "sh_db \<Rightarrow> int option \<Rightarrow> string \<Rightarrow> real \<Rightarrow> string \<Rightarrow> real option \<Rightarrow> sh_error + sh_db" where
  "update_source_health_v1 db uid src stamp status cooldown =
     (if \<not> sh_runtime db \<or> status \<notin> {''ok'', ''rate_limit'', ''error'', ''reset''} then Inl Not_allowed
      else let new_status = Some (if status = ''reset'' then ''ok'' else status) in
      case sh_rows db (uid, src) of
        None \<Rightarrow>
          (if \<not> sh_user_ok db uid then Inl No_such_user
           else Inr (db\<lparr>sh_rows := (sh_rows db)((uid, src) \<mapsto>
             \<lparr>hr_last = Some stamp, hr_status = new_status, hr_cooldown = cooldown,
              hr_failures = (if status = ''error'' then 1 else 0)\<rparr>)\<rparr>))
      | Some r \<Rightarrow>
          Inr (db\<lparr>sh_rows := (sh_rows db)((uid, src) \<mapsto>
            r\<lparr>hr_last := (if status = ''reset'' then hr_last r else Some stamp),
              hr_status := new_status,
              hr_cooldown := (if status \<in> {''ok'', ''reset''} then None
                              else if status = ''rate_limit'' then cooldown else hr_cooldown r),
              hr_failures := (if status = ''error'' then hr_failures r + 1
                              else if status \<in> {''ok'', ''reset''} then 0 else hr_failures r)\<rparr>)\<rparr>))"

text \<open>
  \<open>update_last_request\<close> and \<open>reset\<close>: a failing call is logged and swallowed. \<open>up\<close> tells whether the
  pool reaches the database at all.
\<close>

definition update_last_request ::
  "sh_db \<Rightarrow> bool \<Rightarrow> int option \<Rightarrow> string \<Rightarrow> real \<Rightarrow> string \<Rightarrow> int option \<Rightarrow> sh_db" where
  "update_last_request db up uid src now status retry_after_s =
     (let cooldown = (if status = ''rate_limit''
            then Some (now + real_of_int (case retry_after_s of Some s \<Rightarrow> s | None \<Rightarrow> 60 * 60)) else None)
      in if \<not> up then db
         else case update_source_health_v1 db uid src now status cooldown of Inl _ \<Rightarrow> db | Inr db' \<Rightarrow> db')"

definition limiter_reset :: "sh_db \<Rightarrow> bool \<Rightarrow> int option \<Rightarrow> string \<Rightarrow> real \<Rightarrow> sh_db" where
  "limiter_reset db up uid src now =
     (if \<not> up then db
      else case update_source_health_v1 db uid src now ''reset'' None of Inl _ \<Rightarrow> db | Inr db' \<Rightarrow> db')"

definition is_in_cooldown :: "sh_db \<Rightarrow> bool \<Rightarrow> int option \<Rightarrow> string \<Rightarrow> real \<Rightarrow> bool \<times> real option" where
  "is_in_cooldown db up uid src now =
     (if \<not> up then (False, None)
      else case sh_rows db (uid, src) of
        None \<Rightarrow> (False, None)
      | Some r \<Rightarrow>
          (case hr_cooldown r of
             None \<Rightarrow> (False, None)
           | Some c \<Rightarrow> (if c > now then (True, Some c) else (False, None))))"

record health_snap =
  sn_in_cooldown :: bool
  sn_cooldown :: "real option"
  sn_status :: "string option"
  sn_last :: "real option"
  sn_stale :: bool

definition safe_snap :: health_snap where
  "safe_snap = \<lparr>sn_in_cooldown = False, sn_cooldown = None, sn_status = None, sn_last = None,
     sn_stale = False\<rparr>"

definition health_snapshot :: "sh_db \<Rightarrow> bool \<Rightarrow> int option \<Rightarrow> string \<Rightarrow> real \<Rightarrow> health_snap" where
  "health_snapshot db up uid src now =
     (if \<not> up then safe_snap
      else case sh_rows db (uid, src) of
        None \<Rightarrow> safe_snap
      | Some r \<Rightarrow>
          \<lparr>sn_in_cooldown = (case hr_cooldown r of None \<Rightarrow> False | Some c \<Rightarrow> c > now),
           sn_cooldown = hr_cooldown r,
           sn_status = hr_status r,
           sn_last = hr_last r,
           sn_stale = (hr_status r = Some ''rate_limit''
                       \<and> (case hr_cooldown r of None \<Rightarrow> True | Some c \<Rightarrow> c \<le> now))\<rparr>)"

section \<open>The bounded claim loop\<close>

text \<open>
  What the \<open>n\<close>-th pass through the loop meets: the table as the other workers left it, whether the
  database answers, the transaction's \<open>NOW()\<close>, and the clock read for the cooldown check and for
  the wait.
\<close>

record claim_env =
  ce_db :: sh_db
  ce_up :: bool
  ce_now :: real
  ce_clock :: real
  ce_clock2 :: real

datatype claim_step = Cooling real | Claimed real sh_db | Missed "real option" | Failed sh_error

text \<open>One transaction: cooldown check, then the claim; \<open>attempts\<close> already counts this claim.\<close>

definition claim_transaction :: "int option \<Rightarrow> string \<Rightarrow> real \<Rightarrow> claim_env \<Rightarrow> nat \<Rightarrow> claim_step" where
  "claim_transaction uid src min_s e attempts =
     (if \<not> ce_up e then Failed Db_down
      else let row = sh_rows (ce_db e) (uid, src);
               cooldown_wait = (case row of
                   Some r \<Rightarrow> (case hr_cooldown r of
                       Some c \<Rightarrow> (if c > ce_clock e then Some (c - ce_clock e) else None)
                     | None \<Rightarrow> None)
                 | None \<Rightarrow> None);
               last_request = (case row of Some r \<Rightarrow> hr_last r | None \<Rightarrow> None)
      in case cooldown_wait of
        Some w \<Rightarrow> Cooling w
      | None \<Rightarrow>
          (case claim_source_slot_v1 (ce_db e) uid src min_s (ce_now e) of
             Inl err \<Rightarrow> Failed err
           | Inr (Some t, db') \<Rightarrow> Claimed t db'
           | Inr (None, _) \<Rightarrow>
               Missed (if attempts < 2
                       then Some (case last_request of
                                    Some l \<Rightarrow> max 0 (min_s - (ce_clock2 e - l))
                                  | None \<Rightarrow> min_s)
                       else None)))"

datatype claim_result = Granted real sh_db | Use_fallback sh_error | Budget_exhausted

text \<open>
  \<open>_acquire_with_retry\<close>: the outcome, with the transactions run and the sleeps taken. An exception
  of the database and the exhausted budget both leave the loop.
\<close>

function claim_loop ::
  "int option \<Rightarrow> string \<Rightarrow> real \<Rightarrow> (nat \<Rightarrow> claim_env) \<Rightarrow> nat \<Rightarrow> nat \<Rightarrow> nat
     \<Rightarrow> claim_result \<times> nat \<times> real list" where
  "claim_loop uid src min_s env n cooldown_sleeps attempts =
     (case claim_transaction uid src min_s (env n) (attempts + 1) of
        Failed err \<Rightarrow> (Use_fallback err, Suc n, [])
      | Cooling w \<Rightarrow>
          (if cooldown_sleeps = 0
           then (let (r, k, ss) = claim_loop uid src min_s env (Suc n) 1 attempts in (r, k, w # ss))
           else (Budget_exhausted, Suc n, []))
      | Claimed t db' \<Rightarrow> (Granted t db', Suc n, [])
      | Missed (Some w) \<Rightarrow>
          (if attempts + 1 < 2
           then (let (r, k, ss) = claim_loop uid src min_s env (Suc n) cooldown_sleeps (attempts + 1)
                 in (r, k, w # ss))
           else (Budget_exhausted, Suc n, []))
      | Missed None \<Rightarrow> (Budget_exhausted, Suc n, []))"
  by pat_completeness auto
termination
  by (relation "measure (\<lambda>(_, _, _, _, _, c, a). (1 - c) + (2 - a))") auto

text \<open>
  \<open>PersistentSourceRateLimiter.acquire\<close>: whatever the loop raises ends in the fallback limiter, or
  in a sleep of the minimum interval when there is none.
\<close>

datatype acquire_outcome = By_slot real | By_bucket bucket real | By_sleep real

definition persistent_acquire ::
  "int option \<Rightarrow> string \<Rightarrow> real \<Rightarrow> (nat \<Rightarrow> claim_env) \<Rightarrow> bucket option \<Rightarrow> real \<Rightarrow> real
     \<Rightarrow> acquire_outcome" where
  "persistent_acquire uid src min_s env fallback now over =
     (case fst (claim_loop uid src min_s env 0 0 0) of
        Granted t _ \<Rightarrow> By_slot t
      | _ \<Rightarrow> (case fallback of
               Some b \<Rightarrow> (case bucket_acquire b now over of (b', t) \<Rightarrow> By_bucket b' t)
             | None \<Rightarrow> By_sleep min_s))"

declare claim_loop.simps [simp del]

section \<open>The slot as an interface\<close>






definition stored_stamp :: "source_key \<Rightarrow> sh_db \<Rightarrow> real option" where
  "stored_stamp k db = (case sh_rows db k of None \<Rightarrow> None | Some r \<Rightarrow> hr_last r)"



lemma stored_stamp_put [store_simps]:
  "stored_stamp k (db\<lparr>sh_rows := (sh_rows db)(j \<mapsto> r)\<rparr>) = (if k = j then hr_last r else stored_stamp k db)"
  by (simp add: stored_stamp_def)







section \<open>The loop\<close>

lemma claim_transaction_Claimed:
  "claim_transaction uid src m e a = Claimed t db' \<Longrightarrow>
   claim_source_slot_v1 (ce_db e) uid src m (ce_now e) = Inr (Some t, db')
   \<and> \<not> fst (is_in_cooldown (ce_db e) True uid src (ce_clock e))"
  unfolding claim_transaction_def is_in_cooldown_def Let_def
  by (auto split: if_split_asm option.splits sum.split_asm prod.split_asm)

lemma claim_transaction_Cooling:
  "claim_transaction uid src m e a = Cooling w \<Longrightarrow> 0 < w"
  unfolding claim_transaction_def Let_def
  by (auto split: if_split_asm option.split_asm sum.split_asm prod.split_asm)

lemma claim_transaction_Missed:
  "claim_transaction uid src m e a = Missed (Some w) \<Longrightarrow> 0 \<le> m \<Longrightarrow> 0 \<le> w"
  unfolding claim_transaction_def Let_def
  by (auto split: if_split_asm option.split_asm sum.split_asm prod.split_asm)

lemma claim_loop_run:
  "claim_loop uid src m env n cs a = (r, k, ss) \<Longrightarrow> 0 \<le> m \<Longrightarrow> a \<le> 1 \<Longrightarrow>
   k \<le> n + 1 + (1 - cs) + (1 - a) \<and> k = n + 1 + length ss \<and> (\<forall>w \<in> set ss. 0 \<le> w)
   \<and> (\<forall>t db'. r = Granted t db' \<longrightarrow> (\<exists>i. claim_transaction uid src m (env (k - 1)) i = Claimed t db'))"
proof (induction uid src m env n cs a arbitrary: r k ss rule: claim_loop.induct)
  case (1 uid src m env n cs a)
  note eq = 1(3) [unfolded claim_loop.simps [of uid src m env n cs a]]
  show ?case
  proof (cases "claim_transaction uid src m (env n) (a + 1)")
    case (Cooling w)
    show ?thesis
    proof (cases "cs = 0")
      case True
      obtain r1 k1 ss1 where rec: "claim_loop uid src m env (Suc n) 1 a = (r1, k1, ss1)"
        by (metis prod_cases3)
      have "r = r1" "k = k1" "ss = w # ss1" using eq Cooling True rec by auto
      moreover note 1(1) [OF Cooling True rec "1.prems"(2,3)]
      moreover have "0 < w" using Cooling by (rule claim_transaction_Cooling)
      ultimately show ?thesis using True by auto
    qed (use eq Cooling in auto)
  next
    case (Claimed t db')
    then have "r = Granted t db'" "k = Suc n" "ss = []" using eq by auto
    with Claimed show ?thesis by auto
  next
    case (Missed ow)
    show ?thesis
    proof (cases "\<exists>w. ow = Some w \<and> a + 1 < 2")
      case True
      then obtain w where w: "ow = Some w" "a + 1 < 2" by blast
      obtain r1 k1 ss1 where rec: "claim_loop uid src m env (Suc n) cs (a + 1) = (r1, k1, ss1)"
        by (metis prod_cases3)
      have "r = r1" "k = k1" "ss = w # ss1" using eq Missed w rec by auto
      moreover have "a + 1 \<le> 1" using w by simp
      note 1(2) [OF Missed w(1) w(2) rec "1.prems"(2) this]
      moreover have "0 \<le> w" using Missed w "1.prems"(2) claim_transaction_Missed by blast
      ultimately show ?thesis using w by auto
    next
      case False
      then show ?thesis using eq Missed by (cases ow) auto
    qed
  next
    case (Failed err)
    then show ?thesis using eq by auto
  qed
qed

section \<open>Properties\<close>

text \<open>
  The token bucket never grants more than its burst (at least one) plus what it refills: the
  number of grants from the i-th to the j-th is at most that over the time between them, whatever
  the arrival times and however long the sleeps overrun.
\<close>

lemma bucket_rate_bound:
  assumes "bucket_init rate burst rpm t0 = Some b" and "bucket_schedule b xs"
    and "i \<le> j" and "j < length (bucket_grants b xs)"
  shows "real (j - i + 1)
    \<le> max 1 (real burst) + bk_rate b * (bucket_grants b xs ! j - bucket_grants b xs ! i)"
  using bucket_window [OF bucket_init_ok [OF assms(1)] assms(2,3,4)] assms(1)
  by (auto simp: bucket_init_def Let_def split: if_splits)

text \<open>
  A worker's loop for the shared slot always ends, after at most three transactions and two
  sleeps of non-negative length, whatever the other workers and the clocks do; and when it ends
  with a grant, its last transaction found no active cooldown and won the claim at that time.
\<close>

lemma claim_loop_bounded:
  assumes "claim_loop uid src min_s env 0 0 0 = (r, n, sleeps)" and "0 \<le> min_s"
  shows "1 \<le> n \<and> n \<le> 3 \<and> length sleeps < n \<and> (\<forall>w \<in> set sleeps. 0 \<le> w)
    \<and> (\<forall>t db'. r = Granted t db' \<longrightarrow>
         claim_source_slot_v1 (ce_db (env (n - 1))) uid src min_s (ce_now (env (n - 1))) = Inr (Some t, db')
         \<and> \<not> fst (is_in_cooldown (ce_db (env (n - 1))) True uid src (ce_clock (env (n - 1)))))"
  using claim_loop_run [OF assms] by (auto dest: claim_transaction_Claimed)



lemma update_health_row:
  assumes "sh_runtime db" and "sh_rows db (uid, src) = Some r"
    and "status \<in> {''ok'', ''rate_limit'', ''error'', ''reset''}"
  shows "\<exists>db'. update_source_health_v1 db uid src now status c = Inr db' \<and> sh_runtime db'
    \<and> sh_rows db' (uid, src) = Some (r\<lparr>
        hr_last := (if status = ''reset'' then hr_last r else Some now),
        hr_status := Some (if status = ''reset'' then ''ok'' else status),
        hr_cooldown := (if status \<in> {''ok'', ''reset''} then None
                        else if status = ''rate_limit'' then c else hr_cooldown r),
        hr_failures := (if status = ''error'' then hr_failures r + 1
                        else if status \<in> {''ok'', ''reset''} then 0 else hr_failures r)\<rparr>)"
  using assms by (simp add: update_source_health_v1_def Let_def)

text \<open>
  A rate-limit answer puts the source into cooldown until exactly the announced time (an hour
  when none is announced): before it every reader reports the cooldown and a worker's transaction
  takes no slot but waits for the rest, after it the row is reported stale, never as a live
  cooldown. The next success ends both reports.
\<close>

lemma cooldown_reports:
  fixes now :: real and retry :: "int option"
  assumes "sh_runtime db" and "sh_rows db (uid, src) = Some row"
  defines "until \<equiv> now + (case retry of Some s \<Rightarrow> real_of_int s | None \<Rightarrow> 3600)"
    and "db1 \<equiv> update_last_request db True uid src now ''rate_limit'' retry"
  shows "is_in_cooldown db1 True uid src t = (if t < until then (True, Some until) else (False, None))
    \<and> sn_in_cooldown (health_snapshot db1 True uid src t) = (t < until)
    \<and> sn_stale (health_snapshot db1 True uid src t) = (until \<le> t)
    \<and> (t < until \<longrightarrow>
        claim_transaction uid src min_s
          \<lparr>ce_db = db1, ce_up = True, ce_now = t0, ce_clock = t, ce_clock2 = t2\<rparr> n = Cooling (until - t))
    \<and> (let s = health_snapshot (update_last_request db1 True uid src t1 ''ok'' None) True uid src t
       in \<not> sn_in_cooldown s \<and> \<not> sn_stale s)"
proof -
  let ?c = "Some (now + real_of_int (case retry of Some s \<Rightarrow> s | None \<Rightarrow> 60 * 60))"
  have until: "?c = Some until" by (simp add: until_def split: option.split)
  have rl: "''rate_limit'' \<in> {''ok'', ''rate_limit'', ''error'', ''reset''}" by simp
  obtain db2 where up: "update_source_health_v1 db uid src now ''rate_limit'' ?c = Inr db2"
    and row2: "sh_runtime db2" "sh_rows db2 (uid, src) = Some (row\<lparr>hr_last := Some now,
        hr_status := Some ''rate_limit'', hr_cooldown := Some until\<rparr>)"
    using update_health_row [OF assms(1,2) rl, of now ?c] until by auto
  have db1: "db1 = db2" by (simp add: db1_def update_last_request_def up Let_def del: of_int_eq_iff)
  have ok: "''ok'' \<in> {''ok'', ''rate_limit'', ''error'', ''reset''}" by simp
  obtain db3 where up3: "update_source_health_v1 db2 uid src t1 ''ok'' None = Inr db3"
    and row3: "sh_rows db3 (uid, src) = Some (row\<lparr>hr_last := Some t1, hr_status := Some ''ok'',
        hr_cooldown := None, hr_failures := 0\<rparr>)"
    using update_health_row [OF row2(1,2) ok, of t1 None] by auto
  have snap3: "update_last_request db2 True uid src t1 ''ok'' None = db3"
    by (simp add: update_last_request_def up3)
  show ?thesis
    unfolding db1 snap3
    by (auto simp: is_in_cooldown_def health_snapshot_def claim_transaction_def row2 row3 Let_def)
qed

text \<open>
  A reset of a stored source makes it healthy (status ok, no cooldown, no failures) but keeps
  its \<open>last_request_at\<close>, which the method's documentation says is stamped with the time of the
  reset; only for a source without a row is the time stored.
\<close>

lemma reset_clears_health:
  assumes "sh_runtime db" and "sh_user_ok db uid"
  shows "\<exists>r. sh_rows (limiter_reset db True uid src now) (uid, src) = Some r
    \<and> hr_status r = Some ''ok'' \<and> hr_cooldown r = None \<and> hr_failures r = 0
    \<and> hr_last r = (case sh_rows db (uid, src) of None \<Rightarrow> Some now | Some r0 \<Rightarrow> hr_last r0)"
  using assms
  by (cases "sh_rows db (uid, src)")
    (simp_all add: limiter_reset_def update_source_health_v1_def)

end
