(* ===== verification/Http_Limiter.thy ===== *)
theory Http_Limiter
  imports Prelude
begin

text \<open>
  The client key of the HTTP rate limiter (\<open>jarvis_common/http_rate_limiter.py\<close>). Addresses and
  networks are those of Python's \<open>ipaddress\<close> module: \<open>net_ops\<close> collects its parsers, its
  membership test and its printer, and every definition takes it as an argument.
\<close>

record ('ip, 'net) net_ops =
  parse_address :: "pystr \<Rightarrow> 'ip option"
  parse_network :: "pystr \<Rightarrow> 'net option"
  in_network :: "'ip \<Rightarrow> 'net \<Rightarrow> bool"
  show_address :: "'ip \<Rightarrow> pystr"

record limiter_settings =
  ls_cidrs :: "pystr list"
  ls_trust_cf :: bool

text \<open>
  The raw peer of the connection as the stash middleware left it in the ASGI scope: a sequence,
  whose elements are strings (\<open>Some\<close>) or something else, or no sequence at all.
\<close>

datatype raw_peer = Peer_seq "pystr option list" | Peer_other

datatype asgi_scope = No_scope | Bad_scope | Scope "raw_peer option"

record http_request =
  rq_scope :: asgi_scope
  rq_client_host :: "pystr option"
  rq_headers :: "string \<Rightarrow> pystr option"
  rq_user :: "int option"

definition default_proxy_cidrs :: "pystr list" where
  "default_proxy_cidrs = [codes ''127.0.0.0/8'']"

text \<open>\<open>None\<close>: \<open>ip_network\<close> rejects an entry and the import fails.\<close>

fun parse_all :: "('a \<Rightarrow> 'b option) \<Rightarrow> 'a list \<Rightarrow> 'b list option" where
  "parse_all f [] = Some []"
| "parse_all f (x # xs) =
     (case f x of None \<Rightarrow> None
      | Some y \<Rightarrow> (case parse_all f xs of None \<Rightarrow> None | Some ys \<Rightarrow> Some (y # ys)))"

definition build_trusted_proxies ::
  "('ip, 'net) net_ops \<Rightarrow> limiter_settings \<Rightarrow> 'net list option" where
  "build_trusted_proxies ops s =
     (let cidrs = (if ls_cidrs s \<noteq> [] then ls_cidrs s else default_proxy_cidrs)
      in parse_all (parse_network ops) (filter (\<lambda>c. c \<noteq> []) (map py_strip cidrs)))"

definition is_trusted :: "('ip, 'net) net_ops \<Rightarrow> 'net list \<Rightarrow> 'ip \<Rightarrow> bool" where
  "is_trusted ops nets a \<longleftrightarrow> list_ex (in_network ops a) nets"

definition double_peer :: "('ip, 'net) net_ops \<Rightarrow> http_request \<Rightarrow> 'ip option" where
  "double_peer ops rq = (case rq_client_host rq of None \<Rightarrow> None | Some h \<Rightarrow> parse_address ops h)"

definition stashed_raw_peer :: "('ip, 'net) net_ops \<Rightarrow> asgi_scope \<Rightarrow> 'ip option" where
  "stashed_raw_peer ops sc =
     (case sc of
        Scope (Some (Peer_seq (Some h # _))) \<Rightarrow> parse_address ops h
      | _ \<Rightarrow> None)"

definition transport_peer :: "('ip, 'net) net_ops \<Rightarrow> http_request \<Rightarrow> 'ip option" where
  "transport_peer ops rq =
     (if rq_scope rq = No_scope then double_peer ops rq else stashed_raw_peer ops (rq_scope rq))"

definition trusted_cf_ip ::
  "('ip, 'net) net_ops \<Rightarrow> limiter_settings \<Rightarrow> http_request \<Rightarrow> pystr option" where
  "trusted_cf_ip ops s rq =
     (if \<not> ls_trust_cf s \<or> rq_headers rq ''X-Jarvis-CF-Ingress'' \<noteq> Some (codes ''1'') then None
      else case rq_headers rq ''CF-Connecting-IP'' of
        None \<Rightarrow> None
      | Some cf \<Rightarrow>
          (if cf = [] then None
           else if parse_address ops (py_strip cf) \<noteq> None then Some (py_strip cf) else None))"

text \<open>The walk over the hops from the right.\<close>

fun xff_walk :: "('ip, 'net) net_ops \<Rightarrow> 'net list \<Rightarrow> pystr \<Rightarrow> pystr list \<Rightarrow> pystr" where
  "xff_walk ops nets fallback [] = fallback"
| "xff_walk ops nets fallback (hop # hops) =
     (case parse_address ops hop of
        None \<Rightarrow> fallback
      | Some ip \<Rightarrow> (if \<not> is_trusted ops nets ip then hop else xff_walk ops nets fallback hops))"

definition xff_hops :: "pystr \<Rightarrow> pystr list" where
  "xff_hops xff = filter (\<lambda>h. h \<noteq> []) (map py_strip (py_split 44 xff))"

definition xff_client_ip ::
  "('ip, 'net) net_ops \<Rightarrow> 'net list \<Rightarrow> http_request \<Rightarrow> pystr \<Rightarrow> pystr" where
  "xff_client_ip ops nets rq fallback =
     (case rq_headers rq ''X-Forwarded-For'' of
        None \<Rightarrow> fallback
      | Some xff \<Rightarrow> (if xff = [] then fallback else xff_walk ops nets fallback (rev (xff_hops xff))))"

definition real_ip ::
  "('ip, 'net) net_ops \<Rightarrow> limiter_settings \<Rightarrow> 'net list \<Rightarrow> http_request \<Rightarrow> pystr" where
  "real_ip ops s nets rq =
     (case transport_peer ops rq of
        None \<Rightarrow> codes ''unknown''
      | Some peer \<Rightarrow>
          (if \<not> is_trusted ops nets peer then show_address ops peer
           else case trusted_cf_ip ops s rq of
             Some cf \<Rightarrow> cf
           | None \<Rightarrow> xff_client_ip ops nets rq (show_address ops peer)))"

datatype limit_key = User_key int | Ip_key pystr

definition user_or_ip_key ::
  "('ip, 'net) net_ops \<Rightarrow> limiter_settings \<Rightarrow> 'net list \<Rightarrow> http_request \<Rightarrow> limit_key" where
  "user_or_ip_key ops s nets rq =
     (case rq_user rq of Some u \<Rightarrow> User_key u | None \<Rightarrow> Ip_key (real_ip ops s nets rq))"

section \<open>What a client can influence\<close>

text \<open>The hop that ends the walk: malformed, or outside the trusted networks.\<close>

definition decisive :: "('ip, 'net) net_ops \<Rightarrow> 'net list \<Rightarrow> pystr \<Rightarrow> bool" where
  "decisive ops nets hop = (case parse_address ops hop of None \<Rightarrow> True | Some ip \<Rightarrow> \<not> is_trusted ops nets ip)"

lemma xff_walk_decided:
  "list_ex (decisive ops nets) hs \<Longrightarrow> xff_walk ops nets fb (hs @ rest) = xff_walk ops nets fb hs"
  by (induction hs) (auto simp: decisive_def split: option.splits)

lemma xff_walk_trusted_only:
  "\<not> list_ex (decisive ops nets) hs \<Longrightarrow> xff_walk ops nets fb hs = fb"
  by (induction hs) (auto simp: decisive_def split: option.splits)

lemma xff_walk_cases:
  "xff_walk ops nets fb hs = fb
   \<or> (\<exists>ip. parse_address ops (xff_walk ops nets fb hs) = Some ip \<and> \<not> is_trusted ops nets ip)"
  by (induction hs) (auto split: option.splits)

lemma xff_hops_append: "xff_hops (p @ 44 # q) = xff_hops p @ xff_hops q"
  by (simp add: xff_hops_def py_split_append)

text \<open>
  C25: a client cannot choose its rate-limit key by forging X-Forwarded-For entries. Whatever it
  writes to the left of what the proxies append, the key stays the same as soon as the appended
  part holds one hop that is malformed or outside the trusted networks.
\<close>

theorem xff_prepend_immune:
  assumes "rq_headers rq ''X-Forwarded-For'' = Some q" and "list_ex (decisive ops nets) (xff_hops q)"
  shows "xff_client_ip ops nets (rq\<lparr>rq_headers := (rq_headers rq)(''X-Forwarded-For'' \<mapsto> forged @ 44 # q)\<rparr>) fb
       = xff_client_ip ops nets rq fb
    \<and> user_or_ip_key ops s nets (rq\<lparr>rq_headers := (rq_headers rq)(''X-Forwarded-For'' \<mapsto> forged @ 44 # q)\<rparr>)
       = user_or_ip_key ops s nets rq"
proof -
  let ?rq = "rq\<lparr>rq_headers := (rq_headers rq)(''X-Forwarded-For'' \<mapsto> forged @ 44 # q)\<rparr>"
  have "q \<noteq> []" using assms(2) by (auto simp: xff_hops_def py_strip_def)
  then have xff: "xff_client_ip ops nets ?rq f = xff_client_ip ops nets rq f" for f
    using assms by (simp add: xff_client_ip_def xff_hops_append xff_walk_decided list_ex_iff)
  moreover have "trusted_cf_ip ops s ?rq = trusted_cf_ip ops s rq" by (simp add: trusted_cf_ip_def)
  moreover have "transport_peer ops ?rq = transport_peer ops rq"
    by (simp add: transport_peer_def double_peer_def)
  ultimately show ?thesis by (simp add: user_or_ip_key_def real_ip_def split: option.split)
qed

text \<open>A toy address family for the instances below: an address is a one-character name.\<close>

definition letter_ops :: "(nat, nat) net_ops" where
  "letter_ops = \<lparr>parse_address = (\<lambda>s. case s of [c] \<Rightarrow> Some c | _ \<Rightarrow> None),
     parse_network = (\<lambda>s. case s of [c] \<Rightarrow> Some c | _ \<Rightarrow> None),
     in_network = (=), show_address = (\<lambda>c. [c])\<rparr>"

definition letter_request :: "string \<Rightarrow> string \<Rightarrow> http_request" where
  "letter_request peer xff = \<lparr>rq_scope = Scope (Some (Peer_seq [Some (codes peer)])),
     rq_client_host = None, rq_headers = [''X-Forwarded-For'' \<mapsto> codes xff], rq_user = None\<rparr>"

theorem xff_prepend_immune_witness:
  "xff_client_ip letter_ops [112] ((letter_request ''p'' ''c, p'')
       \<lparr>rq_headers := (rq_headers (letter_request ''p'' ''c, p''))(''X-Forwarded-For'' \<mapsto> codes ''v'' @ 44 # codes ''c, p'')\<rparr>) (codes ''p'')
   = xff_client_ip letter_ops [112] (letter_request ''p'' ''c, p'') (codes ''p'')"
  using xff_prepend_immune [where rq = "letter_request ''p'' ''c, p''" and q = "codes ''c, p''"
      and ops = letter_ops and nets = "[112]" and forged = "codes ''v''" and fb = "codes ''p''"]
  by (simp add: letter_request_def letter_ops_def xff_hops_def codes_def py_strip_def py_isspace_def
      decisive_def is_trusted_def)

text \<open>
  When the connection does not come from a trusted proxy, no header can influence the key of
  an unauthenticated request: it is the peer's own address, or \<open>unknown\<close> when the stashed peer is
  missing or malformed.
\<close>

lemma untrusted_peer_headers_ignored:
  assumes "\<forall>peer. transport_peer ops rq = Some peer \<longrightarrow> \<not> is_trusted ops nets peer"
  shows "real_ip ops s nets (rq\<lparr>rq_headers := h\<rparr>)
    = (case transport_peer ops rq of None \<Rightarrow> codes ''unknown'' | Some peer \<Rightarrow> show_address ops peer)"
proof -
  have "transport_peer ops (rq\<lparr>rq_headers := h\<rparr>) = transport_peer ops rq"
    by (simp add: transport_peer_def double_peer_def)
  then show ?thesis using assms by (auto simp: real_ip_def split: option.split)
qed

text \<open>
  An arbitrary header string never becomes a rate-limit key: the key of an unauthenticated
  request is \<open>unknown\<close>, the printed peer address, or a text that parses as an address, and then
  either Cloudflare trust is on or the address is outside the trusted networks.
\<close>

lemma rate_key_is_address:
  "real_ip ops s nets rq = codes ''unknown''
   \<or> (\<exists>peer. transport_peer ops rq = Some peer \<and> real_ip ops s nets rq = show_address ops peer)
   \<or> (\<exists>ip. parse_address ops (real_ip ops s nets rq) = Some ip \<and> (ls_trust_cf s \<or> \<not> is_trusted ops nets ip))"
proof (cases "transport_peer ops rq")
  case (Some peer)
  show ?thesis
  proof (cases "trusted_cf_ip ops s rq")
    case None
    then show ?thesis
      using Some xff_walk_cases [of ops nets "show_address ops peer"]
      by (auto simp: real_ip_def xff_client_ip_def split: option.split)
  next
    case cf: (Some c)
    then have "ls_trust_cf s" "\<exists>ip. parse_address ops c = Some ip"
      by (auto simp: trusted_cf_ip_def split: if_splits option.splits)
    then show ?thesis using Some cf by (auto simp: real_ip_def)
  qed
qed (simp add: real_ip_def)

end
