(* ===== verification/Text_Windows.thy ===== *)
theory Text_Windows
  imports Prelude
begin

text \<open>
  Grouping of ordered text chunks into windows of a character budget
  (\<open>jarvis_common/text_windows.py\<close>), which the map-reduce summaries feed to the model.
\<close>

text \<open>\<open>_HEADING_RE.match\<close>: two hash signs and a white-space character.\<close>

definition is_heading :: "pystr \<Rightarrow> bool" where
  "is_heading s = (case s of a # b # c # _ \<Rightarrow> a = 35 \<and> b = 35 \<and> py_isspace c | _ \<Rightarrow> False)"

definition window_len :: "pystr list \<Rightarrow> nat" where
  "window_len items = sum_list (map length items) + max (length items - 1) 0"

text \<open>The search from \<open>len(current) - 1\<close> down to 1, with default 0.\<close>

fun heading_from :: "pystr list \<Rightarrow> nat \<Rightarrow> nat" where
  "heading_from current 0 = 0"
| "heading_from current (Suc i) = (if is_heading (current ! Suc i) then Suc i else heading_from current i)"

definition heading_at :: "pystr list \<Rightarrow> nat" where
  "heading_at current = heading_from current (length current - 1)"

record window_state =
  ws_windows :: "pystr list list"
  ws_current :: "pystr list"
  ws_len :: nat

text \<open>One pass of the loop.\<close>

definition window_step :: "nat \<Rightarrow> window_state \<Rightarrow> pystr \<Rightarrow> window_state" where
  "window_step max_chars st text =
     (let current = ws_current st;
          extra = length text + (if current \<noteq> [] then 1 else 0);
          st1 =
            (if current \<noteq> [] \<and> ws_len st + extra > max_chars then
               (let h = (if is_heading text then 0 else heading_at current);
                    carry = (if h > 0 then drop h current else []);
                    kept = (if h > 0 then take h current else current);
                    windows = ws_windows st @ [kept];
                    extra' = length text + (if carry \<noteq> [] then 1 else 0)
                in if carry \<noteq> [] \<and> window_len carry + extra' > max_chars
                   then \<lparr>ws_windows = windows @ [carry], ws_current = [], ws_len = 0\<rparr>
                   else \<lparr>ws_windows = windows, ws_current = carry, ws_len = window_len carry\<rparr>)
             else st);
          extra1 = length text + (if ws_current st1 \<noteq> [] then 1 else 0)
      in st1\<lparr>ws_current := ws_current st1 @ [text], ws_len := ws_len st1 + extra1\<rparr>)"

text \<open>\<open>None\<close> is the \<open>ValueError\<close> of a budget that is not positive.\<close>

definition chunk_windows :: "pystr list \<Rightarrow> int \<Rightarrow> pystr list list option" where
  "chunk_windows chunks max_chars =
     (if max_chars \<le> 0 then None
      else let st = foldl (window_step (nat max_chars))
                      \<lparr>ws_windows = [], ws_current = [], ws_len = 0\<rparr> chunks
           in Some (if ws_current st \<noteq> [] then ws_windows st @ [ws_current st] else ws_windows st))"

section \<open>The loop invariant\<close>

definition window_fits :: "nat \<Rightarrow> pystr list \<Rightarrow> bool" where
  "window_fits m w \<longleftrightarrow> window_len w \<le> m \<or> length w \<le> 1"

definition window_inv :: "nat \<Rightarrow> pystr list \<Rightarrow> window_state \<Rightarrow> bool" where
  "window_inv m seen st \<longleftrightarrow> concat (ws_windows st) @ ws_current st = seen
     \<and> ws_len st = window_len (ws_current st) \<and> window_fits m (ws_current st)
     \<and> (\<forall>w \<in> set (ws_windows st). w \<noteq> [] \<and> window_fits m w)"

lemma window_len_simps [simp]:
  "window_len [] = 0" "window_len [x] = length x"
  by (simp_all add: window_len_def)

lemma window_len_append:
  "window_len (xs @ ys) = window_len xs + window_len ys + (if xs \<noteq> [] \<and> ys \<noteq> [] then 1 else 0)"
  by (cases xs; cases ys) (simp_all add: window_len_def)

lemma window_len_split: "window_len (take n xs) \<le> window_len xs" "window_len (drop n xs) \<le> window_len xs"
  using window_len_append [of "take n xs" "drop n xs"] by simp_all

lemma heading_from_le: "heading_from xs i \<le> i"
  by (induction i) auto

lemma heading_at_less: "xs \<noteq> [] \<Longrightarrow> heading_at xs < length xs"
  using heading_from_le [of xs "length xs - 1"] by (cases xs) (auto simp: heading_at_def)

lemma window_fits_take: "window_fits m xs \<Longrightarrow> window_fits m (take n xs)"
  and window_fits_drop: "window_fits m xs \<Longrightarrow> window_fits m (drop n xs)"
  using window_len_split [of n xs] by (auto simp: window_fits_def)

lemma window_step_inv [inv_intros]:
  assumes "window_inv m seen st"
  shows "window_inv m (seen @ [t]) (window_step m st t)"
proof -
  let ?cur = "ws_current st"
  have inv: "concat (ws_windows st) @ ?cur = seen" "ws_len st = window_len ?cur"
    "window_fits m ?cur" "\<forall>w \<in> set (ws_windows st). w \<noteq> [] \<and> window_fits m w"
    using assms by (auto simp: window_inv_def)
  have app: "window_fits m (c @ [t])"
    if "c = [] \<or> window_len c + (length t + (if c \<noteq> [] then 1 else 0)) \<le> m" for c
    using that by (auto simp: window_fits_def window_len_append)
  show ?thesis
  proof (cases "?cur \<noteq> [] \<and> ws_len st + (length t + (if ?cur \<noteq> [] then 1 else 0)) > m")
    case False
    then have "window_step m st t = st\<lparr>ws_current := ?cur @ [t],
        ws_len := ws_len st + (length t + (if ?cur \<noteq> [] then 1 else 0))\<rparr>"
      unfolding window_step_def Let_def if_not_P [OF False] by simp
    then show ?thesis
      using False inv app [of ?cur] by (auto simp: window_inv_def window_len_append)
  next
    case True
    let ?h = "if is_heading t then 0 else heading_at ?cur"
    let ?carry = "if ?h > 0 then drop ?h ?cur else []"
    let ?kept = "if ?h > 0 then take ?h ?cur else ?cur"
    have kc: "?kept @ ?carry = ?cur" "?kept \<noteq> []" "window_fits m ?kept" "window_fits m ?carry"
      using True heading_at_less [of ?cur] window_fits_take [OF inv(3)] window_fits_drop [OF inv(3)] inv(3)
      by (auto simp: window_fits_def [of m "[]"])
    have split_off: "window_inv m (seen @ [t]) \<lparr>ws_windows = (ws_windows st @ [kept]) @ [carry],
          ws_current = [t], ws_len = length t\<rparr>"
      if "kept @ carry = ?cur" "kept \<noteq> []" "carry \<noteq> []" "window_fits m kept" "window_fits m carry" for kept carry
      using that inv app [of "[]"] by (auto simp: window_inv_def)
    have move_on: "window_inv m (seen @ [t]) \<lparr>ws_windows = ws_windows st @ [kept],
          ws_current = carry @ [t], ws_len = window_len carry + (length t + (if carry \<noteq> [] then 1 else 0))\<rparr>"
      if "kept @ carry = ?cur" "kept \<noteq> []" "window_fits m kept" "window_fits m carry"
        "\<not> (carry \<noteq> [] \<and> window_len carry + (length t + (if carry \<noteq> [] then 1 else 0)) > m)" for kept carry
      using that inv app [of carry] by (auto simp: window_inv_def window_len_append)
    show ?thesis
    proof (cases "?carry \<noteq> [] \<and> window_len ?carry + (length t + (if ?carry \<noteq> [] then 1 else 0)) > m")
      case T2: True
      have "window_step m st t = \<lparr>ws_windows = (ws_windows st @ [?kept]) @ [?carry],
          ws_current = [t], ws_len = length t\<rparr>"
        unfolding window_step_def Let_def if_P [OF True] if_P [OF T2] by simp
      also have "window_inv m (seen @ [t]) \<dots>"
        by (rule split_off) (use kc T2 in auto)
      finally show ?thesis .
    next
      case F2: False
      have "window_step m st t = \<lparr>ws_windows = ws_windows st @ [?kept],
          ws_current = ?carry @ [t],
          ws_len = window_len ?carry + (length t + (if ?carry \<noteq> [] then 1 else 0))\<rparr>"
        unfolding window_step_def Let_def if_P [OF True] if_not_P [OF F2] by simp
      also have "window_inv m (seen @ [t]) \<dots>"
        by (rule move_on) (fact kc F2)+
      finally show ?thesis .
    qed
  qed
qed

lemma window_fold_inv:
  "window_inv m seen st \<Longrightarrow> window_inv m (seen @ ts) (foldl (window_step m) st ts)"
proof (induction ts arbitrary: seen st)
  case (Cons t ts)
  then show ?case using window_step_inv [of m seen st t] by fastforce
qed simp

text \<open>
  Windowing loses, duplicates and reorders nothing, never yields an empty window, and every
  window is within the budget (joiners counted) unless it is a single chunk that alone exceeds
  it. The call fails exactly when the budget is not positive.
\<close>

lemma chunk_windows_partition:
  "case chunk_windows chunks m of
     None \<Rightarrow> m \<le> 0
   | Some ws \<Rightarrow> 0 < m \<and> concat ws = chunks
       \<and> (\<forall>w \<in> set ws. w \<noteq> [] \<and> (int (window_len w) \<le> m \<or> length w = 1))"
proof (cases "m \<le> 0")
  case False
  let ?st = "foldl (window_step (nat m)) \<lparr>ws_windows = [], ws_current = [], ws_len = 0\<rparr> chunks"
  have "window_inv (nat m) ([] @ chunks) ?st"
    by (rule window_fold_inv) (simp add: window_inv_def window_fits_def)
  then have inv: "concat (ws_windows ?st) @ ws_current ?st = chunks"
    "window_fits (nat m) (ws_current ?st)"
    "\<forall>w \<in> set (ws_windows ?st). w \<noteq> [] \<and> window_fits (nat m) w"
    by (auto simp: window_inv_def)
  have fits: "int (window_len w) \<le> m \<or> length w = 1" if "window_fits (nat m) w" "w \<noteq> []" for w
    using that False by (cases w) (auto simp: window_fits_def)
  show ?thesis
    using False inv fits by (auto simp: chunk_windows_def Let_def)
qed (simp add: chunk_windows_def)

end
