(* ===== verification/Telegram_Limit.thy ===== *)
theory Telegram_Limit
  imports Prelude
begin

text \<open>
  The per-command rate limiter of the Telegram bot (\<open>handlers/rate_limit.py\<close>). A key is the chat and
  the command; its time stamps live in a table that is pruned on every call and swept of idle
  keys on every accepted call. The table refines a history that forgets nothing, and the promised
  limits are proved of the history.
\<close>

record tg_limit =
  tl_max :: int
  tl_window :: int
  tl_cooldown :: int

type_synonym tg_store = "string \<Rightarrow> real list option"

datatype tg_decision = Allowed | Cooldown_denied int | Window_denied

definition max_horizon :: real where
  "max_horizon = 3600"

definition evict_idle_keys :: "real \<Rightarrow> string \<Rightarrow> tg_store \<Rightarrow> tg_store" where
  "evict_idle_keys now active ts =
     (\<lambda>k. case ts k of
        None \<Rightarrow> None
      | Some stamps \<Rightarrow>
          (if k = active \<or> stamps \<noteq> [] \<and> now - last stamps < max_horizon then Some stamps else None))"

definition tl_horizon :: "tg_limit \<Rightarrow> real" where
  "tl_horizon l = real_of_int (max (tl_window l) (tl_cooldown l))"

definition recent :: "real \<Rightarrow> real \<Rightarrow> real list \<Rightarrow> real list" where
  "recent now w ts = filter (\<lambda>t. now - t < w) ts"

text \<open>
  The decision and the table after it; \<open>defaultdict\<close> creates the key of a first call. An update
  without a chat bypasses the limiter and is not a call of this function.
\<close>

definition rate_limit_call :: "tg_limit \<Rightarrow> tg_store \<Rightarrow> string \<Rightarrow> real \<Rightarrow> tg_decision \<times> tg_store" where
  "rate_limit_call l ts k now =
     (let stamps = recent now (tl_horizon l) (case ts k of None \<Rightarrow> [] | Some s \<Rightarrow> s);
          ts1 = ts(k \<mapsto> stamps)
      in if tl_cooldown l \<noteq> 0 \<and> stamps \<noteq> [] \<and> now - last stamps < real_of_int (tl_cooldown l)
         then (let x = real_of_int (tl_cooldown l) - (now - last stamps)
               in (Cooldown_denied (if 0 \<le> x then \<lfloor>x\<rfloor> else \<lceil>x\<rceil>), ts1))
         else if int (length (recent now (real_of_int (tl_window l)) stamps)) \<ge> tl_max l
         then (Window_denied, ts1)
         else (Allowed, evict_idle_keys now k (ts(k \<mapsto> stamps @ [now]))))"

section \<open>The limiter that forgets nothing\<close>

definition log_call :: "tg_limit \<Rightarrow> (string \<Rightarrow> real list) \<Rightarrow> string \<Rightarrow> real \<Rightarrow> tg_decision \<times> (string \<Rightarrow> real list)" where
  "log_call l hist k now =
     (if tl_cooldown l \<noteq> 0 \<and> hist k \<noteq> [] \<and> now - last (hist k) < real_of_int (tl_cooldown l)
      then (Cooldown_denied \<lfloor>real_of_int (tl_cooldown l) - (now - last (hist k))\<rfloor>, hist)
      else if int (length (recent now (real_of_int (tl_window l)) (hist k))) \<ge> tl_max l
      then (Window_denied, hist)
      else (Allowed, hist(k := hist k @ [now])))"

text \<open>The runs of both over the same calls; the limits are those of the command in the key.\<close>

fun tg_run :: "(string \<Rightarrow> tg_limit) \<Rightarrow> tg_store \<Rightarrow> (string \<times> real) list \<Rightarrow> tg_decision list" where
  "tg_run limits ts [] = []"
| "tg_run limits ts ((k, now) # cs) = (let (d, ts') = rate_limit_call (limits k) ts k now in d # tg_run limits ts' cs)"

fun log_run ::
  "(string \<Rightarrow> tg_limit) \<Rightarrow> (string \<Rightarrow> real list) \<Rightarrow> (string \<times> real) list \<Rightarrow> tg_decision list \<times> (string \<Rightarrow> real list)" where
  "log_run limits hist [] = ([], hist)"
| "log_run limits hist ((k, now) # cs) =
     (let (d, hist') = log_call (limits k) hist k now; (ds, hist'') = log_run limits hist' cs in (d # ds, hist''))"

section \<open>Refinement\<close>

definition tg_stamps :: "tg_store \<Rightarrow> string \<Rightarrow> real list" where
  "tg_stamps ts k = (case ts k of None \<Rightarrow> [] | Some s \<Rightarrow> s)"

definition tg_rel :: "(string \<Rightarrow> tg_limit) \<Rightarrow> real \<Rightarrow> tg_store \<Rightarrow> (string \<Rightarrow> real list) \<Rightarrow> bool" where
  "tg_rel limits now ts hist \<longleftrightarrow>
     (\<forall>k. (\<forall>t \<ge> now. recent t (tl_horizon (limits k)) (tg_stamps ts k) = recent t (tl_horizon (limits k)) (hist k))
        \<and> sorted (tg_stamps ts k) \<and> sorted (hist k) \<and> (\<forall>t \<in> set (hist k). t \<le> now)
        \<and> (\<forall>t \<in> set (tg_stamps ts k). t \<le> now))"

lemma recent_simps [simp]:
  "recent now w [] = []" "recent now w (xs @ ys) = recent now w xs @ recent now w ys"
  by (simp_all add: recent_def)

lemma recent_recent: "t \<ge> now \<or> v \<le> w \<Longrightarrow> now \<le> t \<Longrightarrow> v \<le> w \<Longrightarrow> recent t v (recent now w ts) = recent t v ts"
  by (auto simp: recent_def intro: filter_cong)

lemma sorted_recent: "sorted ts \<Longrightarrow> sorted (recent now w ts)"
  by (simp add: recent_def sorted_wrt_filter)

lemma set_recent: "set (recent now w ts) \<subseteq> set ts"
  by (auto simp: recent_def)

lemma sorted_le_last: "sorted xs \<Longrightarrow> x \<in> set xs \<Longrightarrow> x \<le> last xs"
  by (induction xs rule: rev_induct) (auto simp: sorted_append)

text \<open>In a sorted list the newest stamp decides whether anything is recent.\<close>

lemma recent_last:
  assumes "sorted xs" and "xs \<noteq> []" and "now - last xs < w"
  shows "recent now w xs \<noteq> [] \<and> last (recent now w xs) = last xs"
proof -
  have "xs = butlast xs @ [last xs]" using assms(2) by simp
  then have "recent now w xs = recent now w (butlast xs) @ [last xs]"
    using assms(3) by (metis recent_simps(2) recent_def filter.simps)
  then show ?thesis by simp
qed

lemma recent_empty:
  assumes "sorted xs" and "xs \<noteq> []" and "\<not> now - last xs < w"
  shows "recent now w xs = []"
  using assms sorted_le_last [OF assms(1)] by (fastforce simp: recent_def filter_empty_conv)

lemma tg_relD:
  assumes "tg_rel limits now ts hist"
  shows "t \<ge> now \<Longrightarrow> recent t (tl_horizon (limits k)) (tg_stamps ts k) = recent t (tl_horizon (limits k)) (hist k)"
    and "sorted (tg_stamps ts k)" and "sorted (hist k)"
    and "\<And>t. t \<in> set (hist k) \<Longrightarrow> t \<le> now" and "\<And>t. t \<in> set (tg_stamps ts k) \<Longrightarrow> t \<le> now"
  using assms by (auto simp: tg_rel_def)

lemma tg_rel_later: "tg_rel limits now ts hist \<Longrightarrow> now \<le> now' \<Longrightarrow> tg_rel limits now' ts hist"
  unfolding tg_rel_def by (meson order_trans)

lemma tg_rel_prune:
  assumes "tg_rel limits now ts hist"
  shows "tg_rel limits now (ts(k \<mapsto> recent now (tl_horizon (limits k)) (tg_stamps ts k))) hist"
  unfolding tg_rel_def
proof (intro allI)
  fix j
  let ?s = "tg_stamps (ts(k \<mapsto> recent now (tl_horizon (limits k)) (tg_stamps ts k))) j"
  have s: "?s = (if j = k then recent now (tl_horizon (limits k)) (tg_stamps ts k) else tg_stamps ts j)"
    by (simp add: tg_stamps_def)
  show "(\<forall>t \<ge> now. recent t (tl_horizon (limits j)) ?s = recent t (tl_horizon (limits j)) (hist j))
      \<and> sorted ?s \<and> sorted (hist j) \<and> (\<forall>t \<in> set (hist j). t \<le> now) \<and> (\<forall>t \<in> set ?s. t \<le> now)"
    using tg_relD [OF assms, where k = j] set_recent [of now "tl_horizon (limits k)" "tg_stamps ts k"]
    by (auto simp: s recent_recent sorted_recent)
qed

lemma tg_rel_append:
  assumes "tg_rel limits now ts hist"
  shows "tg_rel limits now (ts(k \<mapsto> tg_stamps ts k @ [now])) (hist(k := hist k @ [now]))"
  unfolding tg_rel_def
proof (intro allI)
  fix j
  let ?s = "tg_stamps (ts(k \<mapsto> tg_stamps ts k @ [now])) j"
  have s: "?s = (if j = k then tg_stamps ts k @ [now] else tg_stamps ts j)"
    by (simp add: tg_stamps_def)
  show "(\<forall>t \<ge> now. recent t (tl_horizon (limits j)) ?s = recent t (tl_horizon (limits j)) ((hist(k := hist k @ [now])) j))
      \<and> sorted ?s \<and> sorted ((hist(k := hist k @ [now])) j)
      \<and> (\<forall>t \<in> set ((hist(k := hist k @ [now])) j). t \<le> now) \<and> (\<forall>t \<in> set ?s. t \<le> now)"
    using tg_relD [OF assms, where k = j] by (auto simp: s sorted_append)
qed

text \<open>The sweep forgets only stamps that no limit of at most an hour can still see.\<close>

lemma tg_rel_evict:
  assumes "tg_rel limits now ts hist" and "\<And>k. tl_horizon (limits k) \<le> max_horizon"
  shows "tg_rel limits now (evict_idle_keys now active ts) hist"
  unfolding tg_rel_def
proof (intro allI)
  fix j
  let ?s = "tg_stamps (evict_idle_keys now active ts) j"
  note rel = tg_relD [OF assms(1), where k = j]
  show "(\<forall>t \<ge> now. recent t (tl_horizon (limits j)) ?s = recent t (tl_horizon (limits j)) (hist j))
      \<and> sorted ?s \<and> sorted (hist j) \<and> (\<forall>t \<in> set (hist j). t \<le> now) \<and> (\<forall>t \<in> set ?s. t \<le> now)"
  proof (cases "?s = tg_stamps ts j")
    case True
    show ?thesis using rel by (auto simp: True)
  next
    case False
    then have s: "?s = []" and old: "tg_stamps ts j \<noteq> [] \<longrightarrow> \<not> now - last (tg_stamps ts j) < max_horizon"
      by (auto simp: evict_idle_keys_def tg_stamps_def split: option.splits if_splits)
    have "recent t (tl_horizon (limits j)) (tg_stamps ts j) = []" if "t \<ge> now" for t
    proof (cases "tg_stamps ts j = []")
      case False
      then have "\<not> t - last (tg_stamps ts j) < tl_horizon (limits j)"
        using old assms(2) [of j] that by auto
      with False show ?thesis using recent_empty [OF rel(2)] by blast
    qed simp
    then show ?thesis using rel by (auto simp: s)
  qed
qed

lemma recent_window: "v \<le> w \<Longrightarrow> recent now w xs = recent now w ys \<Longrightarrow> recent now v xs = recent now v ys"
  by (metis order_refl recent_recent)

lemma rate_limit_call_refines:
  assumes rel: "tg_rel limits now ts hist" and hor: "\<And>k. tl_horizon (limits k) \<le> max_horizon"
  shows "fst (rate_limit_call (limits k) ts k now) = fst (log_call (limits k) hist k now)
    \<and> tg_rel limits now (snd (rate_limit_call (limits k) ts k now)) (snd (log_call (limits k) hist k now))"
proof -
  let ?H = "tl_horizon (limits k)" and ?l = "limits k"
  let ?stamps = "recent now ?H (tg_stamps ts k)"
  let ?ts1 = "ts(k \<mapsto> ?stamps)"
  note D = tg_relD [OF rel, where k = k]
  have eq: "?stamps = recent now ?H (hist k)" using D(1) by simp
  have win: "recent now (real_of_int (tl_window ?l)) ?stamps = recent now (real_of_int (tl_window ?l)) (hist k)"
    unfolding eq by (rule recent_recent) (auto simp: tl_horizon_def)
  have cool: "(?stamps \<noteq> [] \<and> now - last ?stamps < real_of_int (tl_cooldown ?l))
      = (hist k \<noteq> [] \<and> now - last (hist k) < real_of_int (tl_cooldown ?l))
      \<and> (?stamps \<noteq> [] \<longrightarrow> last ?stamps = last (hist k))"
  proof (cases "hist k \<noteq> [] \<and> now - last (hist k) < ?H")
    case True
    then show ?thesis using recent_last [OF D(3), of now ?H] by (auto simp: eq)
  next
    case False
    then have "?stamps = []" using recent_empty [OF D(3), of now ?H] by (cases "hist k = []") (auto simp: eq)
    moreover have "real_of_int (tl_cooldown ?l) \<le> ?H" by (simp add: tl_horizon_def)
    ultimately show ?thesis using False by auto
  qed
  have rel1: "tg_rel limits now ?ts1 hist" by (rule tg_rel_prune [OF rel])
  have stamps1: "tg_stamps ?ts1 k = ?stamps" by (simp add: tg_stamps_def)
  have rel2: "tg_rel limits now (evict_idle_keys now k (ts(k \<mapsto> ?stamps @ [now]))) (hist(k := hist k @ [now]))"
    using tg_rel_evict [OF tg_rel_append [OF rel1, of k] hor] by (simp add: stamps1)
  show ?thesis
    unfolding rate_limit_call_def log_call_def tg_stamps_def [symmetric] Let_def
    using cool win rel1 rel2 by auto
qed

lemma tg_run_refines:
  "tg_rel limits now0 ts hist \<Longrightarrow> (\<And>k. tl_horizon (limits k) \<le> max_horizon) \<Longrightarrow>
   sorted (now0 # map snd cs) \<Longrightarrow> tg_run limits ts cs = fst (log_run limits hist cs)"
proof (induction cs arbitrary: now0 ts hist)
  case (Cons c cs)
  obtain k now where c: "c = (k, now)" by force
  have "tg_rel limits now ts hist" using Cons.prems c by (auto intro: tg_rel_later)
  note step = rate_limit_call_refines [OF this Cons.prems(2), of k]
  obtain d ts' where r: "rate_limit_call (limits k) ts k now = (d, ts')" by force
  obtain d' hist' where h: "log_call (limits k) hist k now = (d', hist')" by force
  have "tg_run limits ts' cs = fst (log_run limits hist' cs)"
    by (rule Cons.IH [of now]) (use step r h Cons.prems c in auto)
  then show ?case using step r h by (auto simp: c split_def Let_def)
qed simp

section \<open>The promised limits\<close>

text \<open>The accepted calls of a key in a run.\<close>

definition accepted :: "(string \<times> real) list \<Rightarrow> tg_decision list \<Rightarrow> string \<Rightarrow> real list" where
  "accepted cs ds k = map (snd \<circ> fst) (filter (\<lambda>((k', _), d). k' = k \<and> d = Allowed) (zip cs ds))"

definition hist_ok :: "tg_limit \<Rightarrow> real list \<Rightarrow> bool" where
  "hist_ok l ts \<longleftrightarrow> sorted ts
     \<and> (\<forall>i < length ts. int (length (recent (ts ! i) (real_of_int (tl_window l)) (take i ts))) < tl_max l)
     \<and> sorted_wrt (\<lambda>s t. tl_cooldown l \<noteq> 0 \<longrightarrow> s + real_of_int (tl_cooldown l) \<le> t) ts"

lemma hist_ok_append:
  assumes "hist_ok l ts" and "\<forall>t \<in> set ts. t \<le> now"
    and "\<not> (tl_cooldown l \<noteq> 0 \<and> ts \<noteq> [] \<and> now - last ts < real_of_int (tl_cooldown l))"
    and "int (length (recent now (real_of_int (tl_window l)) ts)) < tl_max l"
  shows "hist_ok l (ts @ [now])"
proof -
  have "int (length (recent ((ts @ [now]) ! i) (real_of_int (tl_window l)) (take i (ts @ [now])))) < tl_max l"
    if "i < length (ts @ [now])" for i
    using assms(1,4) that by (cases "i = length ts") (auto simp: hist_ok_def nth_append)
  moreover have "s + real_of_int (tl_cooldown l) \<le> now" if "s \<in> set ts" "tl_cooldown l \<noteq> 0" for s
    using assms(3) that sorted_le_last [of ts s] assms(1) by (auto simp: hist_ok_def)
  ultimately show ?thesis
    using assms(1,2) by (auto simp: hist_ok_def sorted_append sorted_wrt_append)
qed

lemma hist_ok_window:
  "hist_ok l ts \<Longrightarrow>
   int (length (filter (\<lambda>t. T - real_of_int (tl_window l) < t \<and> t \<le> T) ts)) \<le> max 0 (tl_max l)"
proof (induction ts rule: rev_induct)
  case (snoc x xs)
  have ok: "hist_ok l xs"
    unfolding hist_ok_def
  proof (intro conjI allI impI)
    fix i assume "i < length xs"
    moreover have "\<forall>i < length (xs @ [x]).
        int (length (recent ((xs @ [x]) ! i) (real_of_int (tl_window l)) (take i (xs @ [x])))) < tl_max l"
      using snoc.prems by (simp add: hist_ok_def)
    ultimately show "int (length (recent (xs ! i) (real_of_int (tl_window l)) (take i xs))) < tl_max l"
      by (auto simp: nth_append dest!: spec [where x = i])
  qed (use snoc.prems in \<open>auto simp: hist_ok_def sorted_append sorted_wrt_append\<close>)
  show ?case
  proof (cases "T - real_of_int (tl_window l) < x \<and> x \<le> T")
    case False
    then show ?thesis using snoc.IH [OF ok] by auto
  next
    case True
    have "length (filter (\<lambda>t. T - real_of_int (tl_window l) < t \<and> t \<le> T) xs)
        \<le> length (recent x (real_of_int (tl_window l)) xs)"
      unfolding recent_def length_filter_conv_card
      by (rule card_mono) (use True in auto)
    moreover have "int (length (recent x (real_of_int (tl_window l)) xs)) < tl_max l"
      using snoc.prems unfolding hist_ok_def by (force dest!: spec [where x = "length xs"])
    ultimately show ?thesis using True by simp
  qed
qed simp

lemma log_run_ok:
  "(\<And>k. hist_ok (limits k) (hist k)) \<Longrightarrow> (\<And>k. \<forall>t \<in> set (hist k). t \<le> now0) \<Longrightarrow> sorted (now0 # map snd cs) \<Longrightarrow>
   log_run limits hist cs = (ds, hist') \<Longrightarrow>
   hist_ok (limits k) (hist' k) \<and> hist' k = hist k @ accepted cs ds k"
proof (induction cs arbitrary: hist now0 ds)
  case (Cons c cs)
  obtain j now where c: "c = (j, now)" by force
  obtain d h1 where call: "log_call (limits j) hist j now = (d, h1)" by force
  obtain ds1 where rest: "log_run limits h1 cs = (ds1, hist')" and ds: "ds = d # ds1"
    using Cons.prems(4) call by (auto simp: c split: prod.splits)
  have le: "\<forall>t \<in> set (hist i). t \<le> now" for i
    using Cons.prems(2,3) c by fastforce
  have h1: "h1 = (if d = Allowed then hist(j := hist j @ [now]) else hist)"
    using call by (auto simp: log_call_def split: if_splits)
  have ok1: "hist_ok (limits i) (h1 i)" for i
  proof (cases "d = Allowed \<and> i = j")
    case True
    then have "hist_ok (limits j) (hist j @ [now])"
      using call Cons.prems(1) le by (intro hist_ok_append) (auto simp: log_call_def split: if_splits)
    with True h1 show ?thesis by simp
  next
    case False
    then show ?thesis using h1 Cons.prems(1) by auto
  qed
  have "hist_ok (limits k) (hist' k) \<and> hist' k = h1 k @ accepted cs ds1 k"
    by (rule Cons.IH [OF ok1 _ _ rest, where ?now0.0 = now]) (use h1 le Cons.prems(3) c in auto)
  then show ?case by (cases "d = Allowed"; cases "j = k") (simp_all add: h1 ds c accepted_def)
qed (simp add: accepted_def)

lemma tg_rel_init: "tg_rel limits now (\<lambda>_. None) (\<lambda>_. [])"
  by (simp add: tg_rel_def tg_stamps_def)

text \<open>
  Pruning and sweeping change no decision: for limits of at most an hour, the bot answers
  every sequence of calls exactly as a limiter that keeps every accepted call forever.
\<close>

lemma tg_store_refines_history:
  assumes "\<And>k. tl_horizon (limits k) \<le> max_horizon" and "sorted (map snd cs)"
  shows "tg_run limits (\<lambda>_. None) cs = fst (log_run limits (\<lambda>_. []) cs)"
proof (cases cs)
  case (Cons c cs')
  have "sorted (snd c # map snd cs)" using assms(2) Cons by auto
  then show ?thesis by (rule tg_run_refines [OF tg_rel_init assms(1)])
qed simp

text \<open>
  C37: however the calls of all chats and commands interleave, no window of the configured length
  holds more accepted calls of a key than its cap, and accepted calls of a command with a cooldown
  are at least the cooldown apart.
\<close>

theorem tg_limits_enforced:
  assumes "\<And>k. tl_horizon (limits k) \<le> max_horizon" and "sorted (map snd cs)"
  defines "acc \<equiv> accepted cs (tg_run limits (\<lambda>_. None) cs)"
  shows "int (length (filter (\<lambda>t. T - real_of_int (tl_window (limits k)) < t \<and> t \<le> T) (acc k)))
      \<le> max 0 (tl_max (limits k))
    \<and> (tl_cooldown (limits k) \<noteq> 0 \<longrightarrow>
        sorted_wrt (\<lambda>s t. s + real_of_int (tl_cooldown (limits k)) \<le> t) (acc k))"
proof -
  obtain ds hist' where run: "log_run limits (\<lambda>_. []) cs = (ds, hist')" by force
  have "sorted ((case cs of [] \<Rightarrow> 0 | c # _ \<Rightarrow> snd c) # map snd cs)"
    using assms(2) by (cases cs) auto
  then have "hist_ok (limits k) (hist' k) \<and> hist' k = [] @ accepted cs ds k"
    by (intro log_run_ok [OF _ _ _ run]) (auto simp: hist_ok_def)
  moreover have "tg_run limits (\<lambda>_. None) cs = ds"
  proof (cases cs)
    case (Cons c cs')
    have "sorted (snd c # map snd cs)" using assms(2) Cons by auto
    then show ?thesis using tg_run_refines [OF tg_rel_init assms(1)] run by fastforce
  qed (use run in simp)
  ultimately have "hist_ok (limits k) (acc k)" unfolding acc_def by (metis append_Nil)
  then show ?thesis using hist_ok_window [of "limits k" "acc k" T] by (auto simp: hist_ok_def)
qed

theorem tg_limits_enforced_witness:
  "int (length (filter (\<lambda>t. 100 - 60 < t \<and> t \<le> (100::real))
     (accepted [(''c'', 50), (''c'', 100)]
        (tg_run (\<lambda>_. \<lparr>tl_max = 1, tl_window = 60, tl_cooldown = 0\<rparr>) (\<lambda>_. None) [(''c'', 50), (''c'', 100)]) ''c'')))
   \<le> 1"
  using tg_limits_enforced [where limits = "\<lambda>_. \<lparr>tl_max = 1, tl_window = 60, tl_cooldown = 0\<rparr>"
      and cs = "[(''c'', 50), (''c'', 100)]" and k = "''c''" and T = 100]
  by (simp add: tl_horizon_def max_horizon_def)

end
