(* ===== verification/Maintenance.thy ===== *)
theory Maintenance
  imports Prelude
begin

text \<open>
  Restore maintenance and outbound quarantine (\<open>jarvis_common/maintenance.py\<close>): the markers a
  restore leaves on disk, the predicates that background work and network sinks consult, the
  validation of the quarantine record and the decision of the HTTP middleware. What the file system
  answers is a record, the clock an argument; JSON values and \<open>datetime.fromisoformat\<close> results are
  those of the standard library (the fields of an object are distinct), the latter as a parameter.
\<close>

section \<open>Markers\<close>

datatype json =
    J_null | J_bool bool | J_num real | J_str string | J_list "json list" | J_obj "(string \<times> json) list"

text \<open>
  \<open>fs_soft\<close> is the modification time of the soft marker, \<open>None\<close> when \<open>os.stat\<close> fails;
  \<open>fs_quarantine\<close> is \<open>os.path.lexists\<close>, \<open>fs_record\<close> what reading the record gives, \<open>None\<close> for an
  \<open>OSError\<close>, \<open>ValueError\<close> or \<open>TypeError\<close>; \<open>fs_rotated\<close> is the parsed secrets marker.
\<close>

record markers =
  fs_destructive :: bool
  fs_soft :: "real option"
  fs_quarantine :: bool
  fs_record :: "json option"
  fs_rotated :: "real option"

definition maintenance_active :: "markers \<Rightarrow> int \<Rightarrow> real \<Rightarrow> bool" where
  "maintenance_active fs max_age_s now =
     (if fs_destructive fs then True
      else case fs_soft fs of None \<Rightarrow> False | Some mtime \<Rightarrow> now - mtime \<le> real_of_int max_age_s)"

definition outbound_quarantine_active :: "markers \<Rightarrow> bool" where
  "outbound_quarantine_active fs = fs_quarantine fs"

definition secrets_rotated_since :: "markers \<Rightarrow> real \<Rightarrow> bool" where
  "secrets_rotated_since fs started_at =
     (case fs_rotated fs of None \<Rightarrow> False | Some epoch \<Rightarrow> epoch > started_at)"


datatype skip_reason = Skip_restore | Skip_quarantine

definition maintenance_skip_reason :: "markers \<Rightarrow> int \<Rightarrow> real \<Rightarrow> skip_reason option" where
  "maintenance_skip_reason fs max_age_s now =
     (if maintenance_active fs max_age_s now then Some Skip_restore
      else if outbound_quarantine_active fs then Some Skip_quarantine
      else None)"

definition skip_for_maintenance :: "markers \<Rightarrow> int \<Rightarrow> real \<Rightarrow> bool" where
  "skip_for_maintenance fs max_age_s now \<longleftrightarrow> maintenance_skip_reason fs max_age_s now \<noteq> None"

section \<open>The quarantine record\<close>










section \<open>The middleware\<close>

datatype mw_action = Forward | Send_unavailable | Send_quarantined

definition quarantine_safe_methods :: "string list" where
  "quarantine_safe_methods = [''GET'', ''HEAD'', ''OPTIONS'']"

definition quarantine_recovery_routes :: "(string \<times> string) list" where
  "quarantine_recovery_routes =
     [(''POST'', ''/api/admin/backups/restore/acknowledge''),
      (''POST'', ''/api/auth/api-key-session''),
      (''POST'', ''/api/auth/verify''),
      (''POST'', ''/api/auth/passkeys/capability''),
      (''POST'', ''/api/auth/passkeys/login/begin''),
      (''POST'', ''/api/auth/passkeys/login/finish''),
      (''POST'', ''/api/auth/logout'')]"

definition default_exempt_prefixes :: "string list" where
  "default_exempt_prefixes =
     [''/health'', ''/api/admin/backups/restore/status'', ''/api/setup/status'', ''/assets'', ''/static'', ''/favicon'']"

definition starts_with :: "string list \<Rightarrow> string \<Rightarrow> bool" where
  "starts_with prefixes s \<longleftrightarrow> list_ex (\<lambda>p. take (length p) s = p) prefixes"

text \<open>\<open>upper()\<close> of the ASCII letters a method consists of.\<close>

definition upper_ascii :: "string \<Rightarrow> string" where
  "upper_ascii s = map (\<lambda>c. if (97::nat) \<le> of_char c \<and> of_char c \<le> (122::nat) then char_of (of_char c - 32 :: nat) else c) s"

text \<open>\<open>MaintenanceMiddleware.__call__\<close> for a scope type, method and path.\<close>

definition middleware_call ::
  "string list \<Rightarrow> markers \<Rightarrow> int \<Rightarrow> real \<Rightarrow> string \<Rightarrow> string \<Rightarrow> string \<Rightarrow> mw_action" where
  "middleware_call exempt fs max_age_s now scope_type raw_method path =
     (if scope_type \<noteq> ''http'' then Forward
      else let method = upper_ascii raw_method in
        if outbound_quarantine_active fs \<and> method \<notin> set quarantine_safe_methods
           \<and> (method, path) \<notin> set quarantine_recovery_routes then Send_quarantined
        else if starts_with exempt path then Forward
        else if fs_destructive fs then Send_unavailable
        else case fs_soft fs of
          None \<Rightarrow> Forward
        | Some mtime \<Rightarrow> (if now - mtime \<le> real_of_int max_age_s then Send_unavailable else Forward))"

section \<open>Properties\<close>

text \<open>A request the quarantine lets through: a safe method or one of the recovery routes.\<close>

definition quarantine_permits :: "string \<Rightarrow> string \<Rightarrow> bool" where
  "quarantine_permits raw_method path \<longleftrightarrow>
     upper_ascii raw_method \<in> set quarantine_safe_methods
     \<or> (upper_ascii raw_method, path) \<in> set quarantine_recovery_routes"

text \<open>
  C20: the middleware and the predicate background work consults agree. An HTTP request reaches the
  application exactly when the quarantine permits it (or there is none) and it is exempt or no
  maintenance is active; in particular an unreviewed quarantine blocks every mutation, exempt paths
  included, and a destructive marker blocks every path that is not exempt whatever its age.
\<close>

theorem middleware_forwards_iff:
  "middleware_call exempt fs age now ''http'' m path = Forward \<longleftrightarrow>
     (outbound_quarantine_active fs \<longrightarrow> quarantine_permits m path)
     \<and> (starts_with exempt path \<or> \<not> maintenance_active fs age now)"
  by (auto simp: middleware_call_def quarantine_permits_def maintenance_active_def Let_def
      split: option.split)

text \<open>A half-finished restore: data is being replaced and the credentials are not reviewed yet.\<close>

definition mid_restore :: markers where
  "mid_restore = \<lparr>fs_destructive = True, fs_soft = None, fs_quarantine = True, fs_record = None,
     fs_rotated = None\<rparr>"

theorem middleware_forwards_iff_witness:
  "middleware_call default_exempt_prefixes mid_restore 1800 0 ''http'' ''post'' ''/health'' \<noteq> Forward
   \<and> middleware_call default_exempt_prefixes mid_restore 1800 0 ''http'' ''get'' ''/api/papers'' \<noteq> Forward"
  unfolding middleware_forwards_iff
  by (simp add: mid_restore_def outbound_quarantine_active_def quarantine_permits_def upper_ascii_def
      quarantine_safe_methods_def quarantine_recovery_routes_def starts_with_def
      default_exempt_prefixes_def maintenance_active_def char_of_def)





end
