(* ===== verification/Jobs.thy ===== *)
theory Jobs
  imports Prelude
begin

text \<open>
  The job backbone: the owner functions of the \<open>ops\<close> schema in \<open>db/init.sql\<close> that read, list, cancel
  and report on jobs, the adapters of \<open>jarvis_common/jobs.py\<close> (status map, row shape, SSE payload,
  event stream) and the execution context of \<open>jarvis_common/job_context.py\<close>. Payloads, results and
  errors are opaque JSON texts.
\<close>

section \<open>Tables\<close>

record pjob =
  pj_id :: nat
  pj_queue :: string
  pj_task :: string
  pj_status :: string
  pj_job_id :: "string option"
  pj_user :: "string option"
  pj_payload :: string
  pj_attempts :: nat
  pj_abort :: bool
  pj_owner :: "string option"

record job_progress =
  jp_progress :: "real option"
  jp_message :: "string option"
  jp_result :: "string option"
  jp_error :: "string option"

record job_event =
  je_job :: nat
  je_type :: string
  je_at :: real

record ops_db =
  od_jobs :: "pjob list"
  od_progress :: "string \<Rightarrow> job_progress option"
  od_events :: "job_event list"

text \<open>The values of the broker's status enum.\<close>

definition raw_statuses :: "string list" where
  "raw_statuses = [''todo'', ''doing'', ''succeeded'', ''failed'', ''cancelled'', ''aborting'', ''aborted'']"

definition ops_ok :: "ops_db \<Rightarrow> bool" where
  "ops_ok db \<longleftrightarrow> distinct (map pj_id (od_jobs db)) \<and> (\<forall>j \<in> set (od_jobs db). pj_status j \<in> set raw_statuses)"

definition event_times :: "ops_db \<Rightarrow> pjob \<Rightarrow> string list option \<Rightarrow> real list" where
  "event_times db j kinds =
     map je_at (filter (\<lambda>e. je_job e = pj_id j \<and> (case kinds of None \<Rightarrow> True | Some ks \<Rightarrow> je_type e \<in> set ks))
                  (od_events db))"

definition min_time :: "real list \<Rightarrow> real option" where
  "min_time ts = (if ts = [] then None else Some (Min (set ts)))"

definition max_time :: "real list \<Rightarrow> real option" where
  "max_time ts = (if ts = [] then None else Some (Max (set ts)))"

definition finished_events :: "string list" where
  "finished_events = [''succeeded'', ''failed'', ''cancelled'', ''aborted'']"

text \<open>The joined row of \<open>jarvis_job_read_v1\<close>; \<open>abort_requested\<close> is not among its columns.\<close>

record prow =
  pr_job :: pjob
  pr_progress :: "job_progress option"
  pr_created :: "real option"
  pr_started :: "real option"
  pr_finished :: "real option"

definition progress_of :: "ops_db \<Rightarrow> pjob \<Rightarrow> job_progress option" where
  "progress_of db j = (case pj_job_id j of None \<Rightarrow> None | Some i \<Rightarrow> od_progress db i)"

definition joined_row :: "ops_db \<Rightarrow> pjob \<Rightarrow> prow" where
  "joined_row db j =
     \<lparr>pr_job = j, pr_progress = progress_of db j,
      pr_created = min_time (event_times db j None),
      pr_started = min_time (event_times db j (Some [''started''])),
      pr_finished = max_time (event_times db j (Some finished_events))\<rparr>"

definition newest_first :: "pjob list \<Rightarrow> pjob list" where
  "newest_first js = py_sort_desc pj_id js"

definition jarvis_job_read_v1 :: "ops_db \<Rightarrow> string \<Rightarrow> prow option" where
  "jarvis_job_read_v1 db job_id =
     (case newest_first (filter (\<lambda>j. pj_job_id j = Some job_id) (od_jobs db)) of
        [] \<Rightarrow> None
      | j # _ \<Rightarrow> Some (joined_row db j))"

section \<open>Status and row adapters\<close>

definition procrastinate_status_map :: "(string \<times> string) list" where
  "procrastinate_status_map =
     [(''todo'', ''queued''), (''doing'', ''running''), (''succeeded'', ''succeeded''),
      (''failed'', ''failed''), (''cancelled'', ''cancelled''), (''aborting'', ''running''),
      (''aborted'', ''cancelled'')]"

definition status_to_jarvis :: "string \<Rightarrow> string" where
  "status_to_jarvis s = (case map_of procrastinate_status_map s of Some t \<Rightarrow> t | None \<Rightarrow> ''running'')"

definition terminal_statuses :: "string list" where
  "terminal_statuses = [''succeeded'', ''failed'', ''cancelled'']"

record job_row =
  jr_id :: "string option"
  jr_kind :: string
  jr_user :: "string option"
  jr_status :: string
  jr_progress :: real
  jr_message :: "string option"
  jr_payload :: string
  jr_result :: "string option"
  jr_error :: "string option"
  jr_created :: "real option"
  jr_started :: "real option"
  jr_finished :: "real option"

text \<open>A single job read carries the cancel flag as well.\<close>

record jarvis_row = job_row +
  jr_cancel_requested :: bool

definition row_to_jarvis :: "prow \<Rightarrow> jarvis_row" where
  "row_to_jarvis p =
     (let j = pr_job p; pg = pr_progress p in
      \<lparr>jr_id = pj_job_id j, jr_kind = pj_task j, jr_user = pj_user j,
       jr_status = status_to_jarvis (pj_status j),
       jr_progress = (case pg of None \<Rightarrow> 0 | Some g \<Rightarrow> (case jp_progress g of None \<Rightarrow> 0 | Some x \<Rightarrow> x)),
       jr_message = (case pg of None \<Rightarrow> None | Some g \<Rightarrow> jp_message g),
       jr_payload = pj_payload j,
       jr_result = (case pg of None \<Rightarrow> None | Some g \<Rightarrow> jp_result g),
       jr_error = (case pg of None \<Rightarrow> None | Some g \<Rightarrow> jp_error g),
       jr_created = pr_created p, jr_started = pr_started p, jr_finished = pr_finished p,
       jr_cancel_requested = (pj_status j \<in> {''cancelled'', ''aborting'', ''aborted''})\<rparr>)"

text \<open>\<open>get_unified\<close>: \<open>Inl ()\<close> is \<open>JobLookupUnavailable\<close>; \<open>up\<close> tells whether the database answers.\<close>

definition get_unified :: "ops_db \<Rightarrow> bool \<Rightarrow> string \<Rightarrow> unit + jarvis_row option" where
  "get_unified db up job_id =
     (if \<not> up then Inl () else Inr (map_option row_to_jarvis (jarvis_job_read_v1 db job_id)))"

record sse_payload =
  sp_progress :: real
  sp_message :: "string option"
  sp_status :: string
  sp_cancel :: bool
  sp_result :: "string option"
  sp_error :: "string option"
  sp_payload :: "string option"

definition job_sse_payload :: "jarvis_row \<Rightarrow> sse_payload" where
  "job_sse_payload r =
     (let terminal = jr_status r \<in> set terminal_statuses in
      \<lparr>sp_progress = jr_progress r, sp_message = jr_message r, sp_status = jr_status r,
       sp_cancel = jr_cancel_requested r,
       sp_result = (if terminal then jr_result r else None),
       sp_error = (if terminal then jr_error r else None),
       sp_payload = (if terminal then Some (jr_payload r) else None)\<rparr>)"

definition batch_terminal_status :: "bool \<Rightarrow> bool \<Rightarrow> string" where
  "batch_terminal_status cancelled incomplete =
     (if cancelled then ''cancelled'' else if incomplete then ''partial'' else ''ok'')"

section \<open>Listing\<close>

definition list_status :: "string \<Rightarrow> string" where
  "list_status s =
     (if s = ''todo'' then ''queued'' else if s = ''doing'' then ''running''
      else if s = ''aborting'' then ''running'' else if s = ''aborted'' then ''cancelled'' else s)"

definition list_matches :: "string option \<Rightarrow> string option \<Rightarrow> string option \<Rightarrow> pjob \<Rightarrow> bool" where
  "list_matches st kind uid j \<longleftrightarrow>
     pj_job_id j \<noteq> None
     \<and> (case kind of None \<Rightarrow> True | Some k \<Rightarrow> pj_task j = k)
     \<and> pj_user j = uid
     \<and> (case st of None \<Rightarrow> True
        | Some s \<Rightarrow>
            s = ''active'' \<and> pj_status j \<in> {''todo'', ''doing'', ''aborting''}
            \<or> s = ''queued'' \<and> pj_status j = ''todo''
            \<or> s = ''running'' \<and> pj_status j \<in> {''doing'', ''aborting''}
            \<or> s = ''cancelled'' \<and> pj_status j \<in> {''cancelled'', ''aborted''}
            \<or> s = pj_status j)"

text \<open>The listed rows have no \<open>cancel_requested\<close> column.\<close>

definition list_row :: "ops_db \<Rightarrow> pjob \<Rightarrow> job_row" where
  "list_row db j =
     (job_row.truncate (row_to_jarvis (joined_row db j)))\<lparr>jr_status := list_status (pj_status j)\<rparr>"

text \<open>\<open>jarvis_job_list_v1\<close>.\<close>

definition list_jobs ::
  "ops_db \<Rightarrow> string option \<Rightarrow> string option \<Rightarrow> string option \<Rightarrow> int \<Rightarrow> job_row list" where
  "list_jobs db st kind uid limit =
     map (list_row db)
       (take (nat (min (max limit 1) 500)) (newest_first (filter (list_matches st kind uid) (od_jobs db))))"

section \<open>Cancelling\<close>

definition jarvis_job_cancel_v1 :: "ops_db \<Rightarrow> string \<Rightarrow> string \<Rightarrow> bool \<times> ops_db" where
  "jarvis_job_cancel_v1 db job_id uid =
     (let hit = (\<lambda>j. pj_job_id j = Some job_id \<and> pj_user j = Some uid \<and> pj_status j \<in> {''todo'', ''doing''})
      in (list_ex hit (od_jobs db),
          db\<lparr>od_jobs := map (\<lambda>j. if hit j
                then j\<lparr>pj_abort := True, pj_status := (if pj_status j = ''todo'' then ''cancelled'' else pj_status j)\<rparr>
                else j) (od_jobs db)\<rparr>))"

definition cancel_unified :: "ops_db \<Rightarrow> bool \<Rightarrow> string \<Rightarrow> string \<Rightarrow> unit + (bool \<times> ops_db)" where
  "cancel_unified db up job_id uid = (if \<not> up then Inl () else Inr (jarvis_job_cancel_v1 db job_id uid))"

section \<open>Progress and outcome\<close>

datatype job_role = Research_worker | Learning_worker | Other_worker

definition role_owner :: "job_role \<Rightarrow> string option" where
  "role_owner r = (case r of Research_worker \<Rightarrow> Some ''research'' | Learning_worker \<Rightarrow> Some ''learning''
     | Other_worker \<Rightarrow> None)"

definition owns_job :: "ops_db \<Rightarrow> job_role \<Rightarrow> string \<Rightarrow> bool" where
  "owns_job db role job_id \<longleftrightarrow>
     (case role_owner role of None \<Rightarrow> False
      | Some v \<Rightarrow> list_ex (\<lambda>j. pj_job_id j = Some job_id \<and> pj_owner j = Some v) (od_jobs db))"

text \<open>\<open>None\<close> is the exception of an owner mismatch.\<close>

definition record_job_progress_v1 ::
  "ops_db \<Rightarrow> job_role \<Rightarrow> string \<Rightarrow> real \<Rightarrow> string option \<Rightarrow> ops_db option" where
  "record_job_progress_v1 db role job_id p msg =
     (if \<not> owns_job db role job_id then None
      else Some (db\<lparr>od_progress := (od_progress db)(job_id \<mapsto>
        (case od_progress db job_id of
           None \<Rightarrow> \<lparr>jp_progress = Some p, jp_message = msg, jp_result = None, jp_error = None\<rparr>
         | Some g \<Rightarrow> g\<lparr>jp_progress := Some p, jp_message := msg\<rparr>))\<rparr>))"

definition record_job_outcome_v1 ::
  "ops_db \<Rightarrow> job_role \<Rightarrow> string \<Rightarrow> string option \<Rightarrow> string option \<Rightarrow> bool \<Rightarrow> ops_db option" where
  "record_job_outcome_v1 db role job_id result error is_error =
     (if \<not> owns_job db role job_id then None
      else let p = (if is_error then 0 else 1) in
        Some (db\<lparr>od_progress := (od_progress db)(job_id \<mapsto>
        (case od_progress db job_id of
           None \<Rightarrow> \<lparr>jp_progress = Some p, jp_message = None, jp_result = result, jp_error = error\<rparr>
         | Some g \<Rightarrow>
             g\<lparr>jp_progress := (case jp_progress g of None \<Rightarrow> Some p | Some x \<Rightarrow> Some x),
               jp_result := result, jp_error := error\<rparr>))\<rparr>))"

text \<open>
  The execution context: the job id (empty when the task carries none), whether a pool is
  attached, and the broker's answer to \<open>should_abort\<close> (\<open>None\<close> when the probe raises or there is
  no broker context).
\<close>

record job_ctx =
  jc_job_id :: string
  jc_pool :: bool
  jc_abort :: "bool option"

definition make_ctx_shim :: "string option \<Rightarrow> string option option \<Rightarrow> bool \<Rightarrow> bool option \<Rightarrow> job_ctx" where
  "make_ctx_shim job_id task_kwargs_id pool abort =
     \<lparr>jc_job_id = (case job_id of Some i \<Rightarrow> i
        | None \<Rightarrow> (case task_kwargs_id of Some (Some i) \<Rightarrow> i | _ \<Rightarrow> [])),
      jc_pool = pool, jc_abort = abort\<rparr>"

definition ctx_update_progress ::
  "job_ctx \<Rightarrow> ops_db \<Rightarrow> bool \<Rightarrow> job_role \<Rightarrow> real \<Rightarrow> string option \<Rightarrow> ops_db" where
  "ctx_update_progress c db up role p msg =
     (if \<not> jc_pool c \<or> jc_job_id c = [] then db
      else if \<not> up then db
      else case record_job_progress_v1 db role (jc_job_id c) p msg of None \<Rightarrow> db | Some db' \<Rightarrow> db')"

definition record_terminal_outcome ::
  "job_ctx \<Rightarrow> ops_db \<Rightarrow> bool \<Rightarrow> job_role \<Rightarrow> string option \<Rightarrow> string option \<Rightarrow> bool \<Rightarrow> bool \<times> ops_db" where
  "record_terminal_outcome c db up role result error is_error =
     (if \<not> jc_pool c \<or> jc_job_id c = [] then (True, db)
      else if \<not> up then (False, db)
      else case record_job_outcome_v1 db role (jc_job_id c) result error is_error of
        None \<Rightarrow> (False, db)
      | Some db' \<Rightarrow> (True, db'))"

definition ctx_is_cancelled :: "job_ctx \<Rightarrow> bool" where
  "ctx_is_cancelled c = (jc_abort c = Some True)"

section \<open>The event stream\<close>

text \<open>
  \<open>stream_job_events\<close>. A cycle meets the client's connection state, the loop clock, the answer of the
  lookup and the clock readings of the throttle; the wait between cycles is the environment's.
\<close>

record cycle =
  cy_gone :: bool
  cy_now :: real
  cy_lookup :: "unit + prow option"
  cy_clock2 :: real
  cy_clock3 :: real

type_synonym row_key = "real \<times> string option \<times> string \<times> bool"

record stream_state =
  sm_last_key :: "row_key option"
  sm_keepalive :: real
  sm_poll :: real
  sm_idle :: real
  sm_last_state :: "row_key option"

datatype frame = F_event sse_payload | F_keepalive | F_timeout | F_unavailable

definition max_stream_seconds :: real where
  "max_stream_seconds = 750"

definition keepalive_interval :: real where
  "keepalive_interval = 15"

definition row_key :: "jarvis_row \<Rightarrow> row_key" where
  "row_key r = (jr_progress r, jr_message r, jr_status r, jr_cancel_requested r)"

text \<open>The throttle: 2 seconds after a change, one more after every 30 idle seconds, at most 5.\<close>

definition throttle :: "stream_state \<Rightarrow> row_key \<Rightarrow> real \<Rightarrow> real \<Rightarrow> stream_state" where
  "throttle st key clock2 clock3 =
     (if Some key \<noteq> sm_last_state st
      then st\<lparr>sm_last_state := Some key, sm_idle := clock2, sm_poll := 2\<rparr>
      else if clock2 - sm_idle st > 30
      then st\<lparr>sm_idle := clock3, sm_poll := min (sm_poll st + 1) 5\<rparr>
      else st)"

text \<open>One pass: the frames it yields and the state it goes on with, \<open>None\<close> when it leaves the loop.\<close>

definition stream_cycle :: "real \<Rightarrow> stream_state \<Rightarrow> cycle \<Rightarrow> frame list \<times> stream_state option" where
  "stream_cycle start st c =
     (if cy_gone c then ([], None)
      else if cy_now c - start > max_stream_seconds then ([F_timeout], None)
      else let keep = cy_now c - sm_keepalive st \<ge> keepalive_interval;
               alive = (if keep then [F_keepalive] else []);
               st1 = (if keep then st\<lparr>sm_keepalive := cy_now c\<rparr> else st)
        in case cy_lookup c of
          Inl _ \<Rightarrow> (alive @ [F_unavailable], None)
        | Inr None \<Rightarrow> (alive, None)
        | Inr (Some p) \<Rightarrow>
            (let r = row_to_jarvis p; key = row_key r;
                 changed = Some key \<noteq> sm_last_key st1;
                 fs = alive @ (if changed then [F_event (job_sse_payload r)] else []);
                 st2 = throttle (if changed then st1\<lparr>sm_last_key := Some key\<rparr> else st1)
                         key (cy_clock2 c) (cy_clock3 c)
             in if jr_status r \<in> set terminal_statuses then (fs, None) else (fs, Some st2)))"

definition stream_init :: "real \<Rightarrow> stream_state" where
  "stream_init start =
     \<lparr>sm_last_key = None, sm_keepalive = start, sm_poll = 2, sm_idle = start, sm_last_state = None\<rparr>"

fun stream_run :: "real \<Rightarrow> stream_state \<Rightarrow> cycle list \<Rightarrow> frame list \<times> stream_state option" where
  "stream_run start st [] = ([], Some st)"
| "stream_run start st (c # cs) =
     (case stream_cycle start st c of
        (fs, None) \<Rightarrow> (fs, None)
      | (fs, Some st') \<Rightarrow> (let (gs, e) = stream_run start st' cs in (fs @ gs, e)))"

definition stream_job_events :: "real \<Rightarrow> cycle list \<Rightarrow> frame list \<times> stream_state option" where
  "stream_job_events start cs = stream_run start (stream_init start) cs"

section \<open>What a client sees\<close>

definition payload_key :: "sse_payload \<Rightarrow> row_key" where
  "payload_key p = (sp_progress p, sp_message p, sp_status p, sp_cancel p)"

fun events_of :: "frame list \<Rightarrow> sse_payload list" where
  "events_of [] = []"
| "events_of (F_event p # fs) = p # events_of fs"
| "events_of (_ # fs) = events_of fs"

lemma events_of_append [simp]: "events_of (fs @ gs) = events_of fs @ events_of gs"
  by (induction fs rule: events_of.induct) auto

text \<open>A frame after which nothing may follow.\<close>

fun closing :: "frame \<Rightarrow> bool" where
  "closing (F_event p) = (sp_status p \<in> set terminal_statuses)"
| "closing F_keepalive = False"
| "closing _ = True"

lemma payload_key_row [simp]: "payload_key (job_sse_payload r) = row_key r"
  by (simp add: payload_key_def row_key_def job_sse_payload_def Let_def)

lemma payload_status_row [simp]: "sp_status (job_sse_payload r) = jr_status r"
  by (simp add: job_sse_payload_def Let_def)

lemma throttle_last_key [simp]: "sm_last_key (throttle st key c2 c3) = sm_last_key st"
  by (simp add: throttle_def)

text \<open>One cycle: at most one event, new to the client, and a closing frame only when it leaves.\<close>

lemma stream_cycle_go_on:
  assumes "stream_cycle start st c = (fs, Some st')"
  shows "(\<exists>p. events_of fs = [p] \<and> Some (payload_key p) \<noteq> sm_last_key st \<and> sm_last_key st' = Some (payload_key p)
       \<or> events_of fs = [] \<and> sm_last_key st' = sm_last_key st)
    \<and> list_all (\<lambda>f. \<not> closing f) fs"
  using assms
  by (auto simp: stream_cycle_def Let_def split: if_split_asm sum.split_asm option.split_asm)

lemma stream_cycle_leave:
  assumes "stream_cycle start st c = (fs, None)"
  shows "(\<exists>p. events_of fs = [p] \<and> Some (payload_key p) \<noteq> sm_last_key st \<or> events_of fs = [])
    \<and> list_all (\<lambda>f. \<not> closing f) (butlast fs)"
  using assms
  by (auto simp: stream_cycle_def Let_def split: if_split_asm sum.split_asm option.split_asm)

lemma stream_run_events:
  "stream_run start st cs = (fs, e) \<Longrightarrow>
   distinct_adj (map (Some \<circ> payload_key) (events_of fs))
   \<and> (events_of fs \<noteq> [] \<longrightarrow> Some (payload_key (hd (events_of fs))) \<noteq> sm_last_key st)
   \<and> list_all (\<lambda>f. \<not> closing f) (butlast fs)
   \<and> (e \<noteq> None \<longrightarrow> list_all (\<lambda>f. \<not> closing f) fs)"
proof (induction cs arbitrary: st fs e)
  case (Cons c cs)
  obtain fs1 e1 where c: "stream_cycle start st c = (fs1, e1)" by force
  show ?case
  proof (cases e1)
    case None
    then have "fs = fs1" "e = None" using Cons.prems c by auto
    then show ?thesis using stream_cycle_leave [OF c [unfolded None]] by auto
  next
    case (Some st1)
    obtain gs e2 where r: "stream_run start st1 cs = (gs, e2)" by force
    then have fs: "fs = fs1 @ gs" "e = e2" using Cons.prems c Some by auto
    note here = stream_cycle_go_on [OF c [unfolded Some]]
    note IH = Cons.IH [OF r]
    have "list_all (\<lambda>f. \<not> closing f) (butlast fs)"
      using here IH by (auto simp: fs butlast_append list_all_iff dest: in_set_butlastD)
    then show ?thesis
      using here IH by (cases "events_of gs") (auto simp: fs)
  qed
qed simp

lemma stream_cycle_rows:
  "stream_cycle start st c = (fs, e) \<Longrightarrow> list_all (\<lambda>p. \<exists>r. p = job_sse_payload r) (events_of fs)"
  by (auto simp: stream_cycle_def Let_def split: if_split_asm sum.split_asm option.split_asm)

lemma stream_run_rows:
  "stream_run start st cs = (fs, e) \<Longrightarrow> list_all (\<lambda>p. \<exists>r. p = job_sse_payload r) (events_of fs)"
proof (induction cs arbitrary: st fs e)
  case (Cons c cs)
  then show ?case
    using stream_cycle_rows [of start st c]
    by (force split: prod.splits option.splits)
qed simp

text \<open>
  C23: what a client of the job event stream sees. Two successive events always differ in progress,
  message, status or cancel flag; a terminal event, a timeout or an unavailability notice is the
  last frame, and the stream is over after it; and result, error and payload of a job are sent only
  with a terminal status.
\<close>

theorem stream_frames:
  assumes "stream_job_events start cs = (fs, e)"
  shows "distinct_adj (map payload_key (events_of fs))
    \<and> (\<forall>xs f ys. fs = xs @ f # ys \<longrightarrow> closing f \<longrightarrow> ys = [] \<and> e = None)
    \<and> (\<forall>p \<in> set (events_of fs). sp_status p \<notin> set terminal_statuses \<longrightarrow>
         sp_result p = None \<and> sp_error p = None \<and> sp_payload p = None)"
proof -
  note run = stream_run_events [OF assms [unfolded stream_job_events_def]]
  have "distinct_adj (map payload_key (events_of fs))"
  proof -
    have "map (Some \<circ> payload_key) (events_of fs) = map Some (map payload_key (events_of fs))" by simp
    then show ?thesis using run by (metis distinct_adj_map_iff inj_Some)
  qed
  moreover have "ys = [] \<and> e = None" if "fs = xs @ f # ys" "closing f" for xs f ys
    using run that by (auto simp: butlast_append list_all_iff split: if_splits)
  moreover have "sp_result p = None \<and> sp_error p = None \<and> sp_payload p = None"
    if "p \<in> set (events_of fs)" "sp_status p \<notin> set terminal_statuses" for p
    using stream_run_rows [OF assms [unfolded stream_job_events_def]] that
    by (fastforce simp: list_all_iff job_sse_payload_def Let_def)
  ultimately show ?thesis by blast
qed

text \<open>A finished job and the cycle that sees it.\<close>

definition demo_job :: pjob where
  "demo_job = \<lparr>pj_id = 1, pj_queue = ''paper_ingestion'', pj_task = ''paper.analyze'', pj_status = ''doing'',
     pj_job_id = Some ''a'', pj_user = Some ''7'', pj_payload = ''{}'', pj_attempts = 0, pj_abort = False,
     pj_owner = Some ''research''\<rparr>"

definition demo_ops :: ops_db where
  "demo_ops = \<lparr>od_jobs = [demo_job], od_progress = (\<lambda>_. None), od_events = []\<rparr>"

definition demo_cycle :: "string \<Rightarrow> real \<Rightarrow> cycle" where
  "demo_cycle st t = \<lparr>cy_gone = False, cy_now = t,
     cy_lookup = Inr (Some (joined_row demo_ops (demo_job\<lparr>pj_status := st\<rparr>))), cy_clock2 = t, cy_clock3 = t\<rparr>"

theorem stream_frames_witness:
  "\<exists>fs e. stream_job_events 0 [demo_cycle ''doing'' 0, demo_cycle ''aborting'' 2, demo_cycle ''aborted'' 4] = (fs, e)
     \<and> distinct_adj (map payload_key (events_of fs))"
  using stream_frames [of 0 "[demo_cycle ''doing'' 0, demo_cycle ''aborting'' 2, demo_cycle ''aborted'' 4]"]
  by (metis surj_pair)

lemma stream_run_ended:
  "c \<in> set cs \<Longrightarrow> (\<And>st. \<exists>fs. stream_cycle start st c = (fs, None)) \<Longrightarrow>
   snd (stream_run start st cs) = None"
proof (induction cs arbitrary: st)
  case (Cons d cs)
  obtain fs1 e1 where d: "stream_cycle start st d = (fs1, e1)" by force
  show ?case
  proof (cases e1)
    case None
    then show ?thesis using d by simp
  next
    case (Some st1)
    then have "c \<in> set cs" using Cons.prems d by (metis Pair_inject option.distinct(1) set_ConsD)
    then have "snd (stream_run start st1 cs) = None" using Cons.IH Cons.prems(2) by blast
    then show ?thesis using d Some by (simp add: split_def Let_def)
  qed
qed simp

text \<open>
  C39: the stream ends. Whatever the other cycles meet, it is over by the first cycle that finds the
  client gone, runs past the ceiling of 750 seconds, gets no answer from the database, finds no
  job, or sees a job whose status is terminal; an abort that is only requested is none of these.
\<close>

theorem stream_ends:
  assumes "c \<in> set cs"
    and "cy_gone c \<or> cy_now c - start > max_stream_seconds \<or> cy_lookup c = Inl () \<or> cy_lookup c = Inr None
      \<or> (\<exists>p. cy_lookup c = Inr (Some p)
            \<and> pj_status (pr_job p) \<in> {''succeeded'', ''failed'', ''cancelled'', ''aborted''})"
  shows "snd (stream_job_events start cs) = None"
  unfolding stream_job_events_def
proof (rule stream_run_ended [OF assms(1)])
  fix st
  show "\<exists>fs. stream_cycle start st c = (fs, None)"
    using assms(2)
    by (auto simp: stream_cycle_def Let_def row_to_jarvis_def status_to_jarvis_def
        procrastinate_status_map_def terminal_statuses_def)
qed

theorem stream_ends_witness:
  "snd (stream_job_events 0 [demo_cycle ''aborting'' 0, demo_cycle ''aborted'' 2]) = None"
  by (rule stream_ends [of "demo_cycle ''aborted'' 2"]) (simp_all add: demo_cycle_def joined_row_def)


section \<open>Listing, cancelling and reporting\<close>

lemma filter_newest_first: "filter P (newest_first js) = newest_first (filter P js)"
  by (simp add: newest_first_def py_sort_desc_def filter_sort flip: rev_filter)

lemma list_status_eq: "s \<in> set raw_statuses \<Longrightarrow> list_status s = status_to_jarvis s"
  by (auto simp: raw_statuses_def list_status_def status_to_jarvis_def procrastinate_status_map_def)

lemma list_row_simps [simp]:
  "jr_status (list_row db j) = list_status (pj_status j)" "jr_user (list_row db j) = pj_user j"
  "jr_kind (list_row db j) = pj_task j" "jr_id (list_row db j) = pj_job_id j"
  by (simp_all add: list_row_def row_to_jarvis_def joined_row_def Let_def job_row.defs)

text \<open>The statuses the API knows, and the aggregate filter.\<close>

definition status_selects :: "string \<Rightarrow> string \<Rightarrow> bool" where
  "status_selects s t \<longleftrightarrow> (if s = ''active'' then t \<in> {''queued'', ''running''} else t = s)"

lemma status_filter:
  assumes "t \<in> set raw_statuses"
    and "s \<in> {''active'', ''queued'', ''running'', ''succeeded'', ''failed'', ''cancelled''}"
  shows "(s = ''active'' \<and> t \<in> {''todo'', ''doing'', ''aborting''}
      \<or> s = ''queued'' \<and> t = ''todo'' \<or> s = ''running'' \<and> t \<in> {''doing'', ''aborting''}
      \<or> s = ''cancelled'' \<and> t \<in> {''cancelled'', ''aborted''} \<or> s = t)
    \<longleftrightarrow> status_selects s (list_status t)"
  using assms unfolding raw_statuses_def insert_iff empty_iff list.set
  by (elim disjE) (simp_all add: list_status_def status_selects_def)

lemma list_matches_status:
  assumes "pj_status j \<in> set raw_statuses"
    and "s \<in> {''active'', ''queued'', ''running'', ''succeeded'', ''failed'', ''cancelled''}"
  shows "list_matches (Some s) kind uid j
     \<longleftrightarrow> list_matches None kind uid j \<and> status_selects s (list_status (pj_status j))"
  unfolding list_matches_def option.case status_filter [OF assms] by simp

text \<open>
  Listing agrees with reading. For every status the API knows, and for the aggregate
  \<open>active\<close>, the filter of the database function selects exactly the jobs of that user whose
  mapped status matches, in the same newest-first order, cut to between 1 and 500 rows; and the
  two status maps, one in SQL and one in Python, are the same on every value of the enum.
\<close>

lemma job_list_status_filter:
  fixes kind uid :: "string option"
  assumes "ops_ok db"
    and "s \<in> {''active'', ''queued'', ''running'', ''succeeded'', ''failed'', ''cancelled''}"
  defines "all_rows \<equiv> map (list_row db) (newest_first (filter (list_matches None kind uid) (od_jobs db)))"
  shows "list_jobs db (Some s) kind uid limit
      = take (nat (min (max limit 1) 500)) (filter (\<lambda>r. status_selects s (jr_status r)) all_rows)
    \<and> (\<forall>r \<in> set (list_jobs db (Some s) kind uid limit). jr_user r = uid)
    \<and> (\<forall>raw \<in> set raw_statuses. list_status raw = status_to_jarvis raw)"
proof -
  have raw: "pj_status j \<in> set raw_statuses" if "j \<in> set (od_jobs db)" for j
    using assms(1) that by (simp add: ops_ok_def)
  have "filter (list_matches (Some s) kind uid) (od_jobs db)
      = filter (\<lambda>j. status_selects s (list_status (pj_status j))) (filter (list_matches None kind uid) (od_jobs db))"
    unfolding filter_filter by (rule filter_cong) (auto simp: list_matches_status [OF raw assms(2)])
  then have eq: "newest_first (filter (list_matches (Some s) kind uid) (od_jobs db))
      = filter (\<lambda>j. status_selects s (list_status (pj_status j)))
          (newest_first (filter (list_matches None kind uid) (od_jobs db)))"
    by (simp add: filter_newest_first)
  have "list_jobs db (Some s) kind uid limit
      = take (nat (min (max limit 1) 500)) (filter (\<lambda>r. status_selects s (jr_status r)) all_rows)"
    unfolding list_jobs_def eq all_rows_def by (simp add: filter_map comp_def take_map)
  moreover have "jr_user r = uid" if "r \<in> set (list_jobs db (Some s) kind uid limit)" for r
    using that by (auto simp: list_jobs_def newest_first_def list_matches_def dest!: in_set_takeD)
  ultimately show ?thesis using list_status_eq by blast
qed

lemma read_single:
  "filter (\<lambda>j. pj_job_id j = Some i) (od_jobs db) = [j] \<Longrightarrow> jarvis_job_read_v1 db i = Some (joined_row db j)"
  by (simp add: jarvis_job_read_v1_def newest_first_def py_sort_desc_def)

text \<open>What the cancel function makes of one job.\<close>

definition cancel_job :: "string \<Rightarrow> string \<Rightarrow> pjob \<Rightarrow> pjob" where
  "cancel_job i u j =
     (if pj_job_id j = Some i \<and> pj_user j = Some u \<and> pj_status j \<in> {''todo'', ''doing''}
      then j\<lparr>pj_abort := True, pj_status := (if pj_status j = ''todo'' then ''cancelled'' else pj_status j)\<rparr>
      else j)"

lemma cancel_job_keeps [simp]:
  "pj_job_id (cancel_job i u j) = pj_job_id j" "pj_id (cancel_job i u j) = pj_id j"
  "pj_user (cancel_job i u j) = pj_user j" "pj_task (cancel_job i u j) = pj_task j"
  "pj_payload (cancel_job i u j) = pj_payload j"
  by (simp_all add: cancel_job_def)

lemma cancel_eq:
  "jarvis_job_cancel_v1 db i u =
    (list_ex (\<lambda>j. pj_job_id j = Some i \<and> pj_user j = Some u \<and> pj_status j \<in> {''todo'', ''doing''}) (od_jobs db),
     db\<lparr>od_jobs := map (cancel_job i u) (od_jobs db)\<rparr>)"
  by (simp add: jarvis_job_cancel_v1_def Let_def cancel_job_def)

lemma cancel_job_other: "pj_user j \<noteq> Some u \<or> pj_job_id j \<noteq> Some i \<Longrightarrow> cancel_job i u j = j"
  by (auto simp: cancel_job_def)

lemma joined_row_cancel:
  "joined_row (db\<lparr>od_jobs := js\<rparr>) (cancel_job i u j) = (joined_row db j)\<lparr>pr_job := cancel_job i u j\<rparr>"
  by (simp add: joined_row_def progress_of_def event_times_def split: option.split)

text \<open>
  Cancelling touches only jobs of the caller with that id. Of such a job, a queued one becomes
  cancelled and reads as cancelled; but a running one only gets \<open>abort_requested\<close>, which no reader
  looks at: the call reports success while the job keeps reading exactly as before, \<open>running\<close> with
  \<open>cancel_requested\<close> false.
\<close>

lemma job_cancel_effect:
  assumes "filter (\<lambda>j. pj_job_id j = Some i) (od_jobs db) = [j]" and "pj_user j = Some u"
    and "jarvis_job_cancel_v1 db i u = (ok, db')"
  shows "(\<forall>k \<in> set (od_jobs db). pj_user k \<noteq> Some u \<or> pj_job_id k \<noteq> Some i \<longrightarrow> k \<in> set (od_jobs db'))
    \<and> (ok \<longleftrightarrow> pj_status j \<in> {''todo'', ''doing''})
    \<and> (pj_status j = ''todo'' \<longrightarrow>
         (\<exists>r. get_unified db' True i = Inr (Some r) \<and> jr_status r = ''cancelled'' \<and> jr_cancel_requested r))
    \<and> (pj_status j = ''doing'' \<longrightarrow> get_unified db' True i = get_unified db True i
         \<and> (\<exists>r. get_unified db' True i = Inr (Some r) \<and> jr_status r = ''running'' \<and> \<not> jr_cancel_requested r))"
proof -
  have db': "db' = db\<lparr>od_jobs := map (cancel_job i u) (od_jobs db)\<rparr>"
    and ok: "ok \<longleftrightarrow> list_ex (\<lambda>j. pj_job_id j = Some i \<and> pj_user j = Some u \<and> pj_status j \<in> {''todo'', ''doing''}) (od_jobs db)"
    using assms(3) by (auto simp: cancel_eq)
  have only: "k \<in> set (od_jobs db) \<and> pj_job_id k = Some i \<longleftrightarrow> k = j" for k
    using arg_cong [OF assms(1), of set] by auto
  have ok': "ok \<longleftrightarrow> pj_status j \<in> {''todo'', ''doing''}"
  proof -
    have "j \<in> set (od_jobs db)" "pj_job_id j = Some i" using only by blast+
    then show ?thesis unfolding ok list_ex_iff using only assms(2) by (metis (no_types, lifting))
  qed
  have "filter (\<lambda>j. pj_job_id j = Some i) (od_jobs db') = [cancel_job i u j]"
    using assms(1) by (simp add: db' filter_map comp_def)
  from read_single [OF this]
  have read': "jarvis_job_read_v1 db' i = Some ((joined_row db j)\<lparr>pr_job := cancel_job i u j\<rparr>)"
    by (simp add: db' joined_row_cancel)
  have job: "pr_job (joined_row db j) = j" "pj_job_id j = Some i" using only by (auto simp: joined_row_def)
  have keep: "k \<in> set (od_jobs db')" if "k \<in> set (od_jobs db)" "pj_user k \<noteq> Some u \<or> pj_job_id k \<noteq> Some i" for k
    using that cancel_job_other [of k u i] unfolding db' by (metis image_eqI list.set_map ops_db.select_convs(1) ops_db.surjective ops_db.update_convs(1))
  have todo: "\<exists>r. get_unified db' True i = Inr (Some r) \<and> jr_status r = ''cancelled'' \<and> jr_cancel_requested r"
    if "pj_status j = ''todo''"
    using that assms(2) job
    by (simp add: get_unified_def read' row_to_jarvis_def Let_def cancel_job_def status_to_jarvis_def
        procrastinate_status_map_def)
  have doing: "get_unified db' True i = get_unified db True i
      \<and> (\<exists>r. get_unified db' True i = Inr (Some r) \<and> jr_status r = ''running'' \<and> \<not> jr_cancel_requested r)"
    if "pj_status j = ''doing''"
    using that assms(2) job
    by (simp add: get_unified_def read' read_single [OF assms(1)] row_to_jarvis_def Let_def cancel_job_def
        status_to_jarvis_def procrastinate_status_map_def)
  show ?thesis using ok' keep todo doing by blast
qed

text \<open>
  Recording a job's outcome stores its result and error, keeps the progress the handler last
  reported (a job that reported none gets 1 for success and 0 for failure) and changes no other
  job's record; when the write fails, the caller is told and nothing changes.
\<close>

lemma outcome_keeps_progress:
  assumes "record_terminal_outcome c db up role result error is_error = (ok, db')"
  shows "(\<not> ok \<longrightarrow> db' = db)
    \<and> (ok \<and> jc_pool c \<and> jc_job_id c \<noteq> [] \<longrightarrow> up \<and> owns_job db role (jc_job_id c)
        \<and> (\<exists>g. od_progress db' (jc_job_id c) = Some g \<and> jp_result g = result \<and> jp_error g = error
              \<and> jp_progress g = (case Option.bind (od_progress db (jc_job_id c)) jp_progress of
                    Some p \<Rightarrow> Some p | None \<Rightarrow> Some (if is_error then 0 else 1))))
    \<and> (\<forall>i. i \<noteq> jc_job_id c \<longrightarrow> od_progress db' i = od_progress db i)"
  using assms
  by (auto simp: record_terminal_outcome_def record_job_outcome_v1_def Let_def
      split: if_split_asm option.split_asm option.split)

section \<open>Queue ownership\<close>

text \<open>The Python map and the table the database guards inserts with.\<close>

definition research_kinds :: "string list" where
  "research_kinds =
     [''paper.process'', ''paper.analyze'', ''papers.batch_process'', ''papers.batch_summarize'',
      ''papers.process_library'', ''papers.scan_local'', ''paper.summarize'', ''citations.batch_fetch'',
      ''digest.weekly'', ''extraction.single'', ''extraction.batch'', ''contradictions.scan'',
      ''pulse.generate'', ''pulse.train_classifier'', ''model.pull'', ''zotero.push'', ''zotero.resync'',
      ''zotero.sync_from_zotero'', ''zotero.sync_annotations'', ''zotero.push_highlights'']"

definition learning_kinds :: "string list" where
  "learning_kinds = [''card.generate'', ''card.generate_batch'']"

definition job_handler_owner :: "(string \<times> string) list" where
  "job_handler_owner = map (\<lambda>k. (k, ''paper_ingestion'')) research_kinds
     @ map (\<lambda>k. (k, ''learning_engine'')) learning_kinds"

text \<open>\<open>None\<close> is the \<open>KeyError\<close>.\<close>

definition queue_for_kind :: "string \<Rightarrow> string option" where
  "queue_for_kind kind = map_of job_handler_owner kind"

definition job_owner_registry :: "(string \<times> string \<times> string) list" where
  "job_owner_registry = map (\<lambda>k. (k, ''paper_ingestion'', ''research'')) (research_kinds @ [''noop.test''])
     @ map (\<lambda>k. (k, ''learning_engine'', ''learning'')) learning_kinds"

text \<open>
  The insert trigger: a job that carries a JARVIS id must sit on its owner's queue, may only be
  written by the owning runtime (or by a role that is neither) and gets the owner's metadata.
\<close>

definition enforce_job_owner_metadata_v1 :: "job_role \<Rightarrow> pjob \<Rightarrow> pjob option" where
  "enforce_job_owner_metadata_v1 role j =
     (if pj_job_id j = None then Some j
      else case map_of job_owner_registry (pj_task j) of
        None \<Rightarrow> None
      | Some (queue, service) \<Rightarrow>
          (if pj_queue j \<noteq> queue then None
           else if role_owner role \<noteq> None \<and> role_owner role \<noteq> Some service then None
           else if pj_owner j \<noteq> None \<and> pj_owner j \<noteq> Some service then None
           else Some (j\<lparr>pj_owner := Some service\<rparr>)))"

lemma map_of_const: "map_of (map (\<lambda>k. (k, c)) ks) k = (if k \<in> set ks then Some c else None)"
  by (induction ks) auto

lemma registry_of_kind:
  assumes "queue_for_kind kind = Some q"
  shows "\<exists>service. map_of job_owner_registry kind = Some (q, service)
     \<and> service = (if q = ''paper_ingestion'' then ''research'' else ''learning'')"
proof (cases "kind \<in> set research_kinds")
  case True
  then show ?thesis
    using assms
    by (simp add: queue_for_kind_def job_handler_owner_def job_owner_registry_def map_of_const map_add_def)
next
  case False
  then have "kind \<in> set learning_kinds" "q = ''learning_engine''"
    using assms
    by (auto simp: queue_for_kind_def job_handler_owner_def map_of_const map_add_def split: if_splits)
  moreover have "kind \<noteq> ''noop.test''"
    using \<open>kind \<in> set learning_kinds\<close> by (auto simp: learning_kinds_def)
  ultimately show ?thesis
    using False by (simp add: job_owner_registry_def map_of_const map_add_def)
qed

text \<open>
  The queue map of the code and the ownership table of the database agree: a job that is
  enqueued on the queue the code looks up passes the insert guard for its owner's runtime, and
  the same worker may then report its progress and outcome.
\<close>

lemma enqueue_on_owner_queue_accepted:
  assumes "queue_for_kind (pj_task j) = Some q" and "pj_queue j = q" and "pj_owner j = None"
    and "pj_job_id j = Some i"
    and "role = (if q = ''paper_ingestion'' then Research_worker else Learning_worker)"
  shows "\<exists>j'. enforce_job_owner_metadata_v1 role j = Some j'
    \<and> owns_job (db\<lparr>od_jobs := od_jobs db @ [j']\<rparr>) role i"
  using registry_of_kind [OF assms(1)] assms
  by (auto simp: enforce_job_owner_metadata_v1_def owns_job_def role_owner_def)

end
