(* ===== verification/Task_Registry.thy ===== *)
theory Task_Registry
  imports Maintenance Jobs
begin

text \<open>
  The task wrapper around every job handler and the registration of handlers
  (\<open>jarvis_common/task_registry.py\<close>): the checks of maintenance and quarantine, the bounded patience
  with a quarantine, the persisted outcome of a run and the queues kinds are registered on. A handler
  is a parameter; tracing and metrics are left out.
\<close>

section \<open>Exceptions and effects\<close>

datatype task_exc =
    Egress_blocked
  | Quarantine_blocked
  | Job_error string "string option"
  | Runtime_error
  | Other_error
  | Cancelled_error

text \<open>The classes that derive from \<open>Exception\<close>, and those the retry strategy names.\<close>

definition is_exception :: "task_exc \<Rightarrow> bool" where
  "is_exception e \<longleftrightarrow> e \<noteq> Cancelled_error"

definition is_retried :: "task_exc \<Rightarrow> bool" where
  "is_retried e \<longleftrightarrow> e = Egress_blocked \<or> e = Quarantine_blocked"

datatype error_payload = P_message string "string option" | P_job_failed

text \<open>\<open>_terminal_error_payload\<close>.\<close>

definition terminal_error_payload :: "task_exc \<Rightarrow> error_payload" where
  "terminal_error_payload e =
     (case e of
        Job_error msg link \<Rightarrow> P_message (if msg = [] then ''JobError'' else msg) link
      | _ \<Rightarrow> P_job_failed)"

datatype effect = E_logged string | E_handler | E_outcome bool

text \<open>
  One attempt of a task: the broker's attempt counter, the restore markers with the configured age
  and the clock, whether dependencies are configured, the execution context, whether the database
  answers, the worker's role, the JSON encoding of error payloads, and the exceptions that writing
  a log event does not swallow.
\<close>

record task_env =
  te_attempts :: nat
  te_markers :: markers
  te_max_age :: int
  te_now :: real
  te_deps :: bool
  te_ctx :: job_ctx
  te_up :: bool
  te_role :: job_role
  te_encode :: "error_payload \<Rightarrow> string"
  te_log :: "string \<Rightarrow> task_exc option"

type_synonym handler = "string \<Rightarrow> ops_db \<Rightarrow> (task_exc + string) \<times> ops_db"

type_synonym run_result = "(task_exc + string) \<times> ops_db \<times> effect list"

definition quarantine_max_attempts :: nat where
  "quarantine_max_attempts = 120"

definition gave_up_message :: string where
  "gave_up_message = ''Outbound integrations are quarantined after a restore; acknowledge the restore to resume. This job has stopped retrying.''"

definition record_terminal_error :: "task_env \<Rightarrow> ops_db \<Rightarrow> task_exc \<Rightarrow> bool \<times> ops_db" where
  "record_terminal_error env db e =
     record_terminal_outcome (te_ctx env) db (te_up env) (te_role env) None
       (Some (te_encode env (terminal_error_payload e))) True"

section \<open>Running a handler\<close>

text \<open>\<open>_run_handler_with_context\<close>; its caller only adds tracing.\<close>

definition run_handler :: "task_env \<Rightarrow> handler \<Rightarrow> string \<Rightarrow> ops_db \<Rightarrow> run_result" where
  "run_handler env h payload db =
     (case te_log env ''started'' of
        Some e \<Rightarrow> (Inl e, db, [])
      | None \<Rightarrow>
          (case h payload db of
             (Inl e, db1) \<Rightarrow>
               (if is_exception e then
                  (let (ok, db2) = record_terminal_error env db1 e;
                       fx = [E_logged ''started'', E_handler, E_outcome ok]
                   in case te_log env ''failed'' of
                        Some e' \<Rightarrow> (Inl e', db2, fx)
                      | None \<Rightarrow> (Inl e, db2, fx @ [E_logged ''failed'']))
                else (Inl e, db1, [E_logged ''started'', E_handler]))
           | (Inr r, db1) \<Rightarrow>
               (let (ok, db2) = record_terminal_outcome (te_ctx env) db1 (te_up env) (te_role env) (Some r) None False;
                    fx = [E_logged ''started'', E_handler, E_outcome ok]
                in case te_log env ''finished'' of
                     Some e' \<Rightarrow> (Inl e', db2, fx)
                   | None \<Rightarrow> (Inr r, db2, fx @ [E_logged ''finished'']))))"

text \<open>The wrapper of \<open>TaskRegistry.register_tasks\<close>.\<close>

definition task_wrapper :: "task_env \<Rightarrow> handler \<Rightarrow> string \<Rightarrow> ops_db \<Rightarrow> run_result" where
  "task_wrapper env h payload db =
     (case maintenance_skip_reason (te_markers env) (te_max_age env) (te_now env) of
        Some Skip_quarantine \<Rightarrow>
          (if te_attempts env \<ge> quarantine_max_attempts then
             (if \<not> te_deps env then (Inl Runtime_error, db, [])
              else let e = Job_error gave_up_message None; (ok, db') = record_terminal_error env db e
                   in (Inl e, db', [E_outcome ok]))
           else (Inl Quarantine_blocked, db, []))
      | Some Skip_restore \<Rightarrow> (Inl Egress_blocked, db, [])
      | None \<Rightarrow>
          (if \<not> te_deps env then (Inl Runtime_error, db, [])
           else run_handler env h payload db))"

section \<open>Registration\<close>

text \<open>The tasks of the broker application with their queues, and the kinds exposed to the API.\<close>

record registry =
  rg_tasks :: "string \<Rightarrow> string option"
  rg_kinds :: "string set"

definition register_tasks :: "registry \<Rightarrow> string list \<Rightarrow> string \<Rightarrow> registry" where
  "register_tasks rg kinds queue =
     foldl (\<lambda>r k. r\<lparr>rg_tasks := (rg_tasks r)(k \<mapsto> queue), rg_kinds := insert k (rg_kinds r)\<rparr>) rg kinds"

datatype register_error = Key_error | Many_queues | Not_registered

fun queues_of :: "string list \<Rightarrow> string list option" where
  "queues_of [] = Some []"
| "queues_of (k # ks) =
     (case queue_for_kind k of None \<Rightarrow> None
      | Some q \<Rightarrow> (case queues_of ks of None \<Rightarrow> None | Some qs \<Rightarrow> Some (List.insert q qs)))"

definition register_service_tasks :: "registry \<Rightarrow> string list \<Rightarrow> register_error + registry" where
  "register_service_tasks rg kinds =
     (case queues_of kinds of
        None \<Rightarrow> Inl Key_error
      | Some [queue] \<Rightarrow>
          (let rg' = register_tasks rg kinds queue
           in if filter (\<lambda>k. rg_tasks rg' k = None) kinds \<noteq> [] then Inl Not_registered else Inr rg')
      | Some _ \<Rightarrow> Inl Many_queues)"

section \<open>Properties\<close>

lemma record_terminal_error_jobs:
  "record_terminal_error env db e = (ok, db') \<Longrightarrow> od_jobs db' = od_jobs db"
  by (auto simp: record_terminal_error_def record_terminal_outcome_def record_job_outcome_v1_def Let_def
      split: option.splits if_splits)

text \<open>
  C27: no handler runs while a restore is in progress or its credentials are unreviewed. The attempt
  then fails with an exception the broker retries and leaves the database alone; the one other
  outcome is a quarantine met at attempt 120 or later, where the job fails for good (or reports
  missing dependencies) and only its own outcome may have been recorded.
\<close>

theorem blocked_tasks_never_run:
  assumes "maintenance_active (te_markers env) (te_max_age env) (te_now env)
    \<or> outbound_quarantine_active (te_markers env)"
    and "task_wrapper env h payload db = (res, db', fx)"
  shows "E_handler \<notin> set fx \<and> od_jobs db' = od_jobs db
    \<and> (\<exists>e. res = Inl e
        \<and> (if maintenance_active (te_markers env) (te_max_age env) (te_now env)
              \<or> te_attempts env < quarantine_max_attempts
           then is_retried e \<and> db' = db
           else \<not> is_retried e
                \<and> (te_deps env \<longrightarrow> e = Job_error gave_up_message None
                      \<and> db' = snd (record_terminal_error env db e))))"
  using assms
  by (auto dest: record_terminal_error_jobs simp: task_wrapper_def maintenance_skip_reason_def is_retried_def Let_def
      split: if_split_asm prod.split_asm)

definition demo_env120 :: task_env where
  "demo_env120 = \<lparr>te_attempts = 120,
     te_markers = \<lparr>fs_destructive = False, fs_soft = None, fs_quarantine = True, fs_record = None, fs_rotated = None\<rparr>,
     te_max_age = 1800, te_now = 0, te_deps = True, te_ctx = make_ctx_shim (Some ''a'') None True None,
     te_up = True, te_role = Research_worker, te_encode = (\<lambda>_. ''e''), te_log = (\<lambda>_. None)\<rparr>"

theorem blocked_tasks_never_run_witness:
  "\<exists>db' fx. task_wrapper demo_env120 (\<lambda>p db. (Inr ''done'', db)) [] demo_ops
     = (Inl (Job_error gave_up_message None), db', fx) \<and> E_handler \<notin> set fx"
proof -
  obtain res db' fx where w: "task_wrapper demo_env120 (\<lambda>p db. (Inr ''done'', db)) [] demo_ops = (res, db', fx)"
    by (metis prod_cases3)
  have "outbound_quarantine_active (te_markers demo_env120)"
    by (simp add: demo_env120_def outbound_quarantine_active_def)
  from blocked_tasks_never_run [OF disjI2 [OF this] w] w show ?thesis
    by (auto simp: demo_env120_def maintenance_active_def quarantine_max_attempts_def)
qed

lemma run_handler_ctx:
  assumes "jc_pool (te_ctx env)" "jc_job_id (te_ctx env) \<noteq> []" "te_up env"
    and "owns_job db1 (te_role env) (jc_job_id (te_ctx env))"
  shows "\<exists>db2 g. record_terminal_outcome (te_ctx env) db1 (te_up env) (te_role env) result error is_error = (True, db2)
    \<and> od_progress db2 (jc_job_id (te_ctx env)) = Some g \<and> jp_result g = result \<and> jp_error g = error"
  using assms
  by (auto simp: record_terminal_outcome_def record_job_outcome_v1_def Let_def split: option.split)

text \<open>
  Outside maintenance and quarantine, with the job's own worker and a reachable database, every
  run of a handler leaves a truthful outcome. A returned result is stored without an error and
  returned; a raised exception is stored as the error payload and raised again; a cancellation is
  passed on with nothing written. That includes a blocked network sink inside the handler: it is
  stored as a failed job although the broker will retry it.
\<close>

lemma handler_outcome_recorded:
  assumes "maintenance_skip_reason (te_markers env) (te_max_age env) (te_now env) = None"
    and "te_deps env" and "te_log env = (\<lambda>_. None)"
    and "jc_pool (te_ctx env)" and "jc_job_id (te_ctx env) \<noteq> []" and "te_up env"
    and "h payload db = (out, db1)" and "owns_job db1 (te_role env) (jc_job_id (te_ctx env))"
    and "task_wrapper env h payload db = (res, db2, fx)"
  shows "res = out \<and> E_handler \<in> set fx
    \<and> (case out of
         Inr r \<Rightarrow> (\<exists>g. od_progress db2 (jc_job_id (te_ctx env)) = Some g
             \<and> jp_result g = Some r \<and> jp_error g = None)
       | Inl e \<Rightarrow>
           (if e = Cancelled_error then db2 = db1
            else \<exists>g. od_progress db2 (jc_job_id (te_ctx env)) = Some g \<and> jp_result g = None
               \<and> jp_error g = Some (te_encode env (terminal_error_payload e))))"
proof -
  note outcome = run_handler_ctx [OF assms(4,5,6,8)]
  have run: "run_handler env h payload db = (res, db2, fx)"
    using assms(1,2,9) by (simp add: task_wrapper_def)
  show ?thesis
  proof (cases out)
    case (Inr r)
    then show ?thesis
      using run outcome [of "Some r" None False] assms(3,7) by (auto simp: run_handler_def)
  next
    case (Inl e)
    then show ?thesis
      using run outcome [of None "Some (te_encode env (terminal_error_payload e))" True] assms(3,7)
      by (auto simp: run_handler_def record_terminal_error_def is_exception_def split: if_split_asm)
  qed
qed

lemma queues_of_set:
  "queues_of ks = Some qs \<Longrightarrow> (\<forall>k \<in> set ks. \<exists>q \<in> set qs. queue_for_kind k = Some q) \<and> distinct qs
     \<and> (\<forall>q \<in> set qs. \<exists>k \<in> set ks. queue_for_kind k = Some q)"
  by (induction ks arbitrary: qs) (auto split: option.splits)

lemma register_tasks_lookup:
  "rg_tasks (register_tasks rg ks q) k = (if k \<in> set ks then Some q else rg_tasks rg k)"
  "rg_kinds (register_tasks rg ks q) = rg_kinds rg \<union> set ks"
  unfolding register_tasks_def by (induction ks arbitrary: rg) auto

text \<open>
  A service's handlers are registered exactly when every kind is known and all belong to one
  owner queue; then each kind is a task on its owner's queue and exposed for enqueueing, and other
  tasks stay as they were.
\<close>

lemma service_registration:
  "((\<exists>rg'. register_service_tasks rg kinds = Inr rg')
      \<longleftrightarrow> (\<exists>q. kinds \<noteq> [] \<and> (\<forall>k \<in> set kinds. queue_for_kind k = Some q)))
   \<and> (\<forall>rg'. register_service_tasks rg kinds = Inr rg' \<longrightarrow>
        (\<forall>k. rg_tasks rg' k = (if k \<in> set kinds then queue_for_kind k else rg_tasks rg k))
        \<and> rg_kinds rg' = rg_kinds rg \<union> set kinds)"
proof -
  have accepted_one: "register_service_tasks rg kinds = Inr (register_tasks rg kinds q)
      \<and> kinds \<noteq> [] \<and> (\<forall>k \<in> set kinds. queue_for_kind k = Some q)"
    if "queues_of kinds = Some [q]" for q
  proof -
    have "filter (\<lambda>k. rg_tasks (register_tasks rg kinds q) k = None) kinds = []"
      by (simp add: filter_empty_conv register_tasks_lookup)
    then show ?thesis using that queues_of_set [OF that] by (auto simp: register_service_tasks_def Let_def)
  qed
  have rejected: "\<exists>e. register_service_tasks rg kinds = Inl e" if "\<And>q. queues_of kinds \<noteq> Some [q]"
    using that by (auto simp: register_service_tasks_def split: option.split list.split)
  have single: "\<exists>q'. queues_of kinds = Some [q']"
    if "kinds \<noteq> []" "\<forall>k \<in> set kinds. queue_for_kind k = Some q" for q
  proof -
    have "queues_of kinds = Some (if kinds = [] then [] else [q])"
      using that(2) by (induction kinds) auto
    then show ?thesis using that(1) by simp
  qed
  show ?thesis
  proof (cases "\<exists>q. queues_of kinds = Some [q]")
    case True
    then obtain q where q: "queues_of kinds = Some [q]" by blast
    show ?thesis using accepted_one [OF q] by (auto simp: register_tasks_lookup)
  next
    case False
    then show ?thesis using rejected single by fastforce
  qed
qed

end
