(* ===== verification/Review.thy ===== *)
theory Review
  imports Prelude
begin

text \<open>
  Spaced repetition (\<open>learning_engine/routers/review.py\<close>, \<open>fsrs_manager.py\<close> and
  \<open>jarvis_common/streak.py\<close>): the retention settings, online reviews, the idempotent replay of
  offline batches, the due queue, the statistics and the streak. The FSRS scheduler and the parsers
  of configuration values are third-party or library code and appear as records of functions.
  Instants are UTC seconds; a day is the number of whole days since the epoch.
\<close>

section \<open>Settings\<close>

datatype pyfloat = Finite real | Nonfinite

definition clamp_desired_retention :: "pyfloat \<Rightarrow> real" where
  "clamp_desired_retention v =
     (case v of Nonfinite \<Rightarrow> 9 / 10 | Finite x \<Rightarrow> max (1 / 100) (min (99 / 100) x))"

text \<open>A JSON value of \<open>user_config\<close> and Python's \<open>float\<close>, \<open>json.loads\<close> and \<open>int\<close> on such values
  (\<open>None\<close>: they raise).\<close>

datatype cfg_value = Cfg_str string | Cfg_num real | Cfg_list "cfg_value list" | Cfg_other

record cfg_ops =
  co_float :: "cfg_value \<Rightarrow> pyfloat option"
  co_loads :: "string \<Rightarrow> cfg_value option"
  co_int :: "cfg_value \<Rightarrow> int option"

text \<open>Rows by key and user; a user's own row hides the system default.\<close>

type_synonym user_config = "string \<times> int option \<Rightarrow> cfg_value option"

definition config_row :: "user_config \<Rightarrow> int option \<Rightarrow> string \<Rightarrow> cfg_value option" where
  "config_row cfg uid key =
     (case uid of
        None \<Rightarrow> cfg (key, None)
      | Some u \<Rightarrow> (case cfg (key, Some u) of Some v \<Rightarrow> Some v | None \<Rightarrow> cfg (key, None)))"

fun all_some :: "'a option list \<Rightarrow> 'a list option" where
  "all_some [] = Some []"
| "all_some (x # xs) =
     (case x of None \<Rightarrow> None | Some a \<Rightarrow> (case all_some xs of None \<Rightarrow> None | Some as \<Rightarrow> Some (a # as)))"

definition parse_steps :: "cfg_ops \<Rightarrow> cfg_value \<Rightarrow> int list option" where
  "parse_steps ops v =
     (case (case v of Cfg_str s \<Rightarrow> co_loads ops s | _ \<Rightarrow> Some v) of
        Some (Cfg_list steps) \<Rightarrow> (if steps = [] then None else all_some (map (co_int ops) steps))
      | _ \<Rightarrow> None)"

record fsrs_params =
  fp_retention :: real
  fp_steps :: "int list"

definition default_steps :: "int list" where
  "default_steps = [1, 10]"

text \<open>\<open>_build_fsrs_manager_from_db\<close> and \<open>FSRSManager.__init__\<close>; steps are minutes.\<close>

definition build_fsrs_manager :: "cfg_ops \<Rightarrow> user_config \<Rightarrow> int option \<Rightarrow> fsrs_params" where
  "build_fsrs_manager ops cfg uid =
     \<lparr>fp_retention =
        (case config_row cfg uid ''fsrs.desired_retention'' of
           None \<Rightarrow> 9 / 10
         | Some v \<Rightarrow> (case co_float ops v of None \<Rightarrow> 9 / 10 | Some f \<Rightarrow> clamp_desired_retention f)),
      fp_steps =
        (case config_row cfg uid ''fsrs.learning_steps'' of
           None \<Rightarrow> default_steps
         | Some v \<Rightarrow> (case parse_steps ops v of None \<Rightarrow> default_steps | Some ss \<Rightarrow> ss))\<rparr>"

text \<open>The scheduler library; states and logs are JSON texts.\<close>

record 'c fsrs_ops =
  fo_from_dict :: "string \<Rightarrow> 'c option"
  fo_new :: 'c
  fo_review :: "fsrs_params \<Rightarrow> 'c \<Rightarrow> int \<Rightarrow> real \<Rightarrow> 'c \<times> string"
  fo_to_dict :: "'c \<Rightarrow> string"
  fo_due :: "'c \<Rightarrow> real"

text \<open>\<open>schedule_review\<close>: an unreadable stored state is replaced by a new card.\<close>

definition schedule_review ::
  "'c fsrs_ops \<Rightarrow> fsrs_params \<Rightarrow> string \<Rightarrow> int \<Rightarrow> real \<Rightarrow> string \<times> string \<times> real" where
  "schedule_review fo params state rating at_time =
     (let card = (case fo_from_dict fo state of Some c \<Rightarrow> c | None \<Rightarrow> fo_new fo);
          (new_card, log_dict) = fo_review fo params card rating at_time
      in (fo_to_dict fo new_card, log_dict, fo_due fo new_card))"

section \<open>Tables\<close>

record rcard =
  rc_id :: int
  rc_user :: int
  rc_paper :: "int option"
  rc_gen :: int
  rc_deck :: "int option"
  rc_state :: string
  rc_due :: real

record rlog =
  rl_card :: int
  rl_user :: int
  rl_rating :: int
  rl_duration :: "int option"
  rl_at :: real
  rl_log :: string
  rl_key :: "string option"

record review_db =
  rv_cards :: "rcard list"
  rv_gens :: "int \<Rightarrow> int option"
  rv_decks :: "(int \<times> int) set"
  rv_logs :: "rlog list"
  rv_daily :: "int \<times> int \<Rightarrow> int option option"

definition day_of :: "real \<Rightarrow> int" where
  "day_of t = \<lfloor>t / 86400\<rfloor>"

definition card_row :: "review_db \<Rightarrow> int \<Rightarrow> int \<Rightarrow> rcard option" where
  "card_row db card_id uid = find (\<lambda>c. rc_id c = card_id \<and> rc_user c = uid) (rv_cards db)"

definition card_source_is_current :: "review_db \<Rightarrow> rcard \<Rightarrow> bool" where
  "card_source_is_current db c =
     (case rc_paper c of
        None \<Rightarrow> True
      | Some p \<Rightarrow> (case rv_gens db p of None \<Rightarrow> False | Some g \<Rightarrow> rc_gen c = g))"

definition store_schedule :: "review_db \<Rightarrow> int \<Rightarrow> int \<Rightarrow> string \<Rightarrow> real \<Rightarrow> review_db" where
  "store_schedule db card_id uid state due =
     db\<lparr>rv_cards := map (\<lambda>c. if rc_id c = card_id \<and> rc_user c = uid
                              then c\<lparr>rc_state := state, rc_due := due\<rparr> else c) (rv_cards db)\<rparr>"

text \<open>\<open>INSERT INTO daily_log ... ON CONFLICT DO UPDATE SET cards_reviewed = COALESCE(..., 0) + 1\<close>.\<close>

definition bump_daily :: "review_db \<Rightarrow> int \<Rightarrow> int \<Rightarrow> review_db" where
  "bump_daily db uid day =
     db\<lparr>rv_daily := (rv_daily db)((uid, day) \<mapsto>
        (case rv_daily db (uid, day) of
           None \<Rightarrow> Some 1
         | Some None \<Rightarrow> Some 1
         | Some (Some n) \<Rightarrow> Some (n + 1)))\<rparr>"

section \<open>Online reviews\<close>

datatype review_error = Card_not_found | Card_stale

text \<open>\<open>now\<close> is the transaction's \<open>NOW()\<close>, \<open>clock\<close> the scheduler's own clock, \<open>today\<close> \<open>CURRENT_DATE\<close>.\<close>

definition submit_review ::
  "'c fsrs_ops \<Rightarrow> fsrs_params \<Rightarrow> review_db \<Rightarrow> int \<Rightarrow> int \<Rightarrow> int option \<Rightarrow> int \<Rightarrow> real \<Rightarrow> real \<Rightarrow> int
     \<Rightarrow> review_error + review_db" where
  "submit_review fo params db card_id rating duration uid now clock today =
     (case card_row db card_id uid of
        None \<Rightarrow> Inl Card_not_found
      | Some c \<Rightarrow>
          (if \<not> card_source_is_current db c then Inl Card_stale
           else let (new_state, log_dict, next_due) = schedule_review fo params (rc_state c) rating clock;
                    db1 = store_schedule db card_id uid new_state next_due;
                    db2 = db1\<lparr>rv_logs := rv_logs db1 @ [\<lparr>rl_card = card_id, rl_user = uid, rl_rating = rating,
                       rl_duration = duration, rl_at = now, rl_log = log_dict, rl_key = None\<rparr>]\<rparr>
                in Inr (bump_daily db2 uid today)))"

section \<open>Offline batches\<close>

record sync_event =
  se_key :: string
  se_card :: int
  se_rating :: int
  se_at :: real
  se_duration :: "int option"

record sync_state =
  sy_db :: review_db
  sy_applied :: "string set"
  sy_synced :: nat
  sy_skipped :: nat
  sy_already :: nat

text \<open>The newest review of a card by the user.\<close>

definition prior_last :: "review_db \<Rightarrow> int \<Rightarrow> int \<Rightarrow> real option" where
  "prior_last db card_id uid =
     (let ts = map rl_at (filter (\<lambda>l. rl_card l = card_id \<and> rl_user l = uid) (rv_logs db))
      in if ts = [] then None else Some (Max (set ts)))"

definition has_key :: "review_db \<Rightarrow> int \<Rightarrow> string \<Rightarrow> bool" where
  "has_key db uid key \<longleftrightarrow> (\<exists>l \<in> set (rv_logs db). rl_user l = uid \<and> rl_key l = Some key)"

text \<open>One event of the loop; the transaction sees the table as other requests have left it.\<close>

definition sync_event_step ::
  "'c fsrs_ops \<Rightarrow> fsrs_params \<Rightarrow> int \<Rightarrow> sync_state \<Rightarrow> sync_event \<Rightarrow> sync_state" where
  "sync_event_step fo params uid st e =
     (let db = sy_db st; mark = st\<lparr>sy_applied := insert (se_key e) (sy_applied st)\<rparr> in
      if se_key e \<in> sy_applied st then st\<lparr>sy_already := sy_already st + 1\<rparr>
      else case card_row db (se_card e) uid of
        None \<Rightarrow> mark\<lparr>sy_skipped := sy_skipped st + 1\<rparr>
      | Some c \<Rightarrow>
          (if \<not> card_source_is_current db c then mark\<lparr>sy_skipped := sy_skipped st + 1\<rparr>
           else let out_of_order = (case prior_last db (se_card e) uid of None \<Rightarrow> False | Some t \<Rightarrow> se_at e < t);
                    (new_state, log_dict, next_due) = schedule_review fo params (rc_state c) (se_rating e) (se_at e)
                in if has_key db uid (se_key e) then mark\<lparr>sy_already := sy_already st + 1\<rparr>
                   else let db1 = db\<lparr>rv_logs := rv_logs db @ [\<lparr>rl_card = se_card e, rl_user = uid,
                              rl_rating = se_rating e, rl_duration = se_duration e, rl_at = se_at e,
                              rl_log = log_dict, rl_key = Some (se_key e)\<rparr>]\<rparr>;
                            db2 = (if \<not> out_of_order then store_schedule db1 (se_card e) uid new_state next_due else db1)
                        in mark\<lparr>sy_db := bump_daily db2 uid (day_of (se_at e)), sy_synced := sy_synced st + 1\<rparr>))"

text \<open>
  \<open>_sync_reviews\<close>: the events oldest first; before each one, \<open>interfere\<close> stands for what concurrent
  requests did to the tables since.
\<close>

fun sync_loop ::
  "'c fsrs_ops \<Rightarrow> fsrs_params \<Rightarrow> int \<Rightarrow> (nat \<Rightarrow> review_db \<Rightarrow> review_db) \<Rightarrow> nat \<Rightarrow> sync_state \<Rightarrow> sync_event list
     \<Rightarrow> sync_state" where
  "sync_loop fo params uid interfere n st [] = st"
| "sync_loop fo params uid interfere n st (e # es) =
     sync_loop fo params uid interfere (Suc n)
       (sync_event_step fo params uid (st\<lparr>sy_db := interfere n (sy_db st)\<rparr>) e) es"

definition sync_reviews ::
  "'c fsrs_ops \<Rightarrow> fsrs_params \<Rightarrow> (nat \<Rightarrow> review_db \<Rightarrow> review_db) \<Rightarrow> review_db \<Rightarrow> sync_event list \<Rightarrow> int
     \<Rightarrow> sync_state" where
  "sync_reviews fo params interfere db events uid =
     (let applied = {k \<in> set (map se_key events). has_key db uid k}
      in sync_loop fo params uid interfere 0
           \<lparr>sy_db = db, sy_applied = applied, sy_synced = 0, sy_skipped = 0, sy_already = 0\<rparr>
           (sort_key se_at events))"

section \<open>The due queue, statistics and the streak\<close>

definition get_next_review :: "review_db \<Rightarrow> real \<Rightarrow> int \<Rightarrow> int option \<Rightarrow> nat \<Rightarrow> rcard list" where
  "get_next_review db now uid deck limit =
     take limit (sort_key rc_due (filter (\<lambda>c. rc_due c \<le> now \<and> rc_user c = uid \<and> card_source_is_current db c
        \<and> (case deck of None \<Rightarrow> True | Some d \<Rightarrow> rc_deck c = Some d \<and> (d, uid) \<in> rv_decks db)) (rv_cards db)))"

text \<open>\<open>compute_streak\<close> on the days of the events.\<close>

fun streak_walk :: "int \<Rightarrow> int list \<Rightarrow> nat" where
  "streak_walk expected [] = 0"
| "streak_walk expected (d # ds) =
     (if d = expected then Suc (streak_walk (expected - 1) ds)
      else if d < expected then 0
      else streak_walk expected ds)"

definition compute_streak :: "int list \<Rightarrow> int \<Rightarrow> nat" where
  "compute_streak days today =
     (if days = [] then 0
      else let dates = rev (sorted_list_of_set (set days));
               expected = (if hd dates \<noteq> today then today - 1 else today)
           in streak_walk expected dates)"

record retention_stats =
  st_total :: nat
  st_due :: nat
  st_today :: nat
  st_by_rating :: "int \<Rightarrow> nat"
  st_retention :: real
  st_streak :: nat

text \<open>\<open>round1\<close> is Python's \<open>round(x, 1)\<close>.\<close>

definition get_stats :: "(real \<Rightarrow> real) \<Rightarrow> review_db \<Rightarrow> real \<Rightarrow> int \<Rightarrow> retention_stats" where
  "get_stats round1 db now uid =
     (let mine = filter (\<lambda>c. rc_user c = uid) (rv_cards db);
          logs = filter (\<lambda>l. rl_user l = uid) (rv_logs db);
          recent = filter (\<lambda>l. rl_at l \<ge> now - 30 * 86400) logs;
          good = length (filter (\<lambda>l. rl_rating l \<in> {3, 4}) recent);
          days = take 365 (rev (sorted_list_of_set (set (map (day_of \<circ> rl_at) logs))))
      in \<lparr>st_total = length mine,
          st_due = length (filter (\<lambda>c. rc_due c \<le> now \<and> card_source_is_current db c) mine),
          st_today = length (filter (\<lambda>l. day_of (rl_at l) = day_of now) logs),
          st_by_rating = (\<lambda>r. length (filter (\<lambda>l. rl_rating l = r) recent)),
          st_retention = round1 (if recent \<noteq> [] then real good / real (length recent) * 100 else 0),
          st_streak = compute_streak days (day_of now)\<rparr>)"

section \<open>One event\<close>

text \<open>A card of the user that exists and was made from the current paper.\<close>

definition reviewable :: "review_db \<Rightarrow> int \<Rightarrow> int \<Rightarrow> bool" where
  "reviewable db card_id uid =
     (case card_row db card_id uid of None \<Rightarrow> False | Some c \<Rightarrow> card_source_is_current db c)"

text \<open>The tables after recording an event, and whether its schedule is stored.\<close>

definition record_review ::
  "'c fsrs_ops \<Rightarrow> fsrs_params \<Rightarrow> int \<Rightarrow> review_db \<Rightarrow> rcard \<Rightarrow> sync_event \<Rightarrow> review_db" where
  "record_review fo params uid db c e =
     (let (new_state, log_dict, next_due) = schedule_review fo params (rc_state c) (se_rating e) (se_at e);
          db1 = db\<lparr>rv_logs := rv_logs db @ [\<lparr>rl_card = se_card e, rl_user = uid,
             rl_rating = se_rating e, rl_duration = se_duration e, rl_at = se_at e,
             rl_log = log_dict, rl_key = Some (se_key e)\<rparr>]\<rparr>
      in bump_daily
           (if (case prior_last db (se_card e) uid of None \<Rightarrow> False | Some t \<Rightarrow> se_at e < t) then db1
            else store_schedule db1 (se_card e) uid new_state next_due)
           uid (day_of (se_at e)))"

text \<open>Every event is already known, skipped or recorded.\<close>

lemma sync_event_cases:
  obtains (known) "sync_event_step fo params uid st e = st\<lparr>sy_already := sy_already st + 1\<rparr>"
      "se_key e \<in> sy_applied st"
  | (skipped) "sync_event_step fo params uid st e
        = st\<lparr>sy_applied := insert (se_key e) (sy_applied st), sy_skipped := sy_skipped st + 1\<rparr>"
      "se_key e \<notin> sy_applied st" "\<not> reviewable (sy_db st) (se_card e) uid"
  | (raced) "sync_event_step fo params uid st e
        = st\<lparr>sy_applied := insert (se_key e) (sy_applied st), sy_already := sy_already st + 1\<rparr>"
      "se_key e \<notin> sy_applied st" "has_key (sy_db st) uid (se_key e)"
  | (recorded) c where "sync_event_step fo params uid st e
        = st\<lparr>sy_applied := insert (se_key e) (sy_applied st), sy_db := record_review fo params uid (sy_db st) c e,
             sy_synced := sy_synced st + 1\<rparr>"
      "se_key e \<notin> sy_applied st" "card_row (sy_db st) (se_card e) uid = Some c"
      "card_source_is_current (sy_db st) c" "\<not> has_key (sy_db st) uid (se_key e)"
proof (cases "se_key e \<in> sy_applied st")
  case True
  then show thesis using known by (simp add: sync_event_step_def)
next
  case notapp: False
  show thesis
  proof (cases "reviewable (sy_db st) (se_card e) uid")
    case False
    then show thesis
      using skipped notapp by (auto simp: sync_event_step_def reviewable_def split: option.splits)
  next
    case True
    then obtain c where c: "card_row (sy_db st) (se_card e) uid = Some c" "card_source_is_current (sy_db st) c"
      by (auto simp: reviewable_def split: option.splits)
    show thesis
    proof (cases "has_key (sy_db st) uid (se_key e)")
      case True
      then show thesis
        using raced notapp c by (auto simp: sync_event_step_def split: prod.splits)
    next
      case False
      then show thesis
        using recorded [of c] notapp c
        by (cases "prior_last (sy_db st) (se_card e) uid")
          (auto simp: sync_event_step_def record_review_def Let_def split: prod.splits)
    qed
  qed
qed

lemma record_review_logs:
  "rv_logs (record_review fo params uid db c e) = rv_logs db @ [\<lparr>rl_card = se_card e, rl_user = uid,
     rl_rating = se_rating e, rl_duration = se_duration e, rl_at = se_at e,
     rl_log = fst (snd (schedule_review fo params (rc_state c) (se_rating e) (se_at e))), rl_key = Some (se_key e)\<rparr>]"
  by (auto simp: record_review_def Let_def bump_daily_def store_schedule_def split: prod.split)

lemma record_review_gens [simp]: "rv_gens (record_review fo params uid db c e) = rv_gens db"
  by (auto simp: record_review_def Let_def bump_daily_def store_schedule_def split: prod.split)

lemma record_review_daily:
  "rv_daily (record_review fo params uid db c e) = rv_daily (bump_daily db uid (day_of (se_at e)))"
  by (auto simp: record_review_def Let_def bump_daily_def store_schedule_def split: prod.split)

lemma record_review_cards:
  "\<exists>state due. rv_cards (record_review fo params uid db c e) = rv_cards db
     \<or> rv_cards (record_review fo params uid db c e)
         = map (\<lambda>x. if rc_id x = se_card e \<and> rc_user x = uid then x\<lparr>rc_state := state, rc_due := due\<rparr> else x) (rv_cards db)"
  by (auto simp: record_review_def Let_def bump_daily_def store_schedule_def split: prod.split)

lemma find_map_keys:
  "(\<And>x. P (f x) = P x) \<Longrightarrow> find P (map f xs) = map_option f (find P xs)"
  by (induction xs) auto

lemma reviewable_update:
  "reviewable (db\<lparr>rv_cards := map (\<lambda>x. if Q x then x\<lparr>rc_state := s x, rc_due := d x\<rparr> else x) (rv_cards db)\<rparr>) card_id uid
   = reviewable db card_id uid"
proof -
  let ?f = "\<lambda>x. if Q x then x\<lparr>rc_state := s x, rc_due := d x\<rparr> else x"
  have "find (\<lambda>c. rc_id c = card_id \<and> rc_user c = uid) (map ?f (rv_cards db))
      = map_option ?f (find (\<lambda>c. rc_id c = card_id \<and> rc_user c = uid) (rv_cards db))"
    by (rule find_map_keys) auto
  then show ?thesis
    by (auto simp: reviewable_def card_row_def card_source_is_current_def split: option.split)
qed

lemma reviewable_cong:
  "rv_cards db = rv_cards db' \<Longrightarrow> rv_gens db = rv_gens db' \<Longrightarrow> reviewable db i u = reviewable db' i u"
  by (simp add: reviewable_def card_row_def card_source_is_current_def split: option.split)

lemma record_review_reviewable: "reviewable (record_review fo params uid db c e) i u = reviewable db i u"
proof -
  obtain state due where "rv_cards (record_review fo params uid db c e) = rv_cards db
     \<or> rv_cards (record_review fo params uid db c e)
         = map (\<lambda>x. if rc_id x = se_card e \<and> rc_user x = uid then x\<lparr>rc_state := state, rc_due := due\<rparr> else x) (rv_cards db)"
    using record_review_cards by blast
  then show ?thesis
  proof
    assume "rv_cards (record_review fo params uid db c e) = rv_cards db"
    then show ?thesis by (rule reviewable_cong) simp
  next
    assume upd: "rv_cards (record_review fo params uid db c e)
         = map (\<lambda>x. if rc_id x = se_card e \<and> rc_user x = uid then x\<lparr>rc_state := state, rc_due := due\<rparr> else x) (rv_cards db)"
    have "reviewable (record_review fo params uid db c e) i u
      = reviewable (db\<lparr>rv_cards := map (\<lambda>x. if rc_id x = se_card e \<and> rc_user x = uid
                                      then x\<lparr>rc_state := state, rc_due := due\<rparr> else x) (rv_cards db)\<rparr>) i u"
      by (rule reviewable_cong) (simp_all add: upd)
    then show ?thesis by (simp only: reviewable_update)
  qed
qed

lemma has_key_record: "has_key (record_review fo params uid db c e) u k \<longleftrightarrow> has_key db u k \<or> u = uid \<and> k = se_key e"
  by (auto simp: has_key_def record_review_logs)

section \<open>Batches\<close>


text \<open>An invariant of the tables that every step and the other requests keep holds at the end.\<close>

lemma sync_loop_invariant:
  assumes step: "\<And>db c e. I db \<Longrightarrow> \<not> has_key db uid (se_key e) \<Longrightarrow> card_row db (se_card e) uid = Some c \<Longrightarrow>
        I (record_review fo params uid db c e)"
    and others: "\<And>n db. I db \<Longrightarrow> I (f n db)" and start: "I (sy_db st)"
  shows "I (sy_db (sync_loop fo params uid f n st es))"
  using start
proof (induction es arbitrary: n st)
  case (Cons e es)
  let ?st = "st\<lparr>sy_db := f n (sy_db st)\<rparr>"
  have ok: "I (sy_db ?st)" using others Cons.prems by simp
  have "I (sy_db (sync_event_step fo params uid ?st e))"
  proof (rule sync_event_cases [of fo params uid ?st e])
    fix c assume "sync_event_step fo params uid ?st e
        = ?st\<lparr>sy_applied := insert (se_key e) (sy_applied ?st), sy_db := record_review fo params uid (sy_db ?st) c e,
             sy_synced := sy_synced ?st + 1\<rparr>"
      and "card_row (sy_db ?st) (se_card e) uid = Some c" and "\<not> has_key (sy_db ?st) uid (se_key e)"
    then show ?thesis using step [OF ok] by simp
  qed (use ok in simp_all)
  then show ?case using Cons.IH by simp
qed simp







text \<open>What belongs to the other users.\<close>

definition others :: "int \<Rightarrow> review_db \<Rightarrow> rcard list \<times> rlog list \<times> (int \<times> int \<Rightarrow> int option option)" where
  "others uid db = (filter (\<lambda>c. rc_user c \<noteq> uid) (rv_cards db), filter (\<lambda>l. rl_user l \<noteq> uid) (rv_logs db),
     (\<lambda>(u, d). if u = uid then None else rv_daily db (u, d)))"

lemma others_record: "others uid (record_review fo params uid db c e) = others uid db"
proof -
  obtain state due where "rv_cards (record_review fo params uid db c e) = rv_cards db
     \<or> rv_cards (record_review fo params uid db c e)
         = map (\<lambda>x. if rc_id x = se_card e \<and> rc_user x = uid then x\<lparr>rc_state := state, rc_due := due\<rparr> else x) (rv_cards db)"
    using record_review_cards by blast
  moreover have "filter (\<lambda>c. rc_user c \<noteq> uid)
      (map (\<lambda>x. if rc_id x = i \<and> rc_user x = uid then x\<lparr>rc_state := state, rc_due := due\<rparr> else x) cs)
    = filter (\<lambda>c. rc_user c \<noteq> uid) cs" for i and cs :: "rcard list"
    by (induction cs) auto
  moreover have "(\<lambda>(u, d). if u = uid then None else rv_daily (record_review fo params uid db c e) (u, d))
      = (\<lambda>(u, d). if u = uid then None else rv_daily db (u, d))"
    by (auto simp: record_review_daily bump_daily_def fun_eq_iff)
  ultimately show ?thesis
    by (auto simp: others_def record_review_logs)
qed

text \<open>Recording never forgets a key and never changes which cards can be reviewed.\<close>

definition later :: "review_db \<Rightarrow> review_db \<Rightarrow> bool" where
  "later db db' \<longleftrightarrow> (\<forall>u k. has_key db u k \<longrightarrow> has_key db' u k) \<and> (\<forall>i u. reviewable db' i u = reviewable db i u)"

lemma later_refl [simp]: "later db db"
  by (simp add: later_def)

lemma later_trans: "later db db1 \<Longrightarrow> later db1 db2 \<Longrightarrow> later db db2"
  by (simp add: later_def)

lemma sync_event_later: "later (sy_db st) (sy_db (sync_event_step fo params uid st e))"
  by (rule sync_event_cases [of fo params uid st e])
    (simp_all add: later_def has_key_record record_review_reviewable)

abbreviation quiet :: "nat \<Rightarrow> review_db \<Rightarrow> review_db" where
  "quiet \<equiv> \<lambda>_ db. db"

lemma sync_loop_later: "later (sy_db st) (sy_db (sync_loop fo params uid quiet n st es))"
proof (induction es arbitrary: n st)
  case (Cons e es)
  then show ?case by (auto intro: later_trans [OF sync_event_later])
qed simp

text \<open>
  Replaying against the final tables: what the first run knew or skipped, the second run knows or
  skips; what the first run recorded, the second run knows.
\<close>

lemma sync_loop_replay:
  assumes "sy_db (sync_loop fo params uid quiet n st1 es) = final" and "sy_db st2 = final"
    and "sy_applied st1 \<subseteq> sy_applied st2"
    and "\<And>k. k \<in> set (map se_key es) \<Longrightarrow> has_key final uid k \<Longrightarrow> k \<in> sy_applied st2"
  shows "sy_db (sync_loop fo' params' uid quiet n st2 es) = final
    \<and> sy_synced (sync_loop fo' params' uid quiet n st2 es) = sy_synced st2"
  using assms
proof (induction es arbitrary: n st1 st2)
  case (Cons e es)
  let ?s1 = "sync_event_step fo params uid st1 e" and ?s2 = "sync_event_step fo' params' uid st2 e"
  have final: "sy_db (sync_loop fo params uid quiet (Suc n) ?s1 es) = final" using Cons.prems(1) by simp
  have upto: "later (sy_db st1) final"
    using Cons.prems(1) sync_loop_later [of st1 fo params uid n "e # es"] by simp
  have mid: "later (sy_db ?s1) final"
    using final sync_loop_later [of ?s1 fo params uid "Suc n" es] by simp
  have "sy_db ?s2 = final \<and> sy_synced ?s2 = sy_synced st2 \<and> sy_applied ?s1 \<subseteq> sy_applied ?s2
      \<and> sy_applied st2 \<subseteq> sy_applied ?s2"
  proof (cases "se_key e \<in> sy_applied st2")
    case True
    then have s2: "?s2 = st2\<lparr>sy_already := sy_already st2 + 1\<rparr>" by (simp add: sync_event_step_def)
    have "sy_applied ?s1 \<subseteq> insert (se_key e) (sy_applied st1)"
      by (rule sync_event_cases [of fo params uid st1 e]) auto
    with True Cons.prems s2 show ?thesis by auto
  next
    case new2: False
    then have new1: "se_key e \<notin> sy_applied st1" using Cons.prems(3) by blast
    have unlogged: "\<not> has_key final uid (se_key e)" using Cons.prems(4) new2 by auto
    have "\<not> reviewable (sy_db st1) (se_card e) uid \<and> sy_applied ?s1 = insert (se_key e) (sy_applied st1)"
    proof (rule sync_event_cases [of fo params uid st1 e])
      assume "has_key (sy_db st1) uid (se_key e)"
      then show ?thesis using upto unlogged by (auto simp: later_def)
    next
      fix c assume "?s1 = st1\<lparr>sy_applied := insert (se_key e) (sy_applied st1),
          sy_db := record_review fo params uid (sy_db st1) c e, sy_synced := sy_synced st1 + 1\<rparr>"
      then have "has_key (sy_db ?s1) uid (se_key e)" by (simp add: has_key_record)
      then show ?thesis using mid unlogged by (auto simp: later_def)
    qed (use new1 in auto)
    then have "\<not> reviewable final (se_card e) uid"
      and app1: "sy_applied ?s1 = insert (se_key e) (sy_applied st1)"
      using upto by (auto simp: later_def)
    then have "?s2 = st2\<lparr>sy_applied := insert (se_key e) (sy_applied st2), sy_skipped := sy_skipped st2 + 1\<rparr>"
      using new2 Cons.prems(2) by (auto simp: sync_event_step_def reviewable_def split: option.splits)
    then show ?thesis using app1 Cons.prems by auto
  qed
  then have "sy_db (sync_loop fo' params' uid quiet (Suc n) ?s2 es) = final
      \<and> sy_synced (sync_loop fo' params' uid quiet (Suc n) ?s2 es) = sy_synced ?s2"
    using Cons.prems(4) by (intro Cons.IH [OF final]) auto
  with \<open>sy_db ?s2 = final \<and> _\<close> show ?case by simp
qed simp

section \<open>Order\<close>

lemma prior_last_record:
  "prior_last db i uid = Some t \<Longrightarrow> \<exists>t' \<ge> t. prior_last (record_review fo params uid db c e) i uid = Some t'"
  by (auto simp: prior_last_def record_review_logs Let_def filter_empty_conv split: if_splits intro!: Max_mono)

lemma store_schedule_other: "i \<noteq> j \<Longrightarrow> card_row (store_schedule db i uid s d) j uid = card_row db j uid"
proof -
  assume "i \<noteq> j"
  then have "find (\<lambda>c. rc_id c = j \<and> rc_user c = uid)
      (map (\<lambda>c. if rc_id c = i \<and> rc_user c = uid then c\<lparr>rc_state := s, rc_due := d\<rparr> else c) cs)
    = find (\<lambda>c. rc_id c = j \<and> rc_user c = uid) cs" for cs :: "rcard list"
    by (induction cs) auto
  then show ?thesis by (simp add: card_row_def store_schedule_def)
qed

lemma record_review_card:
  assumes "se_card e = i \<Longrightarrow> \<exists>t. prior_last db i uid = Some t \<and> se_at e < t"
  shows "card_row (record_review fo params uid db c e) i uid = card_row db i uid"
proof -
  have bump: "card_row (bump_daily d u x) i uid = card_row d i uid" for d u x
    by (simp add: card_row_def bump_daily_def)
  have logs: "card_row (db\<lparr>rv_logs := ls\<rparr>) i uid = card_row db i uid" for ls
    by (simp add: card_row_def)
  show ?thesis
    using assms
    by (cases "se_card e = i") (auto simp: record_review_def Let_def bump logs store_schedule_other split: prod.split option.split)
qed

lemma sync_loop_card:
  assumes "\<forall>e \<in> set es. se_card e = i \<longrightarrow> se_at e < t" and "prior_last (sy_db st) i uid = Some t'" and "t \<le> t'"
  shows "card_row (sy_db (sync_loop fo params uid quiet n st es)) i uid = card_row (sy_db st) i uid"
  using assms
proof (induction es arbitrary: n st t')
  case (Cons e es)
  let ?s = "sync_event_step fo params uid st e"
  have "card_row (sy_db ?s) i uid = card_row (sy_db st) i uid
      \<and> (\<exists>t'' \<ge> t'. prior_last (sy_db ?s) i uid = Some t'')"
  proof (rule sync_event_cases [of fo params uid st e])
    fix c assume rec: "?s = st\<lparr>sy_applied := insert (se_key e) (sy_applied st),
          sy_db := record_review fo params uid (sy_db st) c e, sy_synced := sy_synced st + 1\<rparr>"
    have "card_row (record_review fo params uid (sy_db st) c e) i uid = card_row (sy_db st) i uid"
      by (rule record_review_card) (use Cons.prems in force)
    then show ?thesis using prior_last_record [OF Cons.prems(2)] by (simp add: rec)
  qed (use Cons.prems in auto)
  then obtain t'' where s: "card_row (sy_db ?s) i uid = card_row (sy_db st) i uid"
    "prior_last (sy_db ?s) i uid = Some t''" "t' \<le> t''" by blast
  have "card_row (sy_db (sync_loop fo params uid quiet (Suc n) ?s es)) i uid = card_row (sy_db ?s) i uid"
    by (rule Cons.IH [OF _ s(2)]) (use Cons.prems s(3) in auto)
  then show ?case using s(1) by simp
qed simp

section \<open>The streak\<close>

text \<open>The streak counts the run of days that ends today, or yesterday when the newest day is not today.\<close>

lemma streak_walk_run:
  "sorted_wrt (>) ds \<Longrightarrow>
   (\<forall>i < streak_walk e ds. e - int i \<in> set ds) \<and> e - int (streak_walk e ds) \<notin> set ds"
proof (induction ds arbitrary: e)
  case (Cons d ds)
  consider "d = e" | "d < e" | "d > e" by linarith
  then show ?case
  proof cases
    case 1
    have IH: "\<forall>i < streak_walk (e - 1) ds. e - 1 - int i \<in> set ds" "e - 1 - int (streak_walk (e - 1) ds) \<notin> set ds"
      using Cons by auto
    have "e - int i \<in> set (d # ds)" if "i < Suc (streak_walk (e - 1) ds)" for i
      using IH(1) that 1 by (cases i) (auto simp: algebra_simps)
    then show ?thesis using 1 IH(2) by (auto simp: algebra_simps)
  next
    case 2
    then show ?thesis using Cons.prems by auto
  next
    case 3
    have "streak_walk e (d # ds) = streak_walk e ds" using 3 by simp
    moreover have "e - int (streak_walk e ds) \<noteq> d" using 3 by simp
    moreover have "(\<forall>i < streak_walk e ds. e - int i \<in> set ds) \<and> e - int (streak_walk e ds) \<notin> set ds"
      using Cons by simp
    ultimately show ?thesis by auto
  qed
qed simp

section \<open>Properties\<close>








text \<open>
  Replaying a batch is idempotent: sending the same events again, to whatever scheduler settings
  are in force by then, records nothing and changes nothing.
\<close>

lemma sync_replay_idempotent:
  assumes "db' = sy_db (sync_reviews fo params quiet db events uid)"
  shows "sy_db (sync_reviews fo' params' quiet db' events uid) = db'
    \<and> sy_synced (sync_reviews fo' params' quiet db' events uid) = 0"
proof -
  let ?st1 = "\<lparr>sy_db = db, sy_applied = {k \<in> set (map se_key events). has_key db uid k},
      sy_synced = 0, sy_skipped = 0, sy_already = 0\<rparr>"
  let ?st2 = "\<lparr>sy_db = db', sy_applied = {k \<in> set (map se_key events). has_key db' uid k},
      sy_synced = 0, sy_skipped = 0, sy_already = 0\<rparr>"
  have final: "sy_db (sync_loop fo params uid quiet 0 ?st1 (sort_key se_at events)) = db'"
    using assms by (simp add: sync_reviews_def Let_def)
  have "later db db'"
    using sync_loop_later [of ?st1 fo params uid 0 "sort_key se_at events"] final by simp
  then have "sy_applied ?st1 \<subseteq> sy_applied ?st2" by (auto simp: later_def)
  then have "sy_db (sync_loop fo' params' uid quiet 0 ?st2 (sort_key se_at events)) = db'
      \<and> sy_synced (sync_loop fo' params' uid quiet 0 ?st2 (sort_key se_at events)) = sy_synced ?st2"
    by (intro sync_loop_replay [OF final]) auto
  then show ?thesis by (simp add: sync_reviews_def Let_def)
qed

text \<open>
  An offline review never rewinds scheduling. When the card already has a review newer than every
  event of the batch for that card, the batch is recorded but the card keeps its state and due time.
\<close>

lemma sync_never_rewinds:
  assumes "\<forall>e \<in> set events. se_card e = i \<longrightarrow> se_at e < t"
    and "\<exists>l \<in> set (rv_logs db). rl_card l = i \<and> rl_user l = uid \<and> t \<le> rl_at l"
  shows "card_row (sy_db (sync_reviews fo params quiet db events uid)) i uid = card_row db i uid"
proof -
  obtain l where l: "l \<in> set (rv_logs db)" "rl_card l = i" "rl_user l = uid" "t \<le> rl_at l"
    using assms(2) by blast
  let ?A = "rl_at ` {l \<in> set (rv_logs db). rl_card l = i \<and> rl_user l = uid}"
  have "rl_at l \<in> ?A" using l by blast
  then have "rl_at l \<le> Max ?A" by (intro Max_ge) auto
  moreover have "prior_last db i uid = Some (Max ?A)"
    using l by (auto simp: prior_last_def Let_def filter_empty_conv)
  ultimately show ?thesis
    using assms(1) l(4) unfolding sync_reviews_def Let_def
    by (subst sync_loop_card [where t = t and t' = "Max ?A"]) auto
qed

text \<open>
  A sync or an online review changes nothing that belongs to other users: their cards, review
  logs and daily counters stay as they are.
\<close>

lemma reviews_tenant_isolation:
  "others uid (sy_db (sync_reviews fo params quiet db events uid)) = others uid db
   \<and> (submit_review fo params db i rating dur uid now clock today = Inr db' \<longrightarrow> others uid db' = others uid db)"
proof -
  have "others uid (sy_db (sync_reviews fo params quiet db events uid)) = others uid db"
    unfolding sync_reviews_def Let_def
    by (rule sync_loop_invariant [where I = "\<lambda>d. others uid d = others uid db"]) (auto simp: others_record)
  moreover have "others uid db' = others uid db"
    if "submit_review fo params db i rating dur uid now clock today = Inr db'"
  proof -
    have upd: "filter (\<lambda>c. rc_user c \<noteq> uid)
        (map (\<lambda>x. if rc_id x = i \<and> rc_user x = uid then x\<lparr>rc_state := s, rc_due := d\<rparr> else x) cs)
      = filter (\<lambda>c. rc_user c \<noteq> uid) cs" for s d and cs :: "rcard list"
      by (induction cs) auto
    from that show ?thesis
      by (auto simp: submit_review_def others_def store_schedule_def bump_daily_def upd fun_eq_iff
          split: option.splits if_splits prod.splits)
  qed
  ultimately show ?thesis by blast
qed

text \<open>
  The streak is the exact length of the run of consecutive event days that ends today, or
  yesterday when the newest event day is not today. So a day after today, which clock skew can
  produce, makes the events of today not count.
\<close>

lemma streak_is_run:
  assumes "days \<noteq> []"
    and anchor_def: "anchor = (if Max (set days) = today then today else today - 1)"
  shows "(\<forall>i < compute_streak days today. anchor - int i \<in> set days)
    \<and> anchor - int (compute_streak days today) \<notin> set days"
proof -
  let ?ds = "rev (sorted_list_of_set (set days))"
  have set_ds: "set ?ds = set days" by simp
  have desc: "sorted_wrt (>) ?ds"
    by (simp add: sorted_wrt_rev strict_sorted_list_of_set flip: strict_sorted_iff)
  have ne: "?ds \<noteq> []" using assms(1) by (metis set_ds set_empty)
  obtain a list where ds: "?ds = a # list" using ne by (cases ?ds) auto
  have days: "set days = insert a (set list)" using set_ds unfolding ds by simp
  have "Max (set days) = a"
    unfolding days by (rule Max_eqI) (use desc in \<open>auto simp: ds\<close>)
  then have "hd ?ds = Max (set days)" by (simp only: ds list.sel)
  then show ?thesis
    using streak_walk_run [OF desc, of anchor] assms(1)
    by (auto simp: compute_streak_def anchor_def Let_def)
qed

end
