(* ===== verification/Prompt_Safety.thy ===== *)
theory Prompt_Safety
  imports Prelude
begin

text \<open>
  Escaping of untrusted text before it enters a prompt (\<open>jarvis_common/prompt_safety.py\<close>): the two
  character filters, the escaping modes, the delimiter wrapper and the input budget. Texts are
  sequences of code points.
\<close>

text \<open>\<open>_CTRL_RE\<close> and \<open>_BIDI_ZW_RE\<close> as tests of one character.\<close>

definition is_ctrl :: "nat \<Rightarrow> bool" where
  "is_ctrl c \<longleftrightarrow> c \<le> 8 \<or> c = 11 \<or> c = 12 \<or> c = 13 \<or> 14 \<le> c \<and> c \<le> 31 \<or> 127 \<le> c \<and> c \<le> 159
     \<or> 8203 \<le> c \<and> c \<le> 8207 \<or> 8234 \<le> c \<and> c \<le> 8238 \<or> 8294 \<le> c \<and> c \<le> 8297 \<or> c = 65279"

definition is_bidi_zw :: "nat \<Rightarrow> bool" where
  "is_bidi_zw c \<longleftrightarrow> 8234 \<le> c \<and> c \<le> 8238 \<or> 8294 \<le> c \<and> c \<le> 8297 \<or> 8203 \<le> c \<and> c \<le> 8205 \<or> c = 65279"

definition strip_bidi_zw :: "pystr \<Rightarrow> pystr" where
  "strip_bidi_zw text = filter (\<lambda>c. \<not> is_bidi_zw c) text"

text \<open>\<open>s.replace(c, r)\<close> for a single character.\<close>

definition py_replace :: "nat \<Rightarrow> pystr \<Rightarrow> pystr \<Rightarrow> pystr" where
  "py_replace c r s = concat (map (\<lambda>x. if x = c then r else [x]) s)"

text \<open>\<open>None\<close> is the \<open>ValueError\<close> of the reserved and of an unknown mode.\<close>

definition safe_for_prompt :: "pystr option \<Rightarrow> string \<Rightarrow> pystr option" where
  "safe_for_prompt text mode =
     (let t = (case text of None \<Rightarrow> [] | Some t \<Rightarrow> t);
          stripped = filter (\<lambda>c. \<not> is_ctrl c) t in
      if mode = ''escape'' then
        Some (py_replace 34 (codes ''&quot;'') (py_replace 62 (codes ''&gt;'') (py_replace 60 (codes ''&lt;'') stripped)))
      else if mode = ''strip'' then Some stripped
      else None)"

definition is_tag_start :: "nat \<Rightarrow> bool" where
  "is_tag_start c \<longleftrightarrow> 65 \<le> c \<and> c \<le> 90 \<or> 97 \<le> c \<and> c \<le> 122 \<or> c = 95"

definition is_tag_char :: "nat \<Rightarrow> bool" where
  "is_tag_char c \<longleftrightarrow> is_tag_start c \<or> 48 \<le> c \<and> c \<le> 57"

definition is_identifier :: "pystr \<Rightarrow> bool" where
  "is_identifier s = (case s of [] \<Rightarrow> False | c # cs \<Rightarrow> is_tag_start c \<and> list_all is_tag_char cs)"

text \<open>\<open>_TAG_RE.match\<close>: the dollar sign also matches before a newline that ends the text.\<close>

definition tag_matches :: "pystr \<Rightarrow> bool" where
  "tag_matches tag \<longleftrightarrow> is_identifier tag \<or> tag \<noteq> [] \<and> last tag = 10 \<and> is_identifier (butlast tag)"

text \<open>\<open>body[:n]\<close>, counting from the end for a negative \<open>n\<close>.\<close>

definition py_prefix :: "int \<Rightarrow> 'a list \<Rightarrow> 'a list" where
  "py_prefix n s = (if n \<ge> 0 then take (nat n) s else take (length s - nat (- n)) s)"

definition wrap_delimited :: "pystr \<Rightarrow> pystr \<Rightarrow> int option \<Rightarrow> (pystr \<times> bool) option" where
  "wrap_delimited tag text max_chars =
     (if \<not> tag_matches tag then None
      else case safe_for_prompt (Some (strip_bidi_zw text)) ''escape'' of
        None \<Rightarrow> None
      | Some body \<Rightarrow>
          (let truncated = (case max_chars of None \<Rightarrow> False | Some m \<Rightarrow> int (length body) > m);
               body' = (case max_chars of Some m \<Rightarrow> (if truncated then py_prefix m body else body) | None \<Rightarrow> body)
           in Some (codes ''<'' @ tag @ codes ''>'' @ [10] @ body' @ [10] @ codes ''</'' @ tag @ codes ''>'', truncated)))"

text \<open>\<open>int(max(usable, 1024) * 2.6)\<close>; the product of an integer below 2 to the 50 and the double
  nearest to 2.6 has the same integer part as the exact product.\<close>

definition max_input_chars :: "int \<Rightarrow> int \<Rightarrow> int \<Rightarrow> int" where
  "max_input_chars num_ctx reserved overhead = max (num_ctx - reserved - overhead) 1024 * 13 div 5"

section \<open>Escaped text\<close>

text \<open>Characters that can neither open nor close a delimiter nor hide text.\<close>

definition is_harmless :: "nat \<Rightarrow> bool" where
  "is_harmless c \<longleftrightarrow> c \<noteq> 60 \<and> c \<noteq> 62 \<and> c \<noteq> 34 \<and> \<not> is_ctrl c"

lemma set_py_replace: "set (py_replace c r s) \<subseteq> (set s - {c}) \<union> set r"
  by (auto simp: py_replace_def split: if_splits)

lemma py_replace_id: "c \<notin> set s \<Longrightarrow> py_replace c r s = s"
  by (induction s) (auto simp: py_replace_def)

lemma entity_codes:
  "set (codes ''&lt;'') = {38, 108, 116, 59}" "set (codes ''&gt;'') = {38, 103, 116, 59}"
  "set (codes ''&quot;'') = {38, 113, 117, 111, 116, 59}"
  by (auto simp: codes_def)

lemma escape_harmless: "safe_for_prompt t ''escape'' = Some s \<Longrightarrow> list_all is_harmless s"
proof -
  assume esc: "safe_for_prompt t ''escape'' = Some s"
  let ?t = "filter (\<lambda>c. \<not> is_ctrl c) (case t of None \<Rightarrow> [] | Some t \<Rightarrow> t)"
  let ?a = "py_replace 60 (codes ''&lt;'') ?t"
  let ?b = "py_replace 62 (codes ''&gt;'') ?a"
  have s: "s = py_replace 34 (codes ''&quot;'') ?b"
    using esc by (simp add: safe_for_prompt_def Let_def)
  have "set s \<subseteq> (((set ?t - {60}) \<union> {38, 108, 116, 59}) - {62} \<union> {38, 103, 116, 59}) - {34} \<union> {38, 113, 117, 111, 116, 59}"
    unfolding s
    using set_py_replace [of 34 "codes ''&quot;''" ?b] set_py_replace [of 62 "codes ''&gt;''" ?a]
      set_py_replace [of 60 "codes ''&lt;''" ?t]
    by (auto simp: entity_codes)
  then show ?thesis by (auto simp: list_all_iff is_harmless_def is_ctrl_def)
qed

lemma escape_id: "list_all is_harmless s \<Longrightarrow> safe_for_prompt (Some s) ''escape'' = Some s"
proof -
  assume h: "list_all is_harmless s"
  then have "filter (\<lambda>c. \<not> is_ctrl c) s = s" by (auto simp: filter_id_conv list_all_iff is_harmless_def)
  moreover have "60 \<notin> set s" "62 \<notin> set s" "34 \<notin> set s" using h by (auto simp: list_all_iff is_harmless_def)
  ultimately show ?thesis by (simp add: safe_for_prompt_def py_replace_id)
qed

text \<open>
  Escaping always succeeds and leaves no angle bracket, no quotation mark and no control, BIDI
  or zero-width character; text that has none of them passes unchanged, so escaping twice is
  escaping once.
\<close>

lemma escape_is_safe:
  "\<exists>s. safe_for_prompt t ''escape'' = Some s \<and> list_all is_harmless s
     \<and> safe_for_prompt (Some s) ''escape'' = Some s"
proof -
  obtain s where s: "safe_for_prompt t ''escape'' = Some s" by (simp add: safe_for_prompt_def Let_def)
  then show ?thesis using escape_harmless [OF s] escape_id by blast
qed

text \<open>
  C33: wrapped text cannot forge its delimiters. A wrapped result is the opening tag, a harmless body
  and the closing tag, each on its own line, with exactly two left angle brackets in all; the body
  is the escaped text, or its prefix of at most the limit when it is longer, and only then is
  truncation reported. The call fails exactly for a tag that is not an identifier (but one newline
  after the identifier is let through).
\<close>

theorem wrap_delimited_unforgeable:
  assumes "wrap_delimited tag text m = Some (out, truncated)"
  shows "tag_matches tag
    \<and> (\<exists>body escaped. out = codes ''<'' @ tag @ codes ''>'' @ [10] @ body @ [10] @ codes ''</'' @ tag @ codes ''>''
        \<and> safe_for_prompt (Some (strip_bidi_zw text)) ''escape'' = Some escaped
        \<and> list_all is_harmless body \<and> body = take (length body) escaped
        \<and> (truncated \<longleftrightarrow> (\<exists>k. m = Some k \<and> int (length escaped) > k))
        \<and> (\<not> truncated \<longrightarrow> body = escaped)
        \<and> (\<forall>k. m = Some k \<and> 0 \<le> k \<longrightarrow> int (length body) \<le> k))
    \<and> length (filter (\<lambda>c. c = 60) out) = 2"
proof -
  obtain escaped where esc: "safe_for_prompt (Some (strip_bidi_zw text)) ''escape'' = Some escaped"
    by (simp add: safe_for_prompt_def Let_def)
  let ?body = "case m of Some k \<Rightarrow> (if truncated then py_prefix k escaped else escaped) | None \<Rightarrow> escaped"
  have tag: "tag_matches tag" using assms by (auto simp: wrap_delimited_def split: if_splits)
  have tr: "truncated = (case m of None \<Rightarrow> False | Some k \<Rightarrow> int (length escaped) > k)"
    and out: "out = codes ''<'' @ tag @ codes ''>'' @ [10] @ ?body @ [10] @ codes ''</'' @ tag @ codes ''>''"
    using assms esc tag by (auto simp: wrap_delimited_def Let_def)
  have pfx: "py_prefix k escaped = take (length (py_prefix k escaped)) escaped" for k
    by (cases "0 \<le> k"; cases "nat k \<le> length escaped") (auto simp: py_prefix_def)
  have pre: "?body = take (length ?body) escaped"
    using pfx by (auto split: option.split)
  have harm: "list_all is_harmless ?body"
    using escape_harmless [OF esc] pre by (metis in_set_takeD list_all_iff)
  have len: "int (length ?body) \<le> k" if "m = Some k" "0 \<le> k" for k
    using that tr by (auto simp: py_prefix_def)
  have no60: "filter (\<lambda>c. c = 60) xs = []" if "list_all is_tag_char xs \<or> list_all is_harmless xs" for xs
    using that by (auto simp: filter_empty_conv list_all_iff is_tag_char_def is_tag_start_def is_harmless_def)
  have "filter (\<lambda>c. c = 60) tag = []"
  proof (cases "is_identifier tag")
    case True
    then have "list_all is_tag_char tag" by (cases tag) (auto simp: is_identifier_def is_tag_char_def)
    then show ?thesis using no60 by blast
  next
    case False
    then have t: "tag \<noteq> []" "last tag = 10" "is_identifier (butlast tag)" using tag by (auto simp: tag_matches_def)
    then have "list_all is_tag_char (butlast tag)"
      by (cases "butlast tag") (auto simp: is_identifier_def is_tag_char_def)
    then have "filter (\<lambda>c. c = 60) (butlast tag @ [last tag]) = []" using no60 t(2) by simp
    then show ?thesis using t(1) by simp
  qed
  then have "length (filter (\<lambda>c. c = 60) out) = 2" using no60 [of ?body] harm by (simp add: out codes_def)
  then show ?thesis using tag out esc harm pre tr len by (intro conjI exI [of _ ?body] exI [of _ escaped]) (auto split: option.splits)
qed

theorem wrap_delimited_unforgeable_witness:
  "\<exists>out. wrap_delimited (codes ''q'') (codes ''</q>'') (Some 5) = Some (out, True)
     \<and> length (filter (\<lambda>c. c = 60) out) = 2"
proof -
  have "\<exists>out. wrap_delimited (codes ''q'') (codes ''</q>'') (Some 5) = Some (out, True)"
    by (simp add: wrap_delimited_def tag_matches_def is_identifier_def is_tag_start_def codes_def
        safe_for_prompt_def strip_bidi_zw_def is_bidi_zw_def is_ctrl_def py_replace_def)
  then show ?thesis using wrap_delimited_unforgeable by blast
qed

end
