(* ===== verification/Quote_Verify.thy ===== *)
theory Quote_Verify
  imports Prelude
begin

text \<open>
  Verification of quotes that a language model claims to have found in a paper
  (\<open>jarvis_common/verify.py\<close>): normalisation, exact and fuzzy matching, the evidence attached to a
  verified quote and the confidence of a summary. Texts are sequences of code points. The Unicode
  tables (NFKD, lower case, alphanumeric) and the fuzzy scorer of rapidfuzz are parameters; scores
  are real numbers.
\<close>

section \<open>Python strings\<close>

text \<open>\<open>s.find(t)\<close>, with \<open>None\<close> for -1, and \<open>t in s\<close>.\<close>

definition py_find :: "pystr \<Rightarrow> pystr \<Rightarrow> nat option" where
  "py_find t s = find (\<lambda>i. take (length t) (drop i s) = t) [0..<Suc (length s)]"

definition py_in :: "pystr \<Rightarrow> pystr \<Rightarrow> bool" where
  "py_in t s \<longleftrightarrow> py_find t s \<noteq> None"

text \<open>\<open>s.split()\<close>: the maximal runs of characters that are not white space.\<close>

function py_words :: "pystr \<Rightarrow> pystr list" where
  "py_words [] = []"
| "py_words (c # cs) =
     (if py_isspace c then py_words cs
      else (c # takeWhile (\<lambda>x. \<not> py_isspace x) cs) # py_words (dropWhile (\<lambda>x. \<not> py_isspace x) cs))"
  by pat_completeness auto
termination
  by (relation "measure length") (auto simp: le_imp_less_Suc length_dropWhile_le)

fun py_join :: "pystr \<Rightarrow> pystr list \<Rightarrow> pystr" where
  "py_join sep [] = []"
| "py_join sep [w] = w"
| "py_join sep (w # v # ws) = w @ sep @ py_join sep (v # ws)"

lemma take_eq_selfD: "take (length t) (drop i s) = t \<Longrightarrow> i \<le> length s \<Longrightarrow> i + length t \<le> length s"
  by (metis add.commute le_diff_conv2 length_drop length_take min.cobounded1)

lemma py_find_SomeD:
  assumes "py_find t s = Some i"
  shows "i + length t \<le> length s" "take (length t) (drop i s) = t"
    "j < i \<Longrightarrow> take (length t) (drop j s) \<noteq> t"
proof -
  obtain n where n: "n < length [0..<Suc (length s)]" "i = [0..<Suc (length s)] ! n"
      "take (length t) (drop i s) = t" "\<And>m. m < n \<Longrightarrow> \<not> take (length t) (drop ([0..<Suc (length s)] ! m) s) = t"
    using assms unfolding py_find_def find_Some_iff by blast
  have i: "i = n" "n \<le> length s" using n(1,2) by (auto simp del: upt_Suc)
  show "take (length t) (drop i s) = t" by (rule n(3))
  show "i + length t \<le> length s" using take_eq_selfD [OF n(3)] i by simp
  show "take (length t) (drop j s) \<noteq> t" if "j < i" using n(4) [of j] that i by (auto simp del: upt_Suc)
qed

lemma py_in_iff: "py_in t s \<longleftrightarrow> (\<exists>a b. s = a @ t @ b)"
proof
  assume "py_in t s"
  then obtain i where "py_find t s = Some i" by (auto simp: py_in_def)
  then have "take (length t) (drop i s) = t" by (rule py_find_SomeD)
  then have "s = take i s @ t @ drop (length t) (drop i s)" by (metis append_take_drop_id)
  then show "\<exists>a b. s = a @ t @ b" by blast
next
  assume "\<exists>a b. s = a @ t @ b"
  then obtain a b where "s = a @ t @ b" by blast
  then have "length a \<in> set [0..<Suc (length s)]" "take (length t) (drop (length a) s) = t" by auto
  then show "py_in t s" unfolding py_in_def py_find_def find_None_iff by blast
qed

section \<open>Normalisation\<close>

record text_env =
  nfkd :: "pystr \<Rightarrow> pystr"
  lower :: "pystr \<Rightarrow> pystr"
  isalnum :: "nat \<Rightarrow> bool"
  partial_ratio :: "pystr \<Rightarrow> pystr \<Rightarrow> real"

definition normalize :: "text_env \<Rightarrow> pystr \<Rightarrow> pystr" where
  "normalize E text = py_join [32] (py_words (lower E (nfkd E text)))"

definition quote_pairs :: "(nat \<times> nat) list" where
  "quote_pairs = [(34, 34), (39, 39), (8220, 8221), (8216, 8217), (171, 187), (8249, 8250)]"

definition is_wrapped :: "pystr \<Rightarrow> bool" where
  "is_wrapped s \<longleftrightarrow> length s \<ge> 2 \<and> list_ex (\<lambda>(l, r). hd s = l \<and> last s = r) quote_pairs"

text \<open>The loop removes one pair of quotation marks and strips, until no pair is left.\<close>

lemma length_py_strip: "length (py_strip s) \<le> length s"
  by (metis length_dropWhile_le length_rev order_trans py_strip_def)

function strip_wrappers_loop :: "pystr \<Rightarrow> pystr" where
  "strip_wrappers_loop s =
     (if is_wrapped s then strip_wrappers_loop (py_strip (butlast (tl s))) else s)"
  by pat_completeness auto
termination
proof (relation "measure length")
  show "wf (measure length)" by simp
  fix s :: pystr
  assume "is_wrapped s"
  then have "length (butlast (tl s)) < length s" by (auto simp: is_wrapped_def)
  then show "(py_strip (butlast (tl s)), s) \<in> measure length"
    using length_py_strip [of "butlast (tl s)"] by simp
qed

declare strip_wrappers_loop.simps [simp del]

definition strip_surrounding_quote_wrappers :: "pystr \<Rightarrow> pystr" where
  "strip_surrounding_quote_wrappers text = strip_wrappers_loop (py_strip text)"

definition match_char :: "nat \<Rightarrow> nat" where
  "match_char c =
     (if c \<in> {8216, 8217, 8218, 8219} then 39
      else if c \<in> {8220, 8221, 8222, 8223} then 34
      else if c \<in> {8208, 8209, 8210, 8211, 8212, 8722} then 45
      else c)"

definition normalize_for_match :: "text_env \<Rightarrow> pystr \<Rightarrow> pystr" where
  "normalize_for_match E text = normalize E (map match_char (strip_surrounding_quote_wrappers text))"

lemma py_strip_Nil [simp]: "py_strip [] = []"
  by (simp add: py_strip_def)

lemma py_strip_ends:
  "py_strip s \<noteq> [] \<Longrightarrow> \<not> py_isspace (hd (py_strip s)) \<and> \<not> py_isspace (last (py_strip s))"
proof -
  let ?a = "dropWhile py_isspace s" and ?P = py_isspace
  assume ne: "py_strip s \<noteq> []"
  then have b: "dropWhile ?P (rev ?a) \<noteq> []" by (simp add: py_strip_def)
  have "\<not> ?P (last (py_strip s))"
    using b by (simp add: py_strip_def last_rev hd_dropWhile)
  moreover have "hd (py_strip s) = hd ?a"
  proof -
    obtain p where "rev ?a = p @ dropWhile ?P (rev ?a)" by (metis takeWhile_dropWhile_id)
    then have "?a = py_strip s @ rev p" by (metis py_strip_def rev_append rev_rev_ident)
    then show ?thesis using ne by (metis hd_append2)
  qed
  moreover have "?a \<noteq> []" using ne unfolding py_strip_def by (metis dropWhile.simps(1) rev.simps(1))
  ultimately show ?thesis using hd_dropWhile by metis
qed

lemma py_strip_eq_Nil: "py_strip s = [] \<longleftrightarrow> list_all py_isspace s"
proof -
  have "\<not> list_all py_isspace (dropWhile py_isspace s)" if "dropWhile py_isspace s \<noteq> []"
    using that hd_dropWhile [of py_isspace s] by (cases "dropWhile py_isspace s") auto
  then have "list_all py_isspace (dropWhile py_isspace s) \<longleftrightarrow> dropWhile py_isspace s = []"
    by (metis list.pred_inject(1))
  then show ?thesis by (auto simp: py_strip_def list_all_iff)
qed

lemma dropWhile_id: "xs \<noteq> [] \<Longrightarrow> \<not> P (hd xs) \<Longrightarrow> dropWhile P xs = xs"
  by (cases xs) auto

lemma py_strip_id: "s \<noteq> [] \<Longrightarrow> \<not> py_isspace (hd s) \<Longrightarrow> \<not> py_isspace (last s) \<Longrightarrow> py_strip s = s"
  by (simp add: py_strip_def dropWhile_id hd_rev)

lemma py_strip_idem [simp]: "py_strip (py_strip s) = py_strip s"
  using py_strip_ends py_strip_id by (cases "py_strip s = []") auto

lemma strip_wrappers_loop_out:
  "py_strip s = s \<Longrightarrow> \<not> is_wrapped (strip_wrappers_loop s) \<and> py_strip (strip_wrappers_loop s) = strip_wrappers_loop s"
proof (induction s rule: strip_wrappers_loop.induct)
  case (1 s)
  then show ?case by (cases "is_wrapped s") (simp_all add: strip_wrappers_loop.simps [of s])
qed

text \<open>
  Removing quotation marks around a quote ends for every text and is complete: the result has
  no white space at its ends and is not enclosed in any of the six pairs, so removing them again
  changes nothing.
\<close>

lemma wrappers_removed:
  "\<not> is_wrapped (strip_surrounding_quote_wrappers s)
   \<and> py_strip (strip_surrounding_quote_wrappers s) = strip_surrounding_quote_wrappers s
   \<and> strip_surrounding_quote_wrappers (strip_surrounding_quote_wrappers s) = strip_surrounding_quote_wrappers s"
proof -
  have "\<not> is_wrapped (strip_wrappers_loop (py_strip s))
    \<and> py_strip (strip_wrappers_loop (py_strip s)) = strip_wrappers_loop (py_strip s)"
    by (rule strip_wrappers_loop_out) simp
  then show ?thesis by (simp add: strip_surrounding_quote_wrappers_def strip_wrappers_loop.simps [of "strip_wrappers_loop (py_strip s)"])
qed

section \<open>Verification of one quote\<close>

record chunk =
  ck_id :: int
  ck_index :: "int option"
  ck_content :: pystr
  ck_page :: "int option"

datatype match_type = Exact | Fuzzy

record verification_result =
  vr_quote :: pystr
  vr_verified :: bool
  vr_match :: "match_type option"
  vr_score :: "real option"
  vr_text :: "pystr option"
  vr_chunk_id :: "int option"
  vr_chunk_index :: "int option"
  vr_page :: "int option"
  vr_span :: "nat option"

definition unverified :: "pystr \<Rightarrow> real option \<Rightarrow> verification_result" where
  "unverified quote score = \<lparr>vr_quote = quote, vr_verified = False, vr_match = None, vr_score = score,
     vr_text = None, vr_chunk_id = None, vr_chunk_index = None, vr_page = None, vr_span = None\<rparr>"

definition find_chunk_for_quote :: "text_env \<Rightarrow> pystr \<Rightarrow> chunk list \<Rightarrow> int option \<times> int option \<times> int option" where
  "find_chunk_for_quote E quote chunks =
     (let nq = normalize_for_match E quote in
      if nq = [] \<or> \<not> list_ex (isalnum E) nq then (None, None, None)
      else case find (\<lambda>c. py_in nq (normalize_for_match E (ck_content c))) chunks of
             None \<Rightarrow> (None, None, None)
           | Some c \<Rightarrow> (Some (ck_id c), ck_index c, ck_page c))"

text \<open>The fuzzy loop keeps the first chunk with the best score and stops at a perfect one.\<close>

fun best_chunk_loop :: "text_env \<Rightarrow> pystr \<Rightarrow> chunk list \<Rightarrow> real \<Rightarrow> chunk option \<Rightarrow> real \<times> chunk option" where
  "best_chunk_loop E nq [] best bc = (best, bc)"
| "best_chunk_loop E nq (c # cs) best bc =
     (let score = partial_ratio E nq (normalize_for_match E (ck_content c)) in
      if score > best then (if score = 100 then (score, Some c) else best_chunk_loop E nq cs score (Some c))
      else best_chunk_loop E nq cs best bc)"

definition fuzzy_threshold :: real where
  "fuzzy_threshold = 97"

definition verify_quote :: "text_env \<Rightarrow> pystr \<Rightarrow> pystr \<Rightarrow> chunk list \<Rightarrow> pystr option \<Rightarrow> verification_result" where
  "verify_quote E quote0 full chunks normalized =
     (if quote0 = [] \<or> py_strip quote0 = [] then unverified quote0 None
      else
        let quote = (if length quote0 > 5000 then take 5000 quote0 else quote0);
            nq = normalize_for_match E quote
        in if nq = [] \<or> \<not> list_ex (isalnum E) nq then unverified quote None
           else
             let nfull = (case normalized of None \<Rightarrow> normalize_for_match E full | Some n \<Rightarrow> n)
             in if py_in nq nfull then
                  let (cid, cix, page) = find_chunk_for_quote E quote chunks
                  in \<lparr>vr_quote = quote, vr_verified = True, vr_match = Some Exact, vr_score = Some 1,
                      vr_text = Some quote, vr_chunk_id = cid, vr_chunk_index = cix, vr_page = page,
                      vr_span = py_find quote full\<rparr>
                else
                  let (best, bc) = best_chunk_loop E nq chunks 0 None
                  in case (if best \<ge> fuzzy_threshold then bc else None) of
                       Some c \<Rightarrow>
                         \<lparr>vr_quote = quote, vr_verified = True, vr_match = Some Fuzzy, vr_score = Some (best / 100),
                          vr_text = Some (ck_content c), vr_chunk_id = Some (ck_id c), vr_chunk_index = ck_index c,
                          vr_page = ck_page c, vr_span = py_find (ck_content c) full\<rparr>
                     | None \<Rightarrow> unverified quote (if best > 0 then Some (best / 100) else None))"

subsection \<open>What the fuzzy loop finds\<close>

abbreviation chunk_score :: "text_env \<Rightarrow> pystr \<Rightarrow> chunk \<Rightarrow> real" where
  "chunk_score E nq c \<equiv> partial_ratio E nq (normalize_for_match E (ck_content c))"

lemma best_chunk_loop_cases:
  "best_chunk_loop E nq cs b bc = (b', bc') \<Longrightarrow>
     (b' = b \<and> bc' = bc \<and> list_all (\<lambda>c. chunk_score E nq c \<le> b) cs)
     \<or> (b' > b \<and> (\<exists>c \<in> set cs. bc' = Some c \<and> b' = chunk_score E nq c)
        \<and> (b' = 100 \<or> list_all (\<lambda>c. chunk_score E nq c \<le> b') cs))"
proof (induction cs arbitrary: b bc)
  case (Cons c cs)
  show ?case
  proof (cases "chunk_score E nq c > b \<and> chunk_score E nq c \<noteq> 100")
    case True
    then show ?thesis using Cons.IH [of "chunk_score E nq c" "Some c"] Cons.prems
      by (force simp: Let_def)
  next
    case False
    then show ?thesis using Cons.IH [of b bc] Cons.prems by (auto simp: Let_def split: if_splits)
  qed
qed simp

lemma best_chunk_loop_threshold:
  assumes "best_chunk_loop E nq cs 0 None = (b, bc)"
  shows "b \<ge> 97 \<longleftrightarrow> (\<exists>c \<in> set cs. chunk_score E nq c \<ge> 97)"
    "b \<ge> 97 \<Longrightarrow> \<exists>c \<in> set cs. bc = Some c \<and> b = chunk_score E nq c"
    "b \<ge> 0"
proof -
  note c = best_chunk_loop_cases [OF assms]
  show "b \<ge> 97 \<Longrightarrow> \<exists>c \<in> set cs. bc = Some c \<and> b = chunk_score E nq c" using c by auto
  show "b \<ge> 97 \<longleftrightarrow> (\<exists>c \<in> set cs. chunk_score E nq c \<ge> 97)"
    using c by (fastforce simp: list_all_iff)
  show "b \<ge> 0" using c by auto
qed

lemma best_chunk_loop_max:
  assumes "best_chunk_loop E nq cs 0 None = (b, bc)" and "\<And>a c. partial_ratio E a c \<le> 100" and "c \<in> set cs"
  shows "chunk_score E nq c \<le> b"
  using best_chunk_loop_cases [OF assms(1)] assms(2,3) by (auto simp: list_all_iff)

text \<open>The quote that is really compared, and whether it can be evidence at all.\<close>

definition effective_quote :: "pystr \<Rightarrow> pystr" where
  "effective_quote q = take 5000 q"

definition comparable :: "text_env \<Rightarrow> pystr \<Rightarrow> bool" where
  "comparable E q \<longleftrightarrow> py_strip q \<noteq> [] \<and> list_ex (isalnum E) (normalize_for_match E (effective_quote q))"

lemma verify_quote_cases:
  assumes "r = verify_quote E q full chunks n" and "nq = normalize_for_match E (effective_quote q)"
    and "nfull = (case n of None \<Rightarrow> normalize_for_match E full | Some m \<Rightarrow> m)"
  shows "(\<not> comparable E q \<and> \<not> vr_verified r \<and> vr_score r = None)
    \<or> (comparable E q \<and> py_in nq nfull \<and> vr_verified r \<and> vr_match r = Some Exact \<and> vr_score r = Some 1
        \<and> vr_text r = Some (effective_quote q) \<and> vr_span r = py_find (effective_quote q) full
        \<and> (vr_chunk_id r, vr_chunk_index r, vr_page r) = find_chunk_for_quote E (effective_quote q) chunks)
    \<or> (comparable E q \<and> \<not> py_in nq nfull \<and> vr_verified r \<and> vr_match r = Some Fuzzy
        \<and> (\<exists>c b. best_chunk_loop E nq chunks 0 None = (b, Some c) \<and> b \<ge> 97 \<and> vr_score r = Some (b / 100)
              \<and> vr_text r = Some (ck_content c) \<and> vr_span r = py_find (ck_content c) full
              \<and> vr_chunk_id r = Some (ck_id c) \<and> vr_chunk_index r = ck_index c \<and> vr_page r = ck_page c))
    \<or> (comparable E q \<and> \<not> py_in nq nfull \<and> \<not> vr_verified r
        \<and> (\<exists>b bc. best_chunk_loop E nq chunks 0 None = (b, bc) \<and> b < 97
              \<and> vr_score r = (if b > 0 then Some (b / 100) else None)))"
proof -
  have eq: "(if length q > 5000 then take 5000 q else q) = effective_quote q" by (simp add: effective_quote_def)
  obtain b bc where l: "best_chunk_loop E nq chunks 0 None = (b, bc)" by fastforce
  note bc = best_chunk_loop_threshold(2) [OF l]
  show ?thesis
  proof (cases "comparable E q")
    case False
    then show ?thesis
      unfolding assms(1) verify_quote_def eq comparable_def by (auto simp: unverified_def Let_def)
  next
    case True
    then have ne: "q \<noteq> []" "py_strip q \<noteq> []" "nq \<noteq> []" "list_ex (isalnum E) nq"
      by (auto simp: comparable_def assms(2))
    have r: "r = (if py_in nq nfull then
        (case find_chunk_for_quote E (effective_quote q) chunks of (cid, cix, page) \<Rightarrow>
           \<lparr>vr_quote = effective_quote q, vr_verified = True, vr_match = Some Exact, vr_score = Some 1,
            vr_text = Some (effective_quote q), vr_chunk_id = cid, vr_chunk_index = cix, vr_page = page,
            vr_span = py_find (effective_quote q) full\<rparr>)
      else (case (if b \<ge> 97 then bc else None) of
          Some c \<Rightarrow> \<lparr>vr_quote = effective_quote q, vr_verified = True, vr_match = Some Fuzzy, vr_score = Some (b / 100),
                 vr_text = Some (ck_content c), vr_chunk_id = Some (ck_id c), vr_chunk_index = ck_index c,
                 vr_page = ck_page c, vr_span = py_find (ck_content c) full\<rparr>
        | None \<Rightarrow> unverified (effective_quote q) (if b > 0 then Some (b / 100) else None)))"
      unfolding assms(1) verify_quote_def eq using ne l
      by (simp add: assms(2,3) fuzzy_threshold_def Let_def)
    show ?thesis
    proof (cases "py_in nq nfull")
      case True
      then show ?thesis using \<open>comparable E q\<close> by (auto simp: r split: prod.split)
    next
      case False
      then show ?thesis using \<open>comparable E q\<close> bc l
        by (cases "b \<ge> 97") (auto simp: r unverified_def)
    qed
  qed
qed

section \<open>The verdict\<close>

lemma verify_quote_verified:
  "vr_verified (verify_quote E q full chunks None) \<longleftrightarrow>
     comparable E q
     \<and> (py_in (normalize_for_match E (effective_quote q)) (normalize_for_match E full)
        \<or> list_ex (\<lambda>c. chunk_score E (normalize_for_match E (effective_quote q)) c \<ge> 97) chunks)"
proof -
  let ?r = "verify_quote E q full chunks None" and ?nq = "normalize_for_match E (effective_quote q)"
  obtain b bc where l: "best_chunk_loop E ?nq chunks 0 None = (b, bc)" by fastforce
  show ?thesis
    using verify_quote_cases [of ?r E q full chunks None ?nq "normalize_for_match E full"] l
      best_chunk_loop_threshold(1) [OF l]
    by (auto simp: list_ex_iff)
qed

lemma verify_quote_normalized:
  "verify_quote E q full chunks (Some (normalize_for_match E full)) = verify_quote E q full chunks None"
  by (simp only: verify_quote_def option.case)

text \<open>
  C34: a quote is verified exactly when it has an alphanumeric character after normalisation and its
  normalised form is part of the normalised paper or scores at least 97 against the normalised text
  of some chunk; stopping the search at a perfect score never changes the verdict, and neither does
  passing the paper already normalised. Only the first 5000 characters of a quote count.
\<close>

theorem quote_verified_iff:
  "(vr_verified (verify_quote E q full chunks None) \<longleftrightarrow>
     comparable E q
     \<and> (py_in (normalize_for_match E (effective_quote q)) (normalize_for_match E full)
        \<or> list_ex (\<lambda>c. partial_ratio E (normalize_for_match E (effective_quote q)) (normalize_for_match E (ck_content c)) \<ge> 97) chunks))
   \<and> verify_quote E q full chunks (Some (normalize_for_match E full)) = verify_quote E q full chunks None"
  by (intro conjI verify_quote_verified verify_quote_normalized)

text \<open>
  The evidence attached to a verified quote: the matched text lies in the paper at the recorded
  position, if one is recorded, and nowhere before it.
\<close>

definition span_points_at :: "pystr \<Rightarrow> verification_result \<Rightarrow> bool" where
  "span_points_at full r = (case (vr_text r, vr_span r) of
       (Some t, Some i) \<Rightarrow> i + length t \<le> length full \<and> take (length t) (drop i full) = t
          \<and> list_all (\<lambda>j. take (length t) (drop j full) \<noteq> t) [0..<i]
     | (Some t, None) \<Rightarrow> \<not> py_in t full
     | (None, s) \<Rightarrow> s = None)"

lemma span_points_at_find: "vr_text r = Some t \<Longrightarrow> vr_span r = py_find t full \<Longrightarrow> span_points_at full r"
  using py_find_SomeD [of t full]
  by (cases "py_find t full") (auto simp: span_points_at_def py_in_def list_all_iff)

lemma find_chunk_for_quote_SomeD:
  assumes "(Some i, ix, pg) = find_chunk_for_quote E q chunks"
  shows "\<exists>c \<in> set chunks. i = ck_id c \<and> ix = ck_index c \<and> pg = ck_page c
    \<and> py_in (normalize_for_match E q) (normalize_for_match E (ck_content c))"
  using assms
  by (auto simp: find_chunk_for_quote_def Let_def find_Some_iff split: if_splits option.splits)

text \<open>
  A verified quote always carries evidence. Its matched text is located in the paper exactly
  where the first occurrence is, and the chunk it names is one of the given chunks: for an exact
  match one whose normalised text contains the quote, for a fuzzy match one that scores at least 97,
  at least as high as every other chunk, and whose whole content is the matched text.
\<close>

lemma verified_quote_evidence:
  assumes "\<And>a c. partial_ratio E a c \<le> 100"
    and "r = verify_quote E q full chunks None" and "nq = normalize_for_match E (effective_quote q)"
    and "vr_verified r"
  shows "span_points_at full r
    \<and> (vr_match r = Some Exact \<and> vr_score r = Some 1 \<and> py_in nq (normalize_for_match E full)
         \<and> (\<forall>i. vr_chunk_id r = Some i \<longrightarrow> (\<exists>c \<in> set chunks. ck_id c = i \<and> vr_chunk_index r = ck_index c
               \<and> vr_page r = ck_page c \<and> py_in nq (normalize_for_match E (ck_content c))))
     \<or> vr_match r = Some Fuzzy
         \<and> (\<exists>c \<in> set chunks. vr_chunk_id r = Some (ck_id c) \<and> vr_text r = Some (ck_content c)
               \<and> vr_chunk_index r = ck_index c \<and> vr_page r = ck_page c
               \<and> vr_score r = Some (partial_ratio E nq (normalize_for_match E (ck_content c)) / 100)
               \<and> partial_ratio E nq (normalize_for_match E (ck_content c)) \<ge> 97
               \<and> (\<forall>d \<in> set chunks. partial_ratio E nq (normalize_for_match E (ck_content d))
                     \<le> partial_ratio E nq (normalize_for_match E (ck_content c)))))"
    (is "_ \<and> (?exact \<or> ?fuzzy)")
proof -
  note cases = verify_quote_cases [OF assms(2,3) refl]
  consider (exact) "vr_match r = Some Exact" | (fuzzy) "vr_match r = Some Fuzzy" using cases assms(4) by blast
  then show ?thesis
  proof cases
    case exact
    then have e: "vr_score r = Some 1" "py_in nq (normalize_for_match E full)"
        "vr_text r = Some (effective_quote q)" "vr_span r = py_find (effective_quote q) full"
        "(vr_chunk_id r, vr_chunk_index r, vr_page r) = find_chunk_for_quote E (effective_quote q) chunks"
      using cases assms(4) by auto
    have ?exact using exact e(1,2,5) find_chunk_for_quote_SomeD [of _ _ _ E "effective_quote q" chunks]
      by (metis assms(3))
    then show ?thesis using span_points_at_find [OF e(3,4)] by blast
  next
    case fuzzy
    then obtain c b where l: "best_chunk_loop E nq chunks 0 None = (b, Some c)" and f: "b \<ge> 97"
        "vr_score r = Some (b / 100)" "vr_text r = Some (ck_content c)" "vr_span r = py_find (ck_content c) full"
        "vr_chunk_id r = Some (ck_id c)" "vr_chunk_index r = ck_index c" "vr_page r = ck_page c"
      using cases assms(4) by auto
    have "c \<in> set chunks" "b = chunk_score E nq c" using best_chunk_loop_threshold(2) [OF l f(1)] by auto
    then have ?fuzzy using fuzzy f best_chunk_loop_max [OF l assms(1)] by auto
    then show ?thesis using span_points_at_find [OF f(3,4)] by blast
  qed
qed

text \<open>A concrete environment: ASCII letters and digits, and a scorer that knows only containment.\<close>

definition ascii_lower :: "nat \<Rightarrow> nat" where
  "ascii_lower c = (if 65 \<le> c \<and> c \<le> 90 then c + 32 else c)"

definition ascii_env :: text_env where
  "ascii_env = \<lparr>nfkd = id, lower = map ascii_lower,
     isalnum = (\<lambda>c. 48 \<le> c \<and> c \<le> 57 \<or> 97 \<le> c \<and> c \<le> 122),
     partial_ratio = (\<lambda>a b. if a \<noteq> [] \<and> py_in a b \<or> b \<noteq> [] \<and> py_in b a then 100 else 0)\<rparr>"

lemma strip_wrappers_loop_id: "\<not> is_wrapped s \<Longrightarrow> strip_wrappers_loop s = s"
  by (simp add: strip_wrappers_loop.simps [of s])

lemmas ascii_eval = codes_def ascii_env_def ascii_lower_def normalize_for_match_def normalize_def
  strip_surrounding_quote_wrappers_def strip_wrappers_loop_id is_wrapped_def quote_pairs_def
  py_strip_def py_isspace_def match_char_def

lemma ascii_bc: "normalize_for_match ascii_env (codes ''b c'') = [98, 32, 99]"
  by (simp add: ascii_eval)

lemma ascii_Abc: "normalize_for_match ascii_env (codes ''A b c'') = [97, 32, 98, 32, 99]"
  by (simp add: ascii_eval)

definition sample_chunk :: chunk where
  "sample_chunk = \<lparr>ck_id = 7, ck_index = None, ck_content = codes ''A b c'', ck_page = Some 3\<rparr>"

lemma ascii_scores: "partial_ratio ascii_env a c \<le> 100"
  by (simp add: ascii_env_def)

lemma ascii_verified:
  "vr_verified (verify_quote ascii_env (codes ''b c'') (codes ''A b c'') [sample_chunk] None)"
proof -
  have "comparable ascii_env (codes ''b c'')"
    by (simp add: comparable_def effective_quote_def ascii_bc [unfolded codes_def] ascii_eval)
  moreover have "effective_quote (codes ''b c'') = codes ''b c''" by (simp add: effective_quote_def codes_def)
  moreover have "py_in [98, 32, 99] [97, 32, 98, 32, 99]" by code_simp
  ultimately show ?thesis by (simp add: verify_quote_verified ascii_bc ascii_Abc)
qed

section \<open>Verification of a summary\<close>

datatype confidence = CNone | High | Medium | Low

text \<open>The order of trust in a summary.\<close>

primrec confidence_rank :: "confidence \<Rightarrow> nat" where
  "confidence_rank CNone = 0"
| "confidence_rank Low = 1"
| "confidence_rank Medium = 2"
| "confidence_rank High = 3"

lemma confidence_rank_inject [simp]: "confidence_rank a = confidence_rank b \<longleftrightarrow> a = b"
  by (cases a; cases b) auto

instantiation confidence :: linorder
begin

definition less_eq_confidence :: "confidence \<Rightarrow> confidence \<Rightarrow> bool" where
  "less_eq_confidence a b \<longleftrightarrow> confidence_rank a \<le> confidence_rank b"

definition less_confidence :: "confidence \<Rightarrow> confidence \<Rightarrow> bool" where
  "less_confidence a b \<longleftrightarrow> confidence_rank a < confidence_rank b"

instance
  by standard (auto simp: less_eq_confidence_def less_confidence_def)

end

record finding =
  fi_quote :: pystr
  fi_verified :: bool
  fi_chunk_id :: "int option"
  fi_page :: "int option"

record verification_report =
  rp_total :: nat
  rp_verified :: nat
  rp_failed :: nat
  rp_rate :: real
  rp_confidence :: confidence
  rp_results :: "verification_result list"

definition rate_confidence :: "real \<Rightarrow> confidence" where
  "rate_confidence r = (if r = 1 then High else if r > 1 / 2 then Medium else Low)"

definition mark_finding :: "finding \<Rightarrow> verification_result \<Rightarrow> finding" where
  "mark_finding f r = f\<lparr>fi_verified := vr_verified r,
     fi_chunk_id := (if vr_verified r then vr_chunk_id r else None),
     fi_page := (if vr_verified r then vr_page r else None)\<rparr>"

text \<open>The findings are updated in place: the result holds the report and the findings afterwards.\<close>

definition verify_findings :: "text_env \<Rightarrow> finding list \<Rightarrow> pystr \<Rightarrow> chunk list \<Rightarrow> verification_report \<times> finding list" where
  "verify_findings E findings full chunks =
     (if findings = [] then
        (\<lparr>rp_total = 0, rp_verified = 0, rp_failed = 0, rp_rate = 0, rp_confidence = CNone, rp_results = []\<rparr>, [])
      else
        let nfull = normalize_for_match E full;
            results = map (\<lambda>f. verify_quote E (fi_quote f) full chunks (Some nfull)) findings;
            verified = length (filter vr_verified results);
            total = length findings;
            rate = real verified / real total
        in (\<lparr>rp_total = total, rp_verified = verified, rp_failed = total - verified, rp_rate = rate,
             rp_confidence = rate_confidence rate, rp_results = results\<rparr>,
            map2 mark_finding findings results))"

lemma rate_confidence_eq:
  "0 < n \<Longrightarrow> k \<le> n \<Longrightarrow> rate_confidence (real k / real n) = (if k = n then High else if 2 * k > n then Medium else Low)"
  by (simp add: rate_confidence_def field_simps)

lemma rate_confidence_mono:
  assumes "0 < n" and "k \<le> k'" and "k' \<le> n"
  shows "rate_confidence (real k / real n) \<le> rate_confidence (real k' / real n)"
  using assms rate_confidence_eq [of n k] rate_confidence_eq [of n k'] by (auto simp: less_eq_confidence_def)

definition supported :: "text_env \<Rightarrow> pystr \<Rightarrow> chunk list \<Rightarrow> finding \<Rightarrow> bool" where
  "supported E full chunks f \<longleftrightarrow> vr_verified (verify_quote E (fi_quote f) full chunks None)"

text \<open>
  The report of a summary is consistent with its findings. Verified and failed findings add up
  to the total, the confidence is NONE exactly without findings, HIGH exactly when all of them are
  supported, MEDIUM when more than half are and LOW otherwise; the findings keep their quotes and
  order, each is marked by its own verdict, and an unsupported finding never names a chunk or a page.
\<close>

lemma findings_report:
  "(case verify_findings E findings full chunks of (r, fs) \<Rightarrow>
      rp_total r = length findings
      \<and> rp_verified r = length (filter (supported E full chunks) findings)
      \<and> rp_verified r + rp_failed r = rp_total r
      \<and> rp_confidence r = (if findings = [] then CNone
          else if list_all (supported E full chunks) findings then High
          else if 2 * rp_verified r > rp_total r then Medium else Low)
      \<and> map fi_quote fs = map fi_quote findings
      \<and> map fi_verified fs = map (supported E full chunks) findings
      \<and> list_all (\<lambda>f. fi_verified f \<or> fi_chunk_id f = None \<and> fi_page f = None) fs)"
proof (cases "findings = []")
  case False
  let ?res = "map (\<lambda>f. verify_quote E (fi_quote f) full chunks None) findings"
  have n: "length (filter vr_verified ?res) = length (filter (supported E full chunks) findings)"
    by (simp add: filter_map comp_def supported_def [abs_def])
  have all: "length (filter (supported E full chunks) findings) = length findings \<longleftrightarrow> list_all (supported E full chunks) findings"
    by (metis filter_id_conv length_filter_less list_all_iff nless_le)
  have m: "map2 mark_finding findings ?res = map (\<lambda>f. mark_finding f (verify_quote E (fi_quote f) full chunks None)) findings"
    by (induction findings) auto
  show ?thesis
    using False rate_confidence_eq [of "length findings" "length (filter (supported E full chunks) findings)"] all
    unfolding verify_findings_def verify_quote_normalized Let_def m n
    by (auto simp: mark_finding_def supported_def list_all_iff)
qed (simp add: verify_findings_def)

text \<open>
  Confidence is monotone in the evidence: over the same findings, a paper and chunks that
  support every finding another paper and chunks support never yield a lower confidence.
\<close>

lemma confidence_monotone:
  assumes "list_all (\<lambda>f. \<not> supported E full chunks f \<or> supported E full' chunks' f) findings"
  shows "rp_confidence (fst (verify_findings E findings full chunks))
     \<le> rp_confidence (fst (verify_findings E findings full' chunks'))"
proof (cases "findings = []")
  case False
  have n: "length (filter vr_verified (map (\<lambda>f. verify_quote E (fi_quote f) p c None) findings)) = length (filter (supported E p c) findings)" for p c
    by (simp add: filter_map comp_def supported_def [abs_def])
  have "length (filter (supported E full chunks) findings) \<le> length (filter (supported E full' chunks') findings)"
    using assms by (induction findings) auto
  then show ?thesis
    using False unfolding verify_findings_def verify_quote_normalized Let_def n
    by (simp add: rate_confidence_mono)
qed (simp add: verify_findings_def)

section \<open>A quote that the paper does not contain\<close>

lemma verified_by_short_chunk:
  assumes "\<And>a b. a \<noteq> [] \<Longrightarrow> py_in a b \<Longrightarrow> partial_ratio E b a = 100"
    and "c \<in> set chunks" and "normalize_for_match E (ck_content c) \<noteq> []"
    and "py_in (normalize_for_match E (ck_content c)) (normalize_for_match E (effective_quote q))"
    and "comparable E q"
  shows "vr_verified (verify_quote E q full chunks None)"
  using assms by (auto simp: verify_quote_verified list_ex_iff intro!: bexI [of _ c])

text \<open>
  The fuzzy search is symmetric in quote and chunk, as documented for the scorer: partial_ratio
  aligns the shorter text with the longer one. A quote is therefore also verified by any chunk
  whose normalised text is a part of the quote, however short the chunk and whatever surrounds it in
  the quote, even when the paper does not contain the quote.
\<close>

lemma short_chunk_verifies:
  assumes "\<And>a b. a \<noteq> [] \<Longrightarrow> py_in a b \<Longrightarrow> partial_ratio E b a = 100"
    and "c \<in> set chunks" and "normalize_for_match E (ck_content c) \<noteq> []"
    and "py_in (normalize_for_match E (ck_content c)) (normalize_for_match E (effective_quote q))"
    and "comparable E q" and "\<not> py_in (normalize_for_match E (effective_quote q)) (normalize_for_match E full)"
  shows "vr_verified (verify_quote E q full chunks None)
    \<and> vr_match (verify_quote E q full chunks None) = Some Fuzzy"
proof -
  have v: "vr_verified (verify_quote E q full chunks None)" by (rule verified_by_short_chunk [OF assms(1-5)])
  then show ?thesis
    using verify_quote_cases [of "verify_quote E q full chunks None" E q full chunks None, OF refl refl refl] assms(6) by auto
qed

text \<open>A paper that reads "b c" and a summary that quotes "A b c".\<close>

end
