(* ===== verification/Pulse_Scoring.thy ===== *)
theory Pulse_Scoring
  imports Prompt_Safety Quote_Verify "HOL-Library.AList"
begin

text \<open>
  Scoring of candidate papers for the daily deck (\<open>pulse/scoring.py\<close>, \<open>pulse/verification.py\<close> and the
  computations of \<open>pulse/profile.py\<close>): the embedding filter, the model's rerank with its verified
  reasoning, and the weighted sum. The embedder and the language model are parameters: what each
  call returns or raises. Vectors and scores are real numbers, dates are day numbers.
\<close>

section \<open>Data\<close>

record topic_ref =
  tr_id :: int
  tr_name :: pystr
  tr_description :: "pystr option"

text \<open>A value of a paper's free-form metadata.\<close>

datatype meta =
    M_null | M_bool bool | M_int int | M_float real | M_str pystr | M_list "meta list" | M_dict "(pystr \<times> meta) list"

record paper_create =
  pc_external :: pystr
  pc_title :: pystr
  pc_abstract :: "pystr option"
  pc_authors :: "pystr list"
  pc_published :: "int option"
  pc_s2_authors :: "meta option"

record user_profile =
  up_topics :: "topic_ref list"
  up_author_names :: "pystr set"
  up_author_ids :: "pystr set"
  up_centroid :: "real list option"
  up_weights :: "(string \<times> real) list"
  up_deck_size :: int
  up_top_k :: int
  up_neg_centroid :: "real list option"
  up_dampened :: "int set"
  up_l2_lambda :: real

datatype rag_confidence = Rag_high | Rag_medium | Rag_low | Rag_unverified

record scored =
  sc_paper :: paper_create
  sc_signals :: "string \<Rightarrow> real option"
  sc_relevance :: "int option"
  sc_novelty :: "int option"
  sc_reasoning :: "pystr option"
  sc_final :: "real option"
  sc_verified :: "bool option"
  sc_confidence :: "rag_confidence option"

datatype pulse_exc = Runtime_exc | Client_unavailable | Timeout_exc | Other_exc | Cancelled_exc

section \<open>Stage 1\<close>

definition cosine :: "real list \<Rightarrow> real list \<Rightarrow> real" where
  "cosine a b =
     (if a = [] \<or> b = [] \<or> length a \<noteq> length b then 0
      else
        let dot = sum_list (map2 (*) a b);
            na = sqrt (sum_list (map (\<lambda>x. x * x) a));
            nb = sqrt (sum_list (map (\<lambda>x. x * x) b))
        in if na = 0 \<or> nb = 0 then 0 else dot / (na * nb))"

definition recency_decay :: "int option \<Rightarrow> int \<Rightarrow> real" where
  "recency_decay published now =
     (case published of None \<Rightarrow> 0
      | Some p \<Rightarrow> max 0 (min 1 (exp (- real_of_int (max 0 (now - p)) / 30))))"

text \<open>\<open>bool(v)\<close> and iteration over a value; \<open>None\<close> is the \<open>TypeError\<close>.\<close>

fun py_truthy :: "meta \<Rightarrow> bool" where
  "py_truthy M_null = False"
| "py_truthy (M_bool b) = b"
| "py_truthy (M_int i) = (i \<noteq> 0)"
| "py_truthy (M_float x) = (x \<noteq> 0)"
| "py_truthy (M_str s) = (s \<noteq> [])"
| "py_truthy (M_list xs) = (xs \<noteq> [])"
| "py_truthy (M_dict kv) = (kv \<noteq> [])"

fun py_iter :: "meta \<Rightarrow> meta list option" where
  "py_iter (M_list xs) = Some xs"
| "py_iter (M_str s) = Some (map (\<lambda>c. M_str [c]) s)"
| "py_iter (M_dict kv) = Some (map (\<lambda>(k, v). M_str k) kv)"
| "py_iter _ = None"

text \<open>What one entry of \<open>s2_author_ids\<close> contributes; \<open>str\<close> is Python's.\<close>

definition entry_ids :: "(meta \<Rightarrow> pystr) \<Rightarrow> meta \<Rightarrow> pystr list" where
  "entry_ids str entry =
     (case entry of
        M_dict kv \<Rightarrow> (case map_of kv (codes ''authorId'') of
            None \<Rightarrow> [] | Some v \<Rightarrow> if py_truthy v then [str v] else [])
      | M_str s \<Rightarrow> [str entry]
      | M_int i \<Rightarrow> [str entry]
      | M_bool b \<Rightarrow> [str entry]
      | _ \<Rightarrow> [])"

definition author_bonus :: "text_env \<Rightarrow> (meta \<Rightarrow> pystr) \<Rightarrow> user_profile \<Rightarrow> paper_create \<Rightarrow> real" where
  "author_bonus E str p c =
     (if up_author_names p = {} \<and> up_author_ids p = {} then 0
      else
        let names = map (lower E) (pc_authors c);
            raw = (case pc_s2_authors c of None \<Rightarrow> M_list [] | Some v \<Rightarrow> if py_truthy v then v else M_list [])
        in case py_iter raw of
             None \<Rightarrow> 0
           | Some entries \<Rightarrow>
               if list_ex (\<lambda>n. n \<in> up_author_names p) names
                  \<or> list_ex (\<lambda>i. i \<in> up_author_ids p) (concat (map (entry_ids str) entries))
               then 1 else 0)"

text \<open>\<open>max(xs, default=d)\<close>.\<close>

definition py_max_default :: "real \<Rightarrow> real list \<Rightarrow> real" where
  "py_max_default d xs = (case xs of [] \<Rightarrow> d | y # ys \<Rightarrow> fold max ys y)"

definition topic_similarity :: "user_profile \<Rightarrow> real list list \<Rightarrow> real list \<Rightarrow> real" where
  "topic_similarity p tembs vec =
     (if tembs = [] then 0
      else py_max_default 0
        (map (\<lambda>(t, tv). let s = cosine vec tv in if s > 0 \<and> tr_id t \<in> up_dampened p then s * (1 / 2) else s)
           (zip (up_topics p) tembs)))"

definition embedding_similarity :: "user_profile \<Rightarrow> real list \<Rightarrow> real" where
  "embedding_similarity p vec =
     (case up_centroid p of None \<Rightarrow> 0 | Some c \<Rightarrow> if c = [] then 0 else cosine vec c)
     - (case up_neg_centroid p of None \<Rightarrow> 0 | Some n \<Rightarrow> up_l2_lambda p * cosine vec n)"

definition stage1_signals :: "text_env \<Rightarrow> (meta \<Rightarrow> pystr) \<Rightarrow> user_profile \<Rightarrow> int \<Rightarrow> real list list \<Rightarrow> real list \<Rightarrow> paper_create \<Rightarrow> string \<Rightarrow> real option" where
  "stage1_signals E str p now tembs vec c =
     [''embedding'' \<mapsto> embedding_similarity p vec,
      ''topic'' \<mapsto> topic_similarity p tembs vec,
      ''recency'' \<mapsto> recency_decay (pc_published c) now,
      ''author_bonus'' \<mapsto> author_bonus E str p c]"

definition preliminary_score :: "text_env \<Rightarrow> (meta \<Rightarrow> pystr) \<Rightarrow> user_profile \<Rightarrow> int \<Rightarrow> real list list \<Rightarrow> real list \<Rightarrow> paper_create \<Rightarrow> real" where
  "preliminary_score E str p now tembs vec c =
     embedding_similarity p vec + topic_similarity p tembs vec + recency_decay (pc_published c) now
     + author_bonus E str p c * (1 / 2)"

definition fresh_candidate :: "paper_create \<Rightarrow> (string \<Rightarrow> real option) \<Rightarrow> real option \<Rightarrow> scored" where
  "fresh_candidate c signals final = \<lparr>sc_paper = c, sc_signals = signals, sc_relevance = None, sc_novelty = None,
     sc_reasoning = None, sc_final = final, sc_verified = None, sc_confidence = None\<rparr>"

text \<open>\<open>sc.final_score or 0.0\<close>.\<close>

definition score_or_zero :: "scored \<Rightarrow> real" where
  "score_or_zero s = (case sc_final s of None \<Rightarrow> 0 | Some x \<Rightarrow> x)"

definition is_runtime :: "pulse_exc \<Rightarrow> bool" where
  "is_runtime e \<longleftrightarrow> e = Runtime_exc \<or> e = Client_unavailable"

definition topic_text :: "topic_ref \<Rightarrow> pystr" where
  "topic_text t = py_strip (tr_name t @ [32] @ (case tr_description t of None \<Rightarrow> [] | Some d \<Rightarrow> d))"

definition candidate_text :: "paper_create \<Rightarrow> pystr" where
  "candidate_text c = py_strip (pc_title c @ [46, 32] @ (case pc_abstract c of None \<Rightarrow> [] | Some a \<Rightarrow> a))"

text \<open>\<open>embedder n texts\<close> is what the n-th call of the embedder returns or raises.\<close>

definition stage1_embedding_filter ::
  "text_env \<Rightarrow> (meta \<Rightarrow> pystr) \<Rightarrow> (nat \<Rightarrow> pystr list \<Rightarrow> pulse_exc + real list list)
   \<Rightarrow> paper_create list \<Rightarrow> user_profile \<Rightarrow> int \<Rightarrow> int \<Rightarrow> pulse_exc + scored list" where
  "stage1_embedding_filter E str embedder cands p top_k now =
     (if cands = [] then Inr []
      else
        res_bind
          (if up_topics p = [] then Inr []
           else case embedder 0 (map topic_text (up_topics p)) of
                  Inl e \<Rightarrow> if is_runtime e then Inr [] else Inl e
                | Inr v \<Rightarrow> Inr v)
          (\<lambda>tembs.
             case embedder 1 (map candidate_text cands) of
               Inl e \<Rightarrow>
                 if is_runtime e then
                   Inr (py_prefix top_k (map (\<lambda>c. fresh_candidate c
                     [''embedding'' \<mapsto> 0, ''topic'' \<mapsto> 0, ''recency'' \<mapsto> 0, ''author_bonus'' \<mapsto> 0] None) cands))
                 else Inl e
             | Inr cembs \<Rightarrow>
                 Inr (py_prefix top_k (py_sort_desc score_or_zero
                   (map (\<lambda>(i, c). let vec = (if i < length cembs then cembs ! i else []) in
                       fresh_candidate c (stage1_signals E str p now tembs vec c)
                         (Some (preliminary_score E str p now tembs vec c)))
                     (enumerate 0 cands))))))"

section \<open>Verification of the reasoning\<close>

definition score_to_confidence :: "real option \<Rightarrow> rag_confidence" where
  "score_to_confidence score =
     (case score of None \<Rightarrow> Rag_unverified
      | Some s \<Rightarrow>
          let pct = s * 100
          in if pct \<ge> 97 then Rag_high else if pct \<ge> 85 then Rag_medium else if pct \<ge> 70 then Rag_low
             else Rag_unverified)"

definition llm_failed_sentinel :: pystr where
  "llm_failed_sentinel = codes ''LLM scoring failed''"

text \<open>The verifier never raises here: it is the modelled one.\<close>

definition verify_pulse_reasoning :: "text_env \<Rightarrow> pystr \<Rightarrow> pystr \<Rightarrow> pystr \<Rightarrow> bool \<times> rag_confidence" where
  "verify_pulse_reasoning E reasoning title abstract =
     (if reasoning = [] \<or> py_strip reasoning = [] then (False, Rag_unverified)
      else if py_strip reasoning = llm_failed_sentinel then (False, Rag_unverified)
      else
        let full = py_strip (title @ [46, 32] @ abstract)
        in if full = [] then (False, Rag_unverified)
           else
             let chunk = \<lparr>ck_id = 0, ck_index = Some 0, ck_content = full, ck_page = None\<rparr>;
                 confidence = score_to_confidence (vr_score (verify_quote E reasoning full [chunk] None))
             in (confidence \<noteq> Rag_unverified, confidence))"

section \<open>Stage 2\<close>

text \<open>
  What the structured call for one candidate gives: the model's scores, one of the exceptions that
  the handler lists, or another exception.
\<close>

datatype llm_result = Llm_scored int int pystr | Llm_failed | Llm_raised pulse_exc

definition score_one :: "text_env \<Rightarrow> (scored \<Rightarrow> llm_result) \<Rightarrow> scored \<Rightarrow> pulse_exc + scored" where
  "score_one E llm sc =
     (case llm sc of
        Llm_scored relevance novelty reasoning \<Rightarrow>
          (let (verified, confidence) =
                 (if reasoning = [] then (None, None)
                  else case verify_pulse_reasoning E reasoning (pc_title (sc_paper sc))
                              (case pc_abstract (sc_paper sc) of None \<Rightarrow> [] | Some a \<Rightarrow> a)
                       of (v, c) \<Rightarrow> (Some v, Some c))
           in Inr \<lparr>sc_paper = sc_paper sc,
                   sc_signals = (sc_signals sc)(''llm_relevance'' \<mapsto> real_of_int relevance / 10,
                                                ''llm_novelty'' \<mapsto> real_of_int novelty / 10),
                   sc_relevance = Some relevance, sc_novelty = Some novelty, sc_reasoning = Some reasoning,
                   sc_final = sc_final sc, sc_verified = verified, sc_confidence = confidence\<rparr>)
      | Llm_failed \<Rightarrow>
          Inr (sc\<lparr>sc_relevance := None, sc_novelty := None, sc_reasoning := Some llm_failed_sentinel,
                  sc_verified := Some False, sc_confidence := Some Rag_unverified\<rparr>)
      | Llm_raised e \<Rightarrow> Inl e)"

text \<open>\<open>asyncio.gather\<close> returns the results in the order of its arguments or raises.\<close>

fun gather :: "('e + 'a) list \<Rightarrow> 'e + 'a list" where
  "gather [] = Inr []"
| "gather (r # rs) = res_bind r (\<lambda>x. res_bind (gather rs) (\<lambda>xs. Inr (x # xs)))"

definition stage2_llm_rerank :: "text_env \<Rightarrow> bool \<Rightarrow> (scored \<Rightarrow> llm_result) \<Rightarrow> scored list \<Rightarrow> pulse_exc + scored list" where
  "stage2_llm_rerank E client llm xs =
     (if xs = [] then Inr []
      else if \<not> client then Inl Client_unavailable
      else gather (map (score_one E llm) xs))"

section \<open>Stage 3\<close>

definition weighted_score :: "(string \<times> real) list \<Rightarrow> scored \<Rightarrow> real" where
  "weighted_score ws sc =
     sum_list (map (\<lambda>(k, w). (case sc_signals sc k of None \<Rightarrow> 0 | Some x \<Rightarrow> x) * w) ws)"

text \<open>The sort key of a missing score is minus infinity; here no score is missing.\<close>

definition stage3_combine :: "scored list \<Rightarrow> (string \<times> real) list \<Rightarrow> scored list" where
  "stage3_combine xs ws =
     py_sort_desc sc_final (map (\<lambda>sc. sc\<lparr>sc_final := Some (weighted_score ws sc)\<rparr>) xs)"

section \<open>The profile's computations\<close>

definition with_classifier_opt_in :: "(string \<times> real) list \<Rightarrow> bool \<Rightarrow> (string \<times> real) list" where
  "with_classifier_opt_in ws opted =
     (if \<not> opted then ws
      else if (case map_of ws ''classifier'' of None \<Rightarrow> 0 | Some w \<Rightarrow> w) \<noteq> 0 then ws
      else AList.update ''classifier'' (1 / 10) ws)"

definition clamp_weights :: "(string \<times> real) list \<Rightarrow> (string \<times> real) list" where
  "clamp_weights ws = map (\<lambda>(k, w). (k, min 1 (max 0 w))) ws"

definition default_weights :: "(string \<times> real) list" where
  "default_weights = [(''embedding'', 2/10), (''topic'', 2/10), (''llm_relevance'', 3/10), (''llm_novelty'', 1/10),
     (''author_bonus'', 15/100), (''recency'', 5/100), (''citation_pagerank'', 0), (''citation_count'', 0),
     (''citation_adamic_adar'', 0), (''classifier'', 0)]"

text \<open>\<open>raw\<close> is the configured dictionary, \<open>None\<close> if the value is not a dictionary.\<close>

definition resolve_weights :: "(string \<times> real) list option \<Rightarrow> bool \<Rightarrow> (string \<times> real) list" where
  "resolve_weights raw opted =
     with_classifier_opt_in
       (clamp_weights (fold (\<lambda>(k, v) ws. AList.update k v ws) (case raw of None \<Rightarrow> [] | Some r \<Rightarrow> r) default_weights))
       opted"

text \<open>
  The weighted mean of the vectors of the first one's dimension; \<open>None\<close> without weight. With all
  weights 1 it is the library centroid.
\<close>

definition weighted_centroid :: "(real list \<times> real) list \<Rightarrow> real list option" where
  "weighted_centroid vs =
     (case vs of [] \<Rightarrow> None
      | (v0, _) # _ \<Rightarrow>
          let used = filter (\<lambda>(v, w). length v = length v0) vs;
              total = sum_list (map snd used);
              acc = fold (\<lambda>(v, w) acc. map2 (\<lambda>a x. a + w * x) acc v) used (replicate (length v0) 0)
          in if total > 0 then Some (map (\<lambda>x. x / total) acc) else None)"

text \<open>Rows are (topic, number of negative ratings).\<close>

definition dampened_topics :: "(int \<times> int) list \<Rightarrow> nat \<Rightarrow> int set" where
  "dampened_topics rows topic_count =
     (let sorted = py_sort_desc snd rows;
          cap = topic_count div 2
      in set (map fst (if length sorted > cap then take cap sorted else sorted)))"

section \<open>Bounds of the signals\<close>

lemma cauchy_schwarz_step:
  fixes d :: real
  assumes "d\<^sup>2 \<le> a * b" and "0 \<le> a" and "0 \<le> b"
  shows "(x * y + d)\<^sup>2 \<le> (x * x + a) * (y * y + b)"
proof -
  have "\<bar>d\<bar> \<le> sqrt a * sqrt b"
    using assms by (metis real_sqrt_abs real_sqrt_le_mono real_sqrt_mult)
  then have "2 * (\<bar>x\<bar> * \<bar>y\<bar>) * \<bar>d\<bar> \<le> 2 * (\<bar>x\<bar> * \<bar>y\<bar>) * (sqrt a * sqrt b)"
    by (intro mult_left_mono) auto
  also have "\<dots> \<le> (\<bar>x\<bar> * sqrt b)\<^sup>2 + (\<bar>y\<bar> * sqrt a)\<^sup>2"
    using sum_squares_bound [of "\<bar>x\<bar> * sqrt b" "\<bar>y\<bar> * sqrt a"] by (simp add: mult_ac)
  also have "\<dots> = x\<^sup>2 * b + y\<^sup>2 * a"
    using assms(2,3) by (simp add: power_mult_distrib)
  finally have "2 * (x * y) * d \<le> x\<^sup>2 * b + y\<^sup>2 * a"
    using abs_ge_self [of "2 * (x * y) * d"] by (simp add: abs_mult)
  then show ?thesis using assms(1) by (simp add: power2_eq_square algebra_simps)
qed

lemma sum_squares_nonneg: "0 \<le> sum_list (map (\<lambda>x. x * x) (xs :: real list))"
  by (induction xs) auto

lemma cauchy_schwarz:
  "length a = length b \<Longrightarrow> (sum_list (map2 (*) a b))\<^sup>2 \<le> sum_list (map (\<lambda>x. x * x) a) * sum_list (map (\<lambda>x. x * x) (b :: real list))"
proof (induction a b rule: list_induct2)
  case (Cons x xs y ys)
  then show ?case
    using cauchy_schwarz_step [OF Cons.IH sum_squares_nonneg sum_squares_nonneg, of x y] by simp
qed simp

lemma cosine_bounds: "\<bar>cosine a b\<bar> \<le> 1"
proof -
  let ?d = "sum_list (map2 (*) a b)" and ?A = "sum_list (map (\<lambda>x. x * x) a)" and ?B = "sum_list (map (\<lambda>x. x * x) b)"
  have "\<bar>?d\<bar> \<le> sqrt ?A * sqrt ?B" if "length a = length b"
    using cauchy_schwarz [OF that] by (metis real_sqrt_abs real_sqrt_le_mono real_sqrt_mult)
  moreover have "0 \<le> sqrt ?A * sqrt ?B" using sum_squares_nonneg by simp
  ultimately show ?thesis
    by (auto simp: cosine_def Let_def abs_divide abs_mult divide_le_eq_1)
qed

lemma recency_bounds: "0 \<le> recency_decay d now \<and> recency_decay d now \<le> 1"
  by (cases d) (auto simp: recency_decay_def)

lemma author_bonus_cases: "author_bonus E str p c = 0 \<or> author_bonus E str p c = 1"
  by (auto simp: author_bonus_def Let_def split: option.split)

lemma fold_max_bounds: "a \<le> y \<and> y \<le> (b::real) \<Longrightarrow> list_all (\<lambda>x. a \<le> x \<and> x \<le> b) ys \<Longrightarrow> a \<le> fold max ys y \<and> fold max ys y \<le> b"
  by (induction ys arbitrary: y) (auto simp: max_def)

lemma py_max_default_bounds:
  "a \<le> 0 \<Longrightarrow> 0 \<le> b \<Longrightarrow> list_all (\<lambda>x. a \<le> x \<and> x \<le> b) xs \<Longrightarrow> a \<le> py_max_default 0 xs \<and> py_max_default 0 xs \<le> b"
  using fold_max_bounds by (cases xs) (auto simp: py_max_default_def)

lemma topic_bounds: "\<bar>topic_similarity p tembs vec\<bar> \<le> 1"
proof -
  let ?f = "\<lambda>(t, tv). let s = cosine vec tv in if s > 0 \<and> tr_id t \<in> up_dampened p then s * (1 / 2) else s"
  have "-1 \<le> ?f x \<and> ?f x \<le> 1" for x
    using cosine_bounds [of vec "snd x"] by (cases x) (auto simp: Let_def)
  then have "-1 \<le> py_max_default 0 (map ?f (zip (up_topics p) tembs)) \<and> py_max_default 0 (map ?f (zip (up_topics p) tembs)) \<le> 1"
    by (intro py_max_default_bounds) (auto simp: list_all_iff)
  then show ?thesis by (auto simp: topic_similarity_def)
qed

lemma embedding_bounds: "0 \<le> up_l2_lambda p \<Longrightarrow> \<bar>embedding_similarity p vec\<bar> \<le> 1 + up_l2_lambda p"
proof -
  assume l: "0 \<le> up_l2_lambda p"
  have neg: "\<bar>up_l2_lambda p * cosine vec n\<bar> \<le> up_l2_lambda p" for n
    using mult_left_mono [OF cosine_bounds [of vec n] l] l by (simp add: abs_mult)
  let ?a = "case up_centroid p of None \<Rightarrow> 0 | Some c \<Rightarrow> if c = [] then 0 else cosine vec c"
  let ?b = "case up_neg_centroid p of None \<Rightarrow> 0 | Some n \<Rightarrow> up_l2_lambda p * cosine vec n"
  have "\<bar>?a\<bar> \<le> 1" using cosine_bounds by (auto split: option.split)
  moreover have "\<bar>?b\<bar> \<le> up_l2_lambda p" using neg l by (auto split: option.split)
  ultimately show ?thesis unfolding embedding_similarity_def by linarith
qed

lemma fold_max_mono: "list_all2 (\<le>) xs ys \<Longrightarrow> x \<le> (y::real) \<Longrightarrow> fold max xs x \<le> fold max ys y"
  by (induction xs ys arbitrary: x y rule: list_all2_induct) (auto simp: max_def)

lemma py_max_default_mono: "list_all2 (\<le>) xs ys \<Longrightarrow> py_max_default d xs \<le> py_max_default d ys"
  by (cases xs; cases ys) (auto simp: py_max_default_def fold_max_mono)

lemma dampening_lowers:
  "topic_similarity p tembs vec \<le> topic_similarity (p\<lparr>up_dampened := {}\<rparr>) tembs vec"
  by (auto simp: topic_similarity_def Let_def list_all2_conv_all_nth intro!: py_max_default_mono)

text \<open>
  Every signal of stage 1 is bounded, so no candidate can dominate the deck by scale: similarity
  to the library lies within 1 plus the penalty weight, topic similarity within 1, recency in the
  unit interval, the author bonus is 0 or 1 whatever the paper's metadata holds, and dampening a
  topic never raises a candidate.
\<close>

lemma signals_bounded:
  assumes "0 \<le> up_l2_lambda p"
  shows "(\<exists>e t r b. stage1_signals E str p now tembs vec c = [''embedding'' \<mapsto> e, ''topic'' \<mapsto> t, ''recency'' \<mapsto> r, ''author_bonus'' \<mapsto> b]
      \<and> \<bar>e\<bar> \<le> 1 + up_l2_lambda p \<and> \<bar>t\<bar> \<le> 1 \<and> 0 \<le> r \<and> r \<le> 1 \<and> (b = 0 \<or> b = 1)
      \<and> preliminary_score E str p now tembs vec c = e + t + r + b / 2)
    \<and> preliminary_score E str p now tembs vec c \<le> preliminary_score E str (p\<lparr>up_dampened := {}\<rparr>) now tembs vec c"
proof -
  have same: "embedding_similarity (p\<lparr>up_dampened := {}\<rparr>) vec = embedding_similarity p vec"
      "author_bonus E str (p\<lparr>up_dampened := {}\<rparr>) c = author_bonus E str p c"
    by (simp_all add: embedding_similarity_def author_bonus_def Let_def split: option.split)
  have "preliminary_score E str p now tembs vec c \<le> preliminary_score E str (p\<lparr>up_dampened := {}\<rparr>) now tembs vec c"
    using dampening_lowers [of p tembs vec] by (simp add: preliminary_score_def same)
  moreover have "stage1_signals E str p now tembs vec c = [''embedding'' \<mapsto> embedding_similarity p vec, ''topic'' \<mapsto> topic_similarity p tembs vec,
        ''recency'' \<mapsto> recency_decay (pc_published c) now, ''author_bonus'' \<mapsto> author_bonus E str p c]"
      "preliminary_score E str p now tembs vec c = embedding_similarity p vec + topic_similarity p tembs vec
        + recency_decay (pc_published c) now + author_bonus E str p c / 2"
    by (simp_all add: stage1_signals_def preliminary_score_def)
  ultimately show ?thesis
    using embedding_bounds [OF assms, of vec] topic_bounds [of p tembs vec] recency_bounds [of "pc_published c" now]
      author_bonus_cases [of E str p c]
    by blast
qed

text \<open>The hypothesis is the validated range of the penalty weight.\<close>

definition sample_profile :: user_profile where
  "sample_profile = \<lparr>up_topics = [\<lparr>tr_id = 1, tr_name = codes ''t'', tr_description = None\<rparr>], up_author_names = {},
     up_author_ids = {}, up_centroid = None, up_weights = [(''topic'', 1)], up_deck_size = 1, up_top_k = 1,
     up_neg_centroid = None, up_dampened = {1}, up_l2_lambda = 1 / 2\<rparr>"

definition sample_paper :: paper_create where
  "sample_paper = \<lparr>pc_external = codes ''x'', pc_title = codes ''T'', pc_abstract = None, pc_authors = [],
     pc_published = None, pc_s2_authors = None\<rparr>"

section \<open>The ranking of stage 1\<close>

lemma py_prefix_take: "\<exists>n. py_prefix k xs = take n xs"
  by (auto simp: py_prefix_def)

lemma length_py_prefix: "0 \<le> k \<Longrightarrow> length (py_prefix k xs) = min (nat k) (length xs)"
  by (simp add: py_prefix_def)

text \<open>What stage 1 ranks when both embeddings succeed.\<close>

definition ranked_pool :: "text_env \<Rightarrow> (meta \<Rightarrow> pystr) \<Rightarrow> user_profile \<Rightarrow> int \<Rightarrow> real list list \<Rightarrow> real list list \<Rightarrow> paper_create list \<Rightarrow> scored list" where
  "ranked_pool E str p now tembs cembs cands =
     map (\<lambda>(i, c). let vec = (if i < length cembs then cembs ! i else []) in
         fresh_candidate c (stage1_signals E str p now tembs vec c) (Some (preliminary_score E str p now tembs vec c)))
       (enumerate 0 cands)"

lemma ranked_pool_papers: "map sc_paper (ranked_pool E str p now tembs cembs cands) = cands"
  by (rule nth_equalityI) (auto simp: ranked_pool_def fresh_candidate_def nth_enumerate_eq Let_def)

text \<open>
  The embedding filter keeps the best candidates. Whenever it returns, the papers it keeps are
  candidates, never more than the limit; if the candidates could be embedded, the result is the
  beginning of a ranking of all of them by descending preliminary score, ties in discovery order,
  so no candidate left out beats one that is kept; if they could not, the first candidates pass
  unscored.
\<close>

lemma stage1_keeps_best:
  assumes "stage1_embedding_filter E str embedder cands p top_k now = Inr out" and "0 \<le> top_k"
  shows "length out = min (nat top_k) (length cands)
    \<and> (list_all (\<lambda>s. sc_final s = None) out \<and> map sc_paper out = take (nat top_k) cands
       \<or> (\<exists>pool ranked. map sc_paper pool = cands \<and> mset ranked = mset pool \<and> out = take (nat top_k) ranked
            \<and> sorted_wrt (\<lambda>x y. score_or_zero y \<le> score_or_zero x) ranked
            \<and> (\<forall>k. filter (\<lambda>s. score_or_zero s = k) ranked = filter (\<lambda>s. score_or_zero s = k) pool)
            \<and> (\<forall>x \<in> set out. \<forall>y \<in> set (drop (nat top_k) ranked). score_or_zero y \<le> score_or_zero x)))"
proof -
  have pre: "py_prefix top_k xs = take (nat top_k) xs" for xs :: "scored list"
    using assms(2) by (simp add: py_prefix_def)
  consider (empty) "cands = []" "out = []"
    | (fail) sg where "out = py_prefix top_k (map (\<lambda>c. fresh_candidate c sg None) cands)"
    | (ranked) tembs cembs where "out = py_prefix top_k (py_sort_desc score_or_zero (ranked_pool E str p now tembs cembs cands))"
    using assms(1) unfolding stage1_embedding_filter_def ranked_pool_def
    by (auto simp: res_bind_iff split: if_splits sum.splits)
  then show ?thesis
  proof cases
    case empty
    then show ?thesis by simp
  next
    case fail
    then show ?thesis
      by (auto simp: pre take_map comp_def fresh_candidate_def list_all_iff)
  next
    case ranked
    let ?pool = "ranked_pool E str p now tembs cembs cands"
    have "length ?pool = length cands" using ranked_pool_papers [of E str p now tembs cembs cands] by (metis length_map)
    then have len: "length out = min (nat top_k) (length cands)" by (simp add: ranked pre)
    have "map sc_paper ?pool = cands \<and> mset (py_sort_desc score_or_zero ?pool) = mset ?pool
        \<and> out = take (nat top_k) (py_sort_desc score_or_zero ?pool)
        \<and> sorted_wrt (\<lambda>x y. score_or_zero y \<le> score_or_zero x) (py_sort_desc score_or_zero ?pool)
        \<and> (\<forall>k. filter (\<lambda>s. score_or_zero s = k) (py_sort_desc score_or_zero ?pool) = filter (\<lambda>s. score_or_zero s = k) ?pool)
        \<and> (\<forall>x \<in> set out. \<forall>y \<in> set (drop (nat top_k) (py_sort_desc score_or_zero ?pool)). score_or_zero y \<le> score_or_zero x)"
      using pysort.top_dominates [of _ "nat top_k" score_or_zero ?pool]
      by (simp add: ranked pre ranked_pool_papers sorted_wrt_py_sort_desc filter_py_sort_desc)
    then show ?thesis using len by blast
  qed
qed

section \<open>Stage 2, its badges and stage 3\<close>

lemma gather_Inr_iff: "gather rs = Inr xs \<longleftrightarrow> list_all2 (\<lambda>r x. r = Inr x) rs xs"
  by (induction rs arbitrary: xs) (auto simp: res_bind_iff list_all2_Cons1)

text \<open>The outcome of one candidate.\<close>

definition scored_as :: "text_env \<Rightarrow> (scored \<Rightarrow> llm_result) \<Rightarrow> scored \<Rightarrow> scored \<Rightarrow> bool" where
  "scored_as E llm s t \<longleftrightarrow> sc_paper t = sc_paper s \<and> sc_final t = sc_final s
     \<and> (case llm s of
          Llm_scored r n reason \<Rightarrow> sc_relevance t = Some r \<and> sc_novelty t = Some n \<and> sc_reasoning t = Some reason
            \<and> sc_signals t = (sc_signals s)(''llm_relevance'' \<mapsto> real_of_int r / 10, ''llm_novelty'' \<mapsto> real_of_int n / 10)
            \<and> (if reason = [] then sc_verified t = None else
                 (case verify_pulse_reasoning E reason (pc_title (sc_paper s)) (case pc_abstract (sc_paper s) of None \<Rightarrow> [] | Some a \<Rightarrow> a) of
                    (v, c) \<Rightarrow> sc_verified t = Some v \<and> sc_confidence t = Some c))
        | Llm_failed \<Rightarrow> sc_relevance t = None \<and> sc_novelty t = None \<and> sc_signals t = sc_signals s
            \<and> sc_reasoning t = Some llm_failed_sentinel \<and> sc_verified t = Some False \<and> sc_confidence t = Some Rag_unverified
        | Llm_raised e \<Rightarrow> False)"

lemma score_one_Inr: "score_one E llm s = Inr t \<Longrightarrow> scored_as E llm s t"
  by (auto simp: score_one_def scored_as_def Let_def split: llm_result.splits if_splits prod.splits)

lemma score_one_Inl: "score_one E llm s = Inl e \<longleftrightarrow> llm s = Llm_raised e"
  by (auto simp: score_one_def Let_def split: llm_result.splits prod.splits)

lemma gather_total: "(\<exists>xs. gather rs = Inr xs) \<longleftrightarrow> list_all (\<lambda>r. \<exists>x. r = Inr x) rs"
  by (induction rs) (auto simp: res_bind_iff)

lemma gather_Inl: "gather rs = Inl e \<Longrightarrow> Inl e \<in> set rs"
  by (induction rs) (auto simp: res_bind_iff)

lemma stage2_Inl: "stage2_llm_rerank E client llm xs = Inl e \<Longrightarrow> e = Client_unavailable \<or> (\<exists>s \<in> set xs. llm s = Llm_raised e)"
  by (auto simp: stage2_llm_rerank_def score_one_Inl dest!: gather_Inl split: if_splits) (metis score_one_Inl)

lemma stage1_Inl: "stage1_embedding_filter E str embedder cands p k now = Inl e \<Longrightarrow> \<exists>n ts. embedder n ts = Inl e"
  by (auto simp: stage1_embedding_filter_def res_bind_iff split: if_splits sum.splits)

text \<open>
  The rerank keeps every card in its place. It returns exactly when there is nothing to score or
  a client is there and no call raised an unexpected exception; then the i-th result is the i-th
  candidate, with the model's scores as signals and the verdict on its reasoning, or, where the
  call failed, with its signals untouched and the reasoning marked as unverified.
\<close>

lemma stage2_scores_each_card:
  "(case stage2_llm_rerank E client llm xs of
      Inr out \<Rightarrow> list_all2 (scored_as E llm) xs out
    | Inl e \<Rightarrow> xs \<noteq> [] \<and> (if client then Llm_raised e \<in> set (map llm xs) else e = Client_unavailable))
   \<and> ((\<exists>out. stage2_llm_rerank E client llm xs = Inr out)
      \<longleftrightarrow> xs = [] \<or> client \<and> list_all (\<lambda>s. case llm s of Llm_raised e \<Rightarrow> False | _ \<Rightarrow> True) xs)"
proof -
  have inr: "list_all2 (scored_as E llm) xs out" if "gather (map (score_one E llm) xs) = Inr out" for out
    using that score_one_Inr by (auto simp: gather_Inr_iff list_all2_conv_all_nth)
  have inl: "Llm_raised e \<in> set (map llm xs)" if "gather (map (score_one E llm) xs) = Inl e" for e
    using that score_one_Inl by (induction xs) (auto simp: res_bind_iff)
  have "(\<exists>x. score_one E llm s = Inr x) \<longleftrightarrow> (case llm s of Llm_raised e \<Rightarrow> False | _ \<Rightarrow> True)" for s
    by (auto simp: score_one_def Let_def split: llm_result.splits prod.splits)
  then have "(\<exists>out. gather (map (score_one E llm) xs) = Inr out) \<longleftrightarrow> list_all (\<lambda>s. case llm s of Llm_raised e \<Rightarrow> False | _ \<Rightarrow> True) xs"
    by (simp add: gather_total list_all_iff)
  then show ?thesis using inr inl by (auto simp: stage2_llm_rerank_def split: sum.split)
qed

lemma score_high_iff: "score_to_confidence s = Rag_high \<longleftrightarrow> (\<exists>x. s = Some x \<and> x \<ge> 97 / 100)"
  by (cases s) (auto simp: score_to_confidence_def Let_def)

text \<open>
  The badge of a card's reasoning agrees with the quote verifier. The reasoning counts as verified
  exactly when its confidence is not UNVERIFIED, and the confidence is HIGH exactly when the quote
  verifier verifies the reasoning against the title and abstract (and the reasoning is not the
  failure marker); every lower badge belongs to a sentence that the verifier rejects.
\<close>

lemma badge_matches_verifier:
  "(case verify_pulse_reasoning E reasoning title abstract of (verified, confidence) \<Rightarrow>
      (verified \<longleftrightarrow> confidence \<noteq> Rag_unverified)
      \<and> (confidence = Rag_high \<longleftrightarrow> py_strip reasoning \<noteq> llm_failed_sentinel
           \<and> vr_verified (verify_quote E reasoning (py_strip (title @ [46, 32] @ abstract))
               [\<lparr>ck_id = 0, ck_index = Some 0, ck_content = py_strip (title @ [46, 32] @ abstract), ck_page = None\<rparr>] None)))"
proof -
  let ?full = "py_strip (title @ [46, 32] @ abstract)"
  let ?r = "verify_quote E reasoning ?full [\<lparr>ck_id = 0, ck_index = Some 0, ck_content = ?full, ck_page = None\<rparr>] None"
  have dot: "?full \<noteq> []" by (auto simp: py_strip_eq_Nil py_isspace_def)
  have high: "score_to_confidence (vr_score ?r) = Rag_high \<longleftrightarrow> vr_verified ?r"
    using verify_quote_cases [of ?r E reasoning ?full "[\<lparr>ck_id = 0, ck_index = Some 0, ck_content = ?full, ck_page = None\<rparr>]" None, OF refl refl refl]
    by (elim disjE) (auto simp: score_high_iff simp del: best_chunk_loop.simps split: if_splits)
  have blank: "\<not> vr_verified ?r" if "py_strip reasoning = []"
    using that by (auto simp: verify_quote_def unverified_def)
  show ?thesis
  proof (cases "py_strip reasoning = []")
    case True
    then show ?thesis using blank by (simp add: verify_pulse_reasoning_def)
  next
    case False
    then have "reasoning \<noteq> []" by auto
    then show ?thesis using False dot high by (simp add: verify_pulse_reasoning_def Let_def)
  qed
qed

text \<open>
  The last stage ranks by the weighted sum and nothing else. Its output is a permutation of the
  input in which only the scores changed, each the weighted sum of the card's signals (a missing
  signal counts as zero), in descending order with ties in input order; applying it again changes
  nothing.
\<close>

lemma stage3_ranks:
  "mset (stage3_combine xs ws) = mset (map (\<lambda>sc. sc\<lparr>sc_final := Some (weighted_score ws sc)\<rparr>) xs)
   \<and> sorted_wrt (\<lambda>x y. weighted_score ws y \<le> weighted_score ws x) (stage3_combine xs ws)
   \<and> stage3_combine (stage3_combine xs ws) ws = stage3_combine xs ws"
proof -
  let ?f = "\<lambda>sc. sc\<lparr>sc_final := Some (weighted_score ws sc)\<rparr>"
  have w: "weighted_score ws (?f s) = weighted_score ws s" for s by (simp add: weighted_score_def)
  have fin: "sc_final s = Some (weighted_score ws s) \<and> ?f s = s" if "s \<in> set (stage3_combine xs ws)" for s
    using that w by (auto simp: stage3_combine_def)
  have sorted: "sorted_wrt (\<lambda>x y. sc_final y \<le> sc_final x) (stage3_combine xs ws)"
    unfolding stage3_combine_def by (rule sorted_wrt_py_sort_desc)
  have "sorted_wrt (\<lambda>x y. weighted_score ws y \<le> weighted_score ws x) (stage3_combine xs ws)"
    by (rule sorted_wrt_mono_rel [OF _ sorted]) (use fin in auto)
  moreover have "map ?f (stage3_combine xs ws) = stage3_combine xs ws"
    using fin by (intro map_idI) blast
  then have "stage3_combine (stage3_combine xs ws) ws = stage3_combine xs ws"
    using pysort.rank_of_ranked [OF sorted] unfolding stage3_combine_def [of "stage3_combine xs ws"] by simp
  ultimately show ?thesis by (simp add: stage3_combine_def)
qed

section \<open>The weights and topics of a profile\<close>

definition clamp01 :: "real \<Rightarrow> real" where
  "clamp01 w = min 1 (max 0 w)"

lemma map_of_fold_update:
  "map_of (fold (\<lambda>(k, v) ws. AList.update k v ws) raw ws) = map_of ws ++ map_of (rev raw)"
  by (induction raw arbitrary: ws) (auto simp: update_conv' fun_eq_iff map_add_def split: option.split)

lemma keys_fold_update:
  "distinct (map fst ws) \<Longrightarrow> distinct (map fst (fold (\<lambda>(k, v) ws. AList.update k v ws) raw ws))"
  by (induction raw arbitrary: ws) (auto simp: distinct_update)

lemma map_of_clamp: "map_of (clamp_weights ws) k = map_option clamp01 (map_of ws k)"
  by (induction ws) (auto simp: clamp_weights_def clamp01_def)

lemma keys_clamp: "map fst (clamp_weights ws) = map fst ws"
  by (auto simp: clamp_weights_def)

lemma map_of_resolve:
  "map_of (resolve_weights raw opted) k =
     (let c = map_option clamp01 ((map_of default_weights ++ map_of (rev (case raw of None \<Rightarrow> [] | Some r \<Rightarrow> r))) k)
      in if k = ''classifier'' \<and> opted \<and> c = Some 0 then Some (1 / 10) else c)"
proof -
  let ?ws = "clamp_weights (fold (\<lambda>(k, v) ws. AList.update k v ws) (case raw of None \<Rightarrow> [] | Some r \<Rightarrow> r) default_weights)"
  let ?m = "map_of default_weights ++ map_of (rev (case raw of None \<Rightarrow> [] | Some r \<Rightarrow> r))"
  have ws: "map_of ?ws j = map_option clamp01 (?m j)" for j
    by (simp add: map_of_clamp map_of_fold_update)
  have "?m ''classifier'' \<noteq> None" by (simp add: default_weights_def map_add_None)
  then obtain c where c: "map_of ?ws ''classifier'' = Some c" unfolding ws by (metis not_None_eq option.map_disc_iff)
  show ?thesis
    unfolding resolve_weights_def with_classifier_opt_in_def Let_def ws [symmetric]
    using c by (auto simp: update_conv')
qed

lemma card_dampened: "card (dampened_topics rows n) \<le> n div 2"
proof -
  have "length (if length xs > n div 2 then take (n div 2) xs else xs) \<le> n div 2" for xs :: "(int \<times> int) list"
    by simp
  then show ?thesis
    unfolding dampened_topics_def Let_def by (metis card_length length_map order_trans)
qed

text \<open>
  C40: whatever a reader configured, the weights of a profile are well formed: one weight per signal,
  each in the unit interval, with a configured value for every default signal clamped and all other
  signals at their defaults. The classifier's weight becomes a tenth by opting in exactly if it was
  zero, configured or not. At most as many topics are dampened as half of the reader's topics.
\<close>

theorem profile_in_range:
  "list_all (\<lambda>(k, w). 0 \<le> w \<and> w \<le> 1) (resolve_weights raw opted)
   \<and> distinct (map fst (resolve_weights raw opted))
   \<and> list_all (\<lambda>k. k \<in> set (map fst (resolve_weights raw opted))) (map fst default_weights)
   \<and> map_of (resolve_weights raw opted) k =
       (let c = map_option clamp01 ((map_of default_weights ++ map_of (rev (case raw of None \<Rightarrow> [] | Some r \<Rightarrow> r))) k)
        in if k = ''classifier'' \<and> opted \<and> c = Some 0 then Some (1 / 10) else c)
   \<and> card (dampened_topics rows n) \<le> n div 2 \<and> dampened_topics rows n \<subseteq> set (map fst rows)"
proof (intro conjI)
  let ?f = "fold (\<lambda>(k, v) ws. AList.update k v ws) (case raw of None \<Rightarrow> [] | Some r \<Rightarrow> r) default_weights"
  have d: "distinct (map fst ?f)" by (rule keys_fold_update) (simp add: default_weights_def)
  then show dist: "distinct (map fst (resolve_weights raw opted))"
    by (simp add: resolve_weights_def with_classifier_opt_in_def keys_clamp distinct_update)
  have "w \<in> {0..1}" if "(j, w) \<in> set (resolve_weights raw opted)" for j w
  proof -
    have "map_of (resolve_weights raw opted) j = Some w" using that dist by simp
    then show ?thesis unfolding map_of_resolve by (auto simp: Let_def clamp01_def split: if_splits)
  qed
  then show "list_all (\<lambda>(k, w). 0 \<le> w \<and> w \<le> 1) (resolve_weights raw opted)" by (force simp: list_all_iff)
  have "j \<in> set (map fst (resolve_weights raw opted))" if "j \<in> set (map fst default_weights)" for j
  proof -
    have "map_of default_weights j \<noteq> None" using that by (simp add: map_of_eq_None_iff)
    then have "(map_of default_weights ++ map_of (rev (case raw of None \<Rightarrow> [] | Some r \<Rightarrow> r))) j \<noteq> None"
      unfolding map_add_None by blast
    then have "map_of (resolve_weights raw opted) j \<noteq> None"
      unfolding map_of_resolve Let_def by (simp only: split: if_split) simp
    then show ?thesis by (simp add: map_of_eq_None_iff)
  qed
  then show "list_all (\<lambda>k. k \<in> set (map fst (resolve_weights raw opted))) (map fst default_weights)"
    unfolding list_all_iff by blast
  show "dampened_topics rows n \<subseteq> set (map fst rows)"
    unfolding dampened_topics_def Let_def by (auto dest!: in_set_takeD split: if_splits)
qed (rule map_of_resolve card_dampened)+

end
