(* ===== verification/Pulse_Deck.thy ===== *)
theory Pulse_Deck
  imports Pulse_Scoring Paper_Lifecycle
begin

text \<open>
  The daily deck: selection, persistence and reads (\<open>pulse/deck.py\<close>) and the reader's ratings of its
  cards (\<open>routers/pulse.py\<close>). The tables extend those of the paper lifecycle by the external ids of
  papers, the time stamps of feedback, the decks and the cards. Instants are seconds, dates are day
  numbers; a function that calls \<open>NOW()\<close> or \<open>CURRENT_DATE\<close> takes the value as an argument.
\<close>

section \<open>Tables\<close>

text \<open>
  Why a deck is degraded; the texts that only carry one number or none are constructors, the report
  on empty sources is its text.
\<close>

datatype degraded =
    No_candidates pystr
  | Scoring_unavailable
  | Client_missing
  | Scoring_timed_out
  | Scoring_error
  | Signals_unavailable
  | Dismissed_short nat nat int

record pulse_stats =
  ps_candidates :: nat
  ps_survivors :: nat
  ps_scored :: nat
  ps_llm_calls :: nat
  ps_last_error :: "string option"
  ps_failed_stage :: "string option"
  ps_degraded :: "degraded option"
  ps_deck_date :: "int option"
  ps_card_count :: nat
  ps_training_enqueued :: bool
  ps_verified_total :: nat
  ps_verified_passed :: nat

record deck_row =
  dk_id :: nat
  dk_date :: int
  dk_user :: "int option"
  dk_count :: nat
  dk_generated :: real
  dk_stats :: pulse_stats
  dk_reason :: "degraded option"

record card_row =
  cr_id :: nat
  cr_deck :: nat
  cr_user :: "int option"
  cr_paper :: int
  cr_rank :: nat
  cr_score :: real
  cr_relevance :: "int option"
  cr_novelty :: "int option"
  cr_reasoning :: "pystr option"
  cr_signals :: "string \<Rightarrow> real option"
  cr_verified :: "bool option"
  cr_confidence :: "rag_confidence option"

text \<open>
  \<open>external_id\<close> is unique in \<open>papers\<close>, so it is a function to paper ids; \<open>pd_fb_at\<close> is the
  \<open>created_at\<close> of a feedback row. The last two fields are the sequences.
\<close>

record pulse_db =
  pd_lc :: lc_db
  pd_external :: "pystr \<Rightarrow> int option"
  pd_fb_at :: "int \<times> int option \<times> string \<Rightarrow> real"
  pd_decks :: "deck_row list"
  pd_cards :: "card_row list"
  pd_next_deck :: nat
  pd_next_card :: nat

definition paper_by_external :: "pulse_db \<Rightarrow> pystr \<Rightarrow> int option" where
  "paper_by_external db ext =
     (case pd_external db ext of None \<Rightarrow> None
      | Some pid \<Rightarrow> if db_papers (pd_lc db) pid = None then None else Some pid)"

text \<open>The CHECK constraint on the source of a feedback row.\<close>

definition feedback_sources :: "string list" where
  "feedback_sources = [''pulse_thumbs'', ''feed_thumbs'', ''paper_detail_thumbs'', ''dismiss_combined'']"

text \<open>A negative rating of the paper by the user in the last 60 days.\<close>

definition recently_dismissed :: "pulse_db \<Rightarrow> real \<Rightarrow> int option \<Rightarrow> int \<Rightarrow> bool" where
  "recently_dismissed db now uid pid =
     list_ex (\<lambda>src. db_feedback (pd_lc db) (pid, uid, src) = Some ''negative''
                  \<and> pd_fb_at db (pid, uid, src) > now - 60 * 86400) feedback_sources"

text \<open>\<open>COALESCE(pus.state, 'inbox')\<close> and the visibility predicate; a missing user has no library.\<close>

definition state_of :: "pulse_db \<Rightarrow> int option \<Rightarrow> int \<Rightarrow> string" where
  "state_of db uid pid = (case db_pus (pd_lc db) (pid, uid) of None \<Rightarrow> ''inbox'' | Some r \<Rightarrow> pus_state r)"

definition card_visible :: "pulse_db \<Rightarrow> int option \<Rightarrow> int \<Rightarrow> bool" where
  "card_visible db uid pid =
     (case db_papers (pd_lc db) pid of None \<Rightarrow> False
      | Some p \<Rightarrow> paper_public p \<or> (case uid of None \<Rightarrow> False | Some u \<Rightarrow> (u, pid) \<in> db_library (pd_lc db)))"

section \<open>Selection\<close>

definition assemble_deck :: "scored list \<Rightarrow> int \<Rightarrow> scored list" where
  "assemble_deck scored sz =
     (if scored = [] then [] else py_prefix sz (py_sort_desc score_or_zero scored))"

definition exclude_recently_dismissed :: "pulse_db \<Rightarrow> real \<Rightarrow> scored list \<Rightarrow> int option \<Rightarrow> scored list" where
  "exclude_recently_dismissed db now scored uid =
     (if scored = [] then []
      else filter (\<lambda>sc. case paper_by_external db (pc_external (sc_paper sc)) of
                     None \<Rightarrow> True | Some pid \<Rightarrow> \<not> recently_dismissed db now uid pid) scored)"

definition select_deck_cards :: "pulse_db \<Rightarrow> real \<Rightarrow> scored list \<Rightarrow> int \<Rightarrow> int option \<Rightarrow> scored list \<times> nat" where
  "select_deck_cards db now scored sz uid =
     (let eligible = exclude_recently_dismissed db now scored uid
      in (assemble_deck eligible sz, length scored - length eligible))"

section \<open>Persistence\<close>

definition deck_matches :: "int \<Rightarrow> int option \<Rightarrow> deck_row \<Rightarrow> bool" where
  "deck_matches date uid d \<longleftrightarrow> dk_date d = date \<and> dk_user d = uid"

text \<open>The upsert of the deck row; the sequence also advances when the row exists.\<close>

definition upsert_deck :: "pulse_db \<Rightarrow> real \<Rightarrow> int \<Rightarrow> pulse_stats \<Rightarrow> degraded option \<Rightarrow> int option \<Rightarrow> nat \<times> pulse_db" where
  "upsert_deck db now date stats reason uid =
     (let db' = db\<lparr>pd_next_deck := Suc (pd_next_deck db)\<rparr> in
      case find (deck_matches date uid) (pd_decks db) of
        None \<Rightarrow>
          (pd_next_deck db,
           db'\<lparr>pd_decks := pd_decks db @ [\<lparr>dk_id = pd_next_deck db, dk_date = date, dk_user = uid, dk_count = 0,
                 dk_generated = now, dk_stats = stats, dk_reason = reason\<rparr>]\<rparr>)
      | Some d \<Rightarrow>
          (dk_id d,
           db'\<lparr>pd_decks := map (\<lambda>e. if deck_matches date uid e
                 then e\<lparr>dk_count := 0, dk_generated := now, dk_stats := stats, dk_reason := reason\<rparr> else e) (pd_decks db)\<rparr>))"

text \<open>
  The \<open>SELECT\<close> behind one card: the shared paper that is neither trashed nor done. The
  \<open>INSERT\<close> skips a paper that already has a card in the deck.
\<close>

definition card_paper :: "pulse_db \<Rightarrow> int option \<Rightarrow> scored \<Rightarrow> int option" where
  "card_paper db uid sc =
     (case paper_by_external db (pc_external (sc_paper sc)) of
        None \<Rightarrow> None
      | Some pid \<Rightarrow>
          (case db_papers (pd_lc db) pid of
             None \<Rightarrow> None
           | Some p \<Rightarrow> if paper_public p \<and> state_of db uid pid \<notin> {''trash'', ''done''} then Some pid else None))"

definition new_card :: "pulse_db \<Rightarrow> nat \<Rightarrow> int option \<Rightarrow> int \<Rightarrow> nat \<Rightarrow> scored \<Rightarrow> card_row" where
  "new_card db deck uid pid rank sc =
     \<lparr>cr_id = pd_next_card db, cr_deck = deck, cr_user = uid, cr_paper = pid, cr_rank = rank,
      cr_score = score_or_zero sc, cr_relevance = sc_relevance sc, cr_novelty = sc_novelty sc,
      cr_reasoning = sc_reasoning sc, cr_signals = sc_signals sc, cr_verified = sc_verified sc,
      cr_confidence = sc_confidence sc\<rparr>"

definition insert_card :: "nat \<Rightarrow> int option \<Rightarrow> nat \<times> scored \<Rightarrow> nat \<times> pulse_db \<Rightarrow> nat \<times> pulse_db" where
  "insert_card deck uid = (\<lambda>(rank, sc) (successes, db).
     case card_paper db uid sc of
       None \<Rightarrow> (successes, db)
     | Some pid \<Rightarrow>
         if list_ex (\<lambda>c. cr_deck c = deck \<and> cr_paper c = pid) (pd_cards db)
         then (successes, db\<lparr>pd_next_card := Suc (pd_next_card db)\<rparr>)
         else (Suc successes,
               db\<lparr>pd_next_card := Suc (pd_next_card db), pd_cards := pd_cards db @ [new_card db deck uid pid rank sc]\<rparr>))"

definition persist_deck_inner ::
  "pulse_db \<Rightarrow> real \<Rightarrow> int \<Rightarrow> scored list \<Rightarrow> pulse_stats \<Rightarrow> degraded option \<Rightarrow> int option \<Rightarrow> nat \<times> pulse_db" where
  "persist_deck_inner db now date cards stats reason uid =
     (let (deck, db1) = upsert_deck db now date stats reason uid;
          db2 = db1\<lparr>pd_cards := filter (\<lambda>c. cr_deck c \<noteq> deck) (pd_cards db1)\<rparr>;
          (successes, db3) = fold (insert_card deck uid) (enumerate 1 cards) (0, db2)
      in (successes,
          db3\<lparr>pd_decks := map (\<lambda>d. if dk_id d = deck then d\<lparr>dk_count := successes\<rparr> else d) (pd_decks db3)\<rparr>))"

section \<open>Reads\<close>

record deck_response =
  ds_deck :: nat
  ds_date :: int
  ds_count :: nat
  ds_cards :: "(card_row \<times> string option) list"
  ds_reason :: "degraded option"
  ds_stale :: bool
  ds_stale_age :: "int option"
  ds_empty_reason :: "string option"

definition build_deck_response :: "pulse_db \<Rightarrow> int option \<Rightarrow> deck_row \<Rightarrow> card_row list \<Rightarrow> deck_response" where
  "build_deck_response db uid d cards =
     \<lparr>ds_deck = dk_id d, ds_date = dk_date d, ds_count = length cards,
      ds_cards = map (\<lambda>c. (c, map_option pus_state (db_pus (pd_lc db) (cr_paper c, uid)))) cards,
      ds_reason = dk_reason d, ds_stale = False, ds_stale_age = None, ds_empty_reason = None\<rparr>"

text \<open>The cards of a deck that satisfy a condition, by rank.\<close>

definition deck_cards :: "pulse_db \<Rightarrow> nat \<Rightarrow> (card_row \<Rightarrow> bool) \<Rightarrow> card_row list" where
  "deck_cards db deck P = sort_key cr_rank (filter (\<lambda>c. cr_deck c = deck \<and> P c) (pd_cards db))"

definition shows_card :: "pulse_db \<Rightarrow> int option \<Rightarrow> card_row \<Rightarrow> bool" where
  "shows_card db uid c \<longleftrightarrow> state_of db uid (cr_paper c) \<noteq> ''trash'' \<and> card_visible db uid (cr_paper c)"

definition load_today :: "pulse_db \<Rightarrow> int \<Rightarrow> int option \<Rightarrow> deck_response option" where
  "load_today db today uid =
     map_option (\<lambda>d. build_deck_response db uid d (deck_cards db (dk_id d) (shows_card db uid)))
       (find (deck_matches today uid) (pd_decks db))"

definition load_history :: "pulse_db \<Rightarrow> int \<Rightarrow> int \<Rightarrow> int option \<Rightarrow> deck_response list" where
  "load_history db today days uid =
     map (\<lambda>d. build_deck_response db uid d (deck_cards db (dk_id d) (\<lambda>c. card_visible db uid (cr_paper c))))
       (py_sort_desc dk_date (filter (\<lambda>d. dk_date d < today \<and> today - days \<le> dk_date d \<and> dk_user d = uid) (pd_decks db)))"

definition load_last_nonempty_deck :: "pulse_db \<Rightarrow> real \<Rightarrow> int \<Rightarrow> int option \<Rightarrow> int \<Rightarrow> deck_response option" where
  "load_last_nonempty_deck db now today uid max_age =
     (let eligible = (\<lambda>c. shows_card db uid c \<and> \<not> recently_dismissed db now uid (cr_paper c));
          decks = filter (\<lambda>d. dk_user d = uid \<and> dk_count d > 0 \<and> today - max_age \<le> dk_date d
                    \<and> list_ex (\<lambda>c. cr_deck c = dk_id d \<and> eligible c) (pd_cards db)) (pd_decks db)
      in case py_sort_desc dk_date decks of
           [] \<Rightarrow> None
         | d # _ \<Rightarrow> Some (build_deck_response db uid d (deck_cards db (dk_id d) eligible)))"

text \<open>\<open>GET /api/pulse/today\<close>; the service's date is the database's.\<close>

definition get_today :: "pulse_db \<Rightarrow> real \<Rightarrow> int \<Rightarrow> int option \<Rightarrow> deck_response option" where
  "get_today db now today uid =
     (case load_today db today uid of
        None \<Rightarrow> None
      | Some deck \<Rightarrow>
          if ds_count deck > 0 then Some deck
          else case load_last_nonempty_deck db now today uid 7 of
                 Some fallback \<Rightarrow> Some (fallback\<lparr>ds_stale := True, ds_stale_age := Some (today - ds_date fallback)\<rparr>)
               | None \<Rightarrow> Some (deck\<lparr>ds_empty_reason := Some ''no_data_yet''\<rparr>))"

section \<open>Ratings\<close>





section \<open>The selection\<close>

definition dismissed_candidate :: "pulse_db \<Rightarrow> real \<Rightarrow> int option \<Rightarrow> scored \<Rightarrow> bool" where
  "dismissed_candidate db now uid sc =
     (case paper_by_external db (pc_external (sc_paper sc)) of None \<Rightarrow> False | Some pid \<Rightarrow> recently_dismissed db now uid pid)"

lemma exclude_eq: "exclude_recently_dismissed db now xs uid = filter (\<lambda>sc. \<not> dismissed_candidate db now uid sc) xs"
  by (auto simp: exclude_recently_dismissed_def dismissed_candidate_def intro!: filter_cong split: option.splits)

lemma assemble_eq: "0 \<le> sz \<Longrightarrow> assemble_deck xs sz = take (nat sz) (py_sort_desc score_or_zero xs)"
  by (simp add: assemble_deck_def py_prefix_def py_sort_desc_def)

text \<open>
  C28: the deck is filled with the best candidates the reader has not rated down. The selection takes
  the beginning of the ranking of all candidates without a negative rating in the last 60 days: no
  dismissed candidate enters, the deck is shorter than its size only when candidates run out, and
  none left out scores higher than one that is in; the second result counts the exclusions. After
  the final stage the deck keeps its order.
\<close>

theorem deck_selection:
  assumes "0 \<le> sz" and "select_deck_cards db now xs sz uid = (deck, excluded)"
  shows "length deck = min (nat sz) (length (filter (\<lambda>sc. \<not> dismissed_candidate db now uid sc) xs))
    \<and> list_all (\<lambda>sc. sc \<in> set xs \<and> \<not> dismissed_candidate db now uid sc) deck
    \<and> excluded = length (filter (dismissed_candidate db now uid) xs)
    \<and> (\<exists>rest. mset (deck @ rest) = mset (filter (\<lambda>sc. \<not> dismissed_candidate db now uid sc) xs)
          \<and> sorted_wrt (\<lambda>x y. score_or_zero y \<le> score_or_zero x) (deck @ rest))
    \<and> (\<forall>ys ws. xs = stage3_combine ys ws \<longrightarrow> deck = take (nat sz) (filter (\<lambda>sc. \<not> dismissed_candidate db now uid sc) xs))"
proof -
  let ?el = "filter (\<lambda>sc. \<not> dismissed_candidate db now uid sc) xs"
  let ?r = "py_sort_desc score_or_zero ?el"
  have deck: "deck = take (nat sz) ?r" and ex: "excluded = length xs - length ?el"
    using assms by (auto simp: select_deck_cards_def Let_def exclude_eq assemble_eq)
  have "length xs = length ?el + length (filter (dismissed_candidate db now uid) xs)"
    using sum_length_filter_compl [of "dismissed_candidate db now uid" xs] by simp
  then have cnt: "excluded = length (filter (dismissed_candidate db now uid) xs)" using ex by simp
  have rest: "mset (deck @ drop (nat sz) ?r) = mset ?el \<and> sorted_wrt (\<lambda>x y. score_or_zero y \<le> score_or_zero x) (deck @ drop (nat sz) ?r)"
    unfolding deck append_take_drop_id by (simp add: sorted_wrt_py_sort_desc)
  have keep: "deck = take (nat sz) ?el" if "xs = stage3_combine ys ws" for ys ws
  proof -
    have "sorted_wrt (\<lambda>x y. sc_final y \<le> sc_final x) xs"
      unfolding that stage3_combine_def by (rule sorted_wrt_py_sort_desc)
    moreover have "\<exists>v. sc_final x = Some v" if "x \<in> set xs" for x
      using that unfolding \<open>xs = _\<close> stage3_combine_def by auto
    moreover have "score_or_zero y \<le> score_or_zero x"
      if "sc_final y \<le> sc_final x" "\<exists>v. sc_final x = Some v" "\<exists>v. sc_final y = Some v" for x y
      using that by (auto simp: score_or_zero_def)
    ultimately have "sorted_wrt (\<lambda>x y. score_or_zero y \<le> score_or_zero x) xs"
      by (elim sorted_wrt_mono_rel [rotated]) blast
    then have "?r = ?el" by (intro pysort.rank_of_ranked sorted_wrt_filter)
    then show ?thesis by (simp add: deck)
  qed
  have "list_all (\<lambda>sc. sc \<in> set xs \<and> \<not> dismissed_candidate db now uid sc) deck"
    by (auto simp: deck list_all_iff dest!: in_set_takeD)
  moreover have "length deck = min (nat sz) (length ?el)" by (simp add: deck)
  ultimately show ?thesis using rest cnt keep by blast
qed

section \<open>The tables' invariant\<close>

definition pulse_wf :: "pulse_db \<Rightarrow> bool" where
  "pulse_wf db \<longleftrightarrow>
     distinct (map dk_id (pd_decks db))
     \<and> distinct (map (\<lambda>d. (dk_date d, dk_user d)) (pd_decks db))
     \<and> list_all (\<lambda>d. dk_id d < pd_next_deck db
           \<and> dk_count d = length (filter (\<lambda>c. cr_deck c = dk_id d) (pd_cards db))) (pd_decks db)
     \<and> distinct (map cr_id (pd_cards db))
     \<and> distinct (map (\<lambda>c. (cr_deck c, cr_paper c)) (pd_cards db))
     \<and> list_all (\<lambda>c. cr_id c < pd_next_card db
           \<and> list_ex (\<lambda>d. dk_id d = cr_deck c \<and> dk_user d = cr_user c) (pd_decks db)) (pd_cards db)"

text \<open>What a card shows, apart from its keys.\<close>

type_synonym card_view = "int \<times> nat \<times> real \<times> int option \<times> int option \<times> pystr option \<times> (string \<Rightarrow> real option)
  \<times> bool option \<times> rag_confidence option"

definition card_view :: "card_row \<Rightarrow> card_view" where
  "card_view c = (cr_paper c, cr_rank c, cr_score c, cr_relevance c, cr_novelty c, cr_reasoning c,
     cr_signals c, cr_verified c, cr_confidence c)"

text \<open>
  The specification of a deck: the candidates with an eligible shared paper, the first one for each
  paper, with their positions as ranks.
\<close>

fun deck_spec :: "pulse_db \<Rightarrow> int option \<Rightarrow> int set \<Rightarrow> (nat \<times> scored) list \<Rightarrow> card_view list" where
  "deck_spec db uid seen [] = []"
| "deck_spec db uid seen ((rank, sc) # xs) =
     (case card_paper db uid sc of
        None \<Rightarrow> deck_spec db uid seen xs
      | Some pid \<Rightarrow>
          if pid \<in> seen then deck_spec db uid seen xs
          else (pid, rank, score_or_zero sc, sc_relevance sc, sc_novelty sc, sc_reasoning sc, sc_signals sc,
                sc_verified sc, sc_confidence sc) # deck_spec db uid (insert pid seen) xs)"

definition deck_abs :: "pulse_db \<Rightarrow> int \<times> int option \<Rightarrow> card_view list option" where
  "deck_abs db = (\<lambda>(date, uid). map_option (\<lambda>d. map card_view (deck_cards db (dk_id d) (\<lambda>_. True)))
     (find (deck_matches date uid) (pd_decks db)))"

lemma card_paper_cong:
  "pd_lc db' = pd_lc db \<Longrightarrow> pd_external db' = pd_external db \<Longrightarrow> card_paper db' uid sc = card_paper db uid sc"
  by (simp add: card_paper_def paper_by_external_def state_of_def cong: option.case_cong)

lemma deck_spec_cong:
  "pd_lc db' = pd_lc db \<Longrightarrow> pd_external db' = pd_external db \<Longrightarrow> deck_spec db' uid seen xs = deck_spec db uid seen xs"
proof (induction xs arbitrary: seen)
  case (Cons x xs)
  then show ?case using card_paper_cong [OF Cons.prems, of uid "snd x"] by (cases x) (auto split: option.split)
qed simp

text \<open>The papers that already have a card in a deck.\<close>

definition deck_papers :: "pulse_db \<Rightarrow> nat \<Rightarrow> int set" where
  "deck_papers db deck = cr_paper ` {c \<in> set (pd_cards db). cr_deck c = deck}"

lemma deck_papers_next [simp]: "deck_papers (db\<lparr>pd_next_card := n\<rparr>) deck = deck_papers db deck"
  by (simp add: deck_papers_def)

lemma insert_card_step:
  "insert_card deck uid (rank, sc) (n, db) =
     (case card_paper db uid sc of
        None \<Rightarrow> (n, db)
      | Some pid \<Rightarrow>
          if pid \<in> deck_papers db deck
          then (n, db\<lparr>pd_next_card := Suc (pd_next_card db)\<rparr>)
          else (Suc n, db\<lparr>pd_next_card := Suc (pd_next_card db), pd_cards := pd_cards db @ [new_card db deck uid pid rank sc]\<rparr>))"
  by (auto simp: insert_card_def list_ex_iff deck_papers_def split: option.split)

text \<open>The insertion loop appends the specified cards, with fresh ids.\<close>

lemma insert_cards:
  assumes "fold (insert_card deck uid) xs (n, db) = (n', db')"
  shows "\<exists>new. db' = db\<lparr>pd_cards := pd_cards db @ new, pd_next_card := pd_next_card db'\<rparr>
    \<and> map card_view new = deck_spec db uid (deck_papers db deck) xs
    \<and> n' = n + length new \<and> pd_next_card db \<le> pd_next_card db'
    \<and> list_all (\<lambda>c. cr_deck c = deck \<and> cr_user c = uid \<and> pd_next_card db \<le> cr_id c \<and> cr_id c < pd_next_card db'
          \<and> cr_paper c \<notin> deck_papers db deck) new
    \<and> distinct (map cr_id new) \<and> distinct (map cr_paper new)"
  using assms
proof (induction xs arbitrary: n db)
  case (Cons x xs)
  obtain rank sc where x: "x = (rank, sc)" by fastforce
  let ?seen = "deck_papers db deck"
  show ?case
  proof (cases "card_paper db uid sc")
    case None
    then show ?thesis using Cons.IH [of n db] Cons.prems by (simp add: x insert_card_step)
  next
    case (Some pid)
    show ?thesis
    proof (cases "pid \<in> ?seen")
      case True
      let ?db1 = "db\<lparr>pd_next_card := Suc (pd_next_card db)\<rparr>"
      have "fold (insert_card deck uid) xs (n, ?db1) = (n', db')"
        using Cons.prems True Some by (simp add: x insert_card_step)
      from Cons.IH [OF this] obtain new where
        "db' = ?db1\<lparr>pd_cards := pd_cards db @ new, pd_next_card := pd_next_card db'\<rparr>"
        "map card_view new = deck_spec ?db1 uid ?seen xs" "n' = n + length new" "Suc (pd_next_card db) \<le> pd_next_card db'"
        "list_all (\<lambda>c. cr_deck c = deck \<and> cr_user c = uid \<and> Suc (pd_next_card db) \<le> cr_id c \<and> cr_id c < pd_next_card db' \<and> cr_paper c \<notin> ?seen) new"
        "distinct (map cr_id new)" "distinct (map cr_paper new)" by auto
      then show ?thesis
        using Some True deck_spec_cong [of ?db1 db uid ?seen xs]
        by (intro exI [of _ new]) (auto simp: x list_all_iff)
    next
      case False
      let ?c = "new_card db deck uid pid rank sc"
      let ?db1 = "db\<lparr>pd_next_card := Suc (pd_next_card db), pd_cards := pd_cards db @ [?c]\<rparr>"
      have "fold (insert_card deck uid) xs (Suc n, ?db1) = (n', db')"
        using Cons.prems False Some by (simp add: x insert_card_step)
      note ih = Cons.IH [OF this]
      have c: "cr_deck ?c = deck" "cr_user ?c = uid" "cr_id ?c = pd_next_card db" "cr_paper ?c = pid"
          "card_view ?c = (pid, rank, score_or_zero sc, sc_relevance sc, sc_novelty sc, sc_reasoning sc, sc_signals sc, sc_verified sc, sc_confidence sc)"
        by (simp_all add: new_card_def card_view_def)
      have "{x \<in> set (pd_cards ?db1). cr_deck x = deck} = insert ?c {x \<in> set (pd_cards db). cr_deck x = deck}"
        using c(1) by auto
      then have seen: "deck_papers ?db1 deck = insert pid ?seen" by (simp add: deck_papers_def c(4))
      from ih obtain new where new:
        "db' = ?db1\<lparr>pd_cards := pd_cards ?db1 @ new, pd_next_card := pd_next_card db'\<rparr>"
        "map card_view new = deck_spec ?db1 uid (insert pid ?seen) xs" "n' = Suc n + length new"
        "Suc (pd_next_card db) \<le> pd_next_card db'"
        "list_all (\<lambda>c. cr_deck c = deck \<and> cr_user c = uid \<and> Suc (pd_next_card db) \<le> cr_id c \<and> cr_id c < pd_next_card db' \<and> cr_paper c \<notin> insert pid ?seen) new"
        "distinct (map cr_id new)" "distinct (map cr_paper new)" unfolding seen by auto
      have "db' = db\<lparr>pd_cards := pd_cards db @ (?c # new), pd_next_card := pd_next_card db'\<rparr>"
        using new(1) by simp
      moreover have "map card_view (?c # new) = deck_spec db uid ?seen (x # xs)"
        using Some False new(2) deck_spec_cong [of ?db1 db uid "insert pid ?seen" xs] by (simp add: x c)
      moreover have "list_all (\<lambda>c. cr_deck c = deck \<and> cr_user c = uid \<and> pd_next_card db \<le> cr_id c \<and> cr_id c < pd_next_card db' \<and> cr_paper c \<notin> ?seen) (?c # new)"
        using new(4,5) c False by (auto simp: list_all_iff)
      moreover have "distinct (map cr_id (?c # new))" "distinct (map cr_paper (?c # new))"
        using new(5-7) c by (auto simp: list_all_iff)
      ultimately show ?thesis using new(3,4) by (intro exI [of _ "?c # new"]) auto
    qed
  qed
qed simp

section \<open>Persisting a deck refines a map update\<close>

definition deck_id_of :: "pulse_db \<Rightarrow> int \<Rightarrow> int option \<Rightarrow> nat option" where
  "deck_id_of db date uid = map_option dk_id (find (deck_matches date uid) (pd_decks db))"

lemma deck_abs_alt: "deck_abs db (date, uid) = map_option (\<lambda>i. map card_view (deck_cards db i (\<lambda>_. True))) (deck_id_of db date uid)"
  by (simp add: deck_abs_def deck_id_of_def option.map_comp comp_def)

lemma find_map_deck:
  assumes "\<And>d. dk_date (f d) = dk_date d \<and> dk_user (f d) = dk_user d \<and> dk_id (f d) = dk_id d"
  shows "map_option dk_id (find (deck_matches a b) (map f ds)) = map_option dk_id (find (deck_matches a b) ds)"
  using assms by (induction ds) (auto simp: deck_matches_def)

lemma deck_id_of_Some: "deck_id_of db date uid = Some i \<Longrightarrow> \<exists>d \<in> set (pd_decks db). dk_id d = i \<and> dk_date d = date \<and> dk_user d = uid"
  by (auto simp: deck_id_of_def find_Some_iff deck_matches_def)

lemma deck_id_of_None: "deck_id_of db date uid = None \<longleftrightarrow> (\<forall>d \<in> set (pd_decks db). \<not> deck_matches date uid d)"
  by (auto simp: deck_id_of_def find_None_iff)

lemma deck_ids_differ:
  assumes "pulse_wf db" and "deck_id_of db a b = Some i" and "deck_id_of db a' b' = Some i"
  shows "a = a' \<and> b = b'"
proof -
  obtain d d' where "d \<in> set (pd_decks db)" "dk_id d = i" "dk_date d = a" "dk_user d = b"
      "d' \<in> set (pd_decks db)" "dk_id d' = i" "dk_date d' = a'" "dk_user d' = b'"
    using deck_id_of_Some [OF assms(2)] deck_id_of_Some [OF assms(3)] by blast
  moreover have "inj_on dk_id (set (pd_decks db))" using assms(1) by (simp add: pulse_wf_def distinct_map)
  ultimately show ?thesis by (metis inj_onD)
qed

lemma deck_spec_ranks:
  "sorted_wrt (<) (map fst xs) \<Longrightarrow> sorted_wrt (<) (map (\<lambda>v. fst (snd v)) (deck_spec db uid seen xs))
     \<and> (\<forall>v \<in> set (deck_spec db uid seen xs). fst (snd v) \<in> fst ` set xs)"
proof (induction xs arbitrary: seen)
  case (Cons x xs)
  obtain r sc where x: "x = (r, sc)" by fastforce
  show ?case using Cons.IH Cons.prems by (force simp: x split: option.split)
qed simp

lemma sorted_enumerate: "sorted_wrt (<) (map fst (enumerate n xs))"
  by (simp add: enumerate_eq_zip)

text \<open>What the upsert of the deck row does.\<close>

lemma upsert_deck_spec:
  assumes "pulse_wf db" and "upsert_deck db now date stats reason uid = (deck, db1)"
  shows "pd_cards db1 = pd_cards db \<and> pd_lc db1 = pd_lc db \<and> pd_external db1 = pd_external db
      \<and> pd_next_card db1 = pd_next_card db \<and> pd_next_deck db1 = Suc (pd_next_deck db)"
    and "deck_id_of db1 date uid = Some deck"
    and "(a, b) \<noteq> (date, uid) \<Longrightarrow> deck_id_of db1 a b = deck_id_of db a b"
    and "distinct (map dk_id (pd_decks db1)) \<and> distinct (map (\<lambda>d. (dk_date d, dk_user d)) (pd_decks db1))"
    and "list_all (\<lambda>d. dk_id d < Suc (pd_next_deck db)
           \<and> (if dk_id d = deck then dk_date d = date \<and> dk_user d = uid \<and> dk_stats d = stats \<and> dk_reason d = reason
              else d \<in> set (pd_decks db))) (pd_decks db1)"
    and "d \<in> set (pd_decks db) \<Longrightarrow> \<exists>e \<in> set (pd_decks db1). dk_id e = dk_id d \<and> dk_user e = dk_user d"
proof -
  note wf = assms(1) [unfolded pulse_wf_def]
  let ?f = "\<lambda>e. if deck_matches date uid e
      then e\<lparr>dk_count := 0, dk_generated := now, dk_stats := stats, dk_reason := reason\<rparr> else e"
  let ?new = "\<lparr>dk_id = pd_next_deck db, dk_date = date, dk_user = uid, dk_count = 0,
      dk_generated = now, dk_stats = stats, dk_reason = reason\<rparr>"
  show "pd_cards db1 = pd_cards db \<and> pd_lc db1 = pd_lc db \<and> pd_external db1 = pd_external db
      \<and> pd_next_card db1 = pd_next_card db \<and> pd_next_deck db1 = Suc (pd_next_deck db)"
    using assms(2) by (auto simp: upsert_deck_def Let_def split: option.splits)
  have f: "dk_date (?f d) = dk_date d \<and> dk_user (?f d) = dk_user d \<and> dk_id (?f d) = dk_id d" for d by simp
  show "deck_id_of db1 date uid = Some deck"
    using assms(2) find_map_deck [of ?f date uid "pd_decks db", OF f]
    by (auto simp: upsert_deck_def Let_def deck_id_of_def deck_matches_def find_append split: option.splits)
  show "deck_id_of db1 a b = deck_id_of db a b" if "(a, b) \<noteq> (date, uid)"
    using assms(2) find_map_deck [of ?f a b "pd_decks db", OF f] that
    by (auto simp: upsert_deck_def Let_def deck_id_of_def find_append deck_matches_def [of a b ?new] split: option.splits)
  have ids: "map dk_id (map ?f (pd_decks db)) = map dk_id (pd_decks db)"
      "map (\<lambda>d. (dk_date d, dk_user d)) (map ?f (pd_decks db)) = map (\<lambda>d. (dk_date d, dk_user d)) (pd_decks db)"
    by (auto simp: f)
  show "distinct (map dk_id (pd_decks db1)) \<and> distinct (map (\<lambda>d. (dk_date d, dk_user d)) (pd_decks db1))"
  proof (cases "find (deck_matches date uid) (pd_decks db)")
    case None
    then have "pd_decks db1 = pd_decks db @ [?new]" using assms(2) by (auto simp: upsert_deck_def)
    moreover have "\<forall>d \<in> set (pd_decks db). (dk_date d, dk_user d) \<noteq> (date, uid)"
      using None by (auto simp: find_None_iff deck_matches_def)
    ultimately show ?thesis using wf by (auto simp: list_all_iff)
  next
    case (Some d)
    then have "pd_decks db1 = map ?f (pd_decks db)" using assms(2) by (auto simp: upsert_deck_def)
    then show ?thesis using wf ids by metis
  qed
  show "list_all (\<lambda>d. dk_id d < Suc (pd_next_deck db)
           \<and> (if dk_id d = deck then dk_date d = date \<and> dk_user d = uid \<and> dk_stats d = stats \<and> dk_reason d = reason
              else d \<in> set (pd_decks db))) (pd_decks db1)"
  proof (cases "find (deck_matches date uid) (pd_decks db)")
    case None
    then have "pd_decks db1 = pd_decks db @ [?new]" "deck = pd_next_deck db"
      using assms(2) by (auto simp: upsert_deck_def)
    then show ?thesis using wf by (auto simp: list_all_iff less_Suc_eq)
  next
    case (Some d)
    then have d: "d \<in> set (pd_decks db)" "deck_matches date uid d" by (auto simp: find_Some_iff)
    have "dk_id d = deck" and db1: "pd_decks db1 = map ?f (pd_decks db)"
      using assms(2) Some by (auto simp: upsert_deck_def)
    note d = d this(1)
    have "deck_matches date uid e \<longleftrightarrow> dk_id e = deck" if "e \<in> set (pd_decks db)" for e
    proof
      assume "deck_matches date uid e"
      then have "(dk_date e, dk_user e) = (dk_date d, dk_user d)" using d by (simp add: deck_matches_def)
      then have "e = d" using wf that d(1) by (auto simp: distinct_map dest: inj_onD)
      then show "dk_id e = deck" using d by simp
    next
      assume "dk_id e = deck"
      then have "e = d" using wf that d(1,3) by (auto simp: distinct_map dest: inj_onD)
      then show "deck_matches date uid e" using d by simp
    qed
    note key = this [unfolded deck_matches_def]
    show ?thesis
      using wf key by (auto simp: db1 list_all_iff deck_matches_def less_Suc_eq) blast+
  qed
  show "\<exists>e \<in> set (pd_decks db1). dk_id e = dk_id d \<and> dk_user e = dk_user d" if "d \<in> set (pd_decks db)"
  proof (cases "find (deck_matches date uid) (pd_decks db)")
    case None
    then show ?thesis using assms(2) that by (auto simp: upsert_deck_def)
  next
    case (Some e)
    then have "pd_decks db1 = map ?f (pd_decks db)" using assms(2) by (auto simp: upsert_deck_def)
    then have "?f d \<in> set (pd_decks db1)" using that by simp
    then show ?thesis using f [of d] by blast
  qed
qed

lemma deck_cards_new:
  assumes "sorted_wrt (<) (map cr_rank new)" and "list_all (\<lambda>c. cr_deck c = deck) new"
    and "pd_cards db = filter (\<lambda>c. cr_deck c \<noteq> deck) old @ new"
  shows "deck_cards db deck (\<lambda>_. True) = new"
proof -
  have "filter (\<lambda>c. cr_deck c = deck) new = new" using assms(2) by (simp add: filter_id_conv list_all_iff)
  moreover have "sorted (map cr_rank new)" using assms(1) by (simp add: strict_sorted_iff)
  ultimately show ?thesis using assms(3) by (simp add: deck_cards_def sort_key_id_if_sorted)
qed

text \<open>The final update of the count, and the shape of the result.\<close>

definition set_count :: "nat \<Rightarrow> nat \<Rightarrow> deck_row \<Rightarrow> deck_row" where
  "set_count deck n d = (if dk_id d = deck then d\<lparr>dk_count := n\<rparr> else d)"

lemma set_count_keys [simp]:
  "dk_date (set_count deck n d) = dk_date d" "dk_user (set_count deck n d) = dk_user d"
  "dk_id (set_count deck n d) = dk_id d" "dk_stats (set_count deck n d) = dk_stats d"
  "dk_reason (set_count deck n d) = dk_reason d"
  "dk_count (set_count deck n d) = (if dk_id d = deck then n else dk_count d)"
  by (simp_all add: set_count_def)

definition persisted_as :: "pulse_db \<Rightarrow> nat \<Rightarrow> int option \<Rightarrow> pulse_db \<Rightarrow> card_row list \<Rightarrow> pulse_db \<Rightarrow> bool" where
  "persisted_as db deck uid db1 new db' \<longleftrightarrow>
     pd_cards db' = filter (\<lambda>c. cr_deck c \<noteq> deck) (pd_cards db) @ new
     \<and> pd_decks db' = map (set_count deck (length new)) (pd_decks db1)
     \<and> pd_lc db' = pd_lc db \<and> pd_external db' = pd_external db
     \<and> pd_next_deck db' = Suc (pd_next_deck db) \<and> pd_next_card db \<le> pd_next_card db'
     \<and> list_all (\<lambda>c. cr_deck c = deck \<and> cr_user c = uid \<and> pd_next_card db \<le> cr_id c \<and> cr_id c < pd_next_card db') new
     \<and> distinct (map cr_id new) \<and> distinct (map cr_paper new)"

lemma persist_shape:
  assumes "pulse_wf db" and "persist_deck_inner db now date cards stats reason uid = (n, db')"
  shows "\<exists>deck db1 new. upsert_deck db now date stats reason uid = (deck, db1) \<and> n = length new
    \<and> map card_view new = deck_spec db uid {} (enumerate 1 cards) \<and> persisted_as db deck uid db1 new db'"
proof -
  obtain deck db1 where u: "upsert_deck db now date stats reason uid = (deck, db1)" by fastforce
  note up = upsert_deck_spec [OF assms(1) u]
  let ?db2 = "db1\<lparr>pd_cards := filter (\<lambda>c. cr_deck c \<noteq> deck) (pd_cards db1)\<rparr>"
  obtain m db3 where l: "fold (insert_card deck uid) (enumerate 1 cards) (0, ?db2) = (m, db3)" by fastforce
  have n: "n = m" and db': "db' = db3\<lparr>pd_decks := map (set_count deck m) (pd_decks db3)\<rparr>"
    using assms(2) u l by (auto simp: persist_deck_inner_def set_count_def [abs_def])
  have seen: "deck_papers ?db2 deck = {}" by (auto simp: deck_papers_def)
  have same: "deck_spec ?db2 uid {} xs = deck_spec db uid {} xs" for xs
    by (rule deck_spec_cong) (use up(1) in auto)
  obtain new where db3: "db3 = ?db2\<lparr>pd_cards := pd_cards ?db2 @ new, pd_next_card := pd_next_card db3\<rparr>"
    and views: "map card_view new = deck_spec db uid {} (enumerate 1 cards)" and m: "m = length new"
    and nxt: "pd_next_card db \<le> pd_next_card db3"
    and new: "list_all (\<lambda>c. cr_deck c = deck \<and> cr_user c = uid \<and> pd_next_card db \<le> cr_id c \<and> cr_id c < pd_next_card db3) new"
    and dist: "distinct (map cr_id new)" "distinct (map cr_paper new)"
    using insert_cards [OF l] up(1) unfolding seen same by (auto simp: list_all_iff)
  have "pd_cards db' = filter (\<lambda>c. cr_deck c \<noteq> deck) (pd_cards db) @ new"
    and "pd_decks db' = map (set_count deck m) (pd_decks db1)" and "pd_next_card db' = pd_next_card db3"
    and "pd_next_deck db' = Suc (pd_next_deck db)" and "pd_lc db' = pd_lc db" "pd_external db' = pd_external db"
    using up(1) by (subst db', subst db3, simp)+
  then have "persisted_as db deck uid db1 new db'"
    using new dist nxt unfolding persisted_as_def m by presburger
  then show ?thesis using u n m views by blast
qed

lemma persist_abs:
  assumes "pulse_wf db" and u: "upsert_deck db now date stats reason uid = (deck, db1)"
    and p: "persisted_as db deck uid db1 new db'"
    and views: "map card_view new = deck_spec db uid {} (enumerate 1 cards)"
  shows "deck_abs db' = (deck_abs db)((date, uid) \<mapsto> deck_spec db uid {} (enumerate 1 cards))"
proof (rule ext)
  fix k :: "int \<times> int option"
  obtain a b where k: "k = (a, b)" by fastforce
  note up = upsert_deck_spec [OF assms(1) u]
  note p = p [unfolded persisted_as_def]
  have "map cr_rank new = map (\<lambda>v. fst (snd v)) (map card_view new)" by (simp add: card_view_def)
  then have "sorted_wrt (<) (map cr_rank new)" using deck_spec_ranks [OF sorted_enumerate] views by metis
  then have this_deck: "deck_cards db' deck (\<lambda>_. True) = new"
    by (rule deck_cards_new) (use p in \<open>auto simp: list_all_iff\<close>)
  have other_deck: "deck_cards db' i (\<lambda>_. True) = deck_cards db i (\<lambda>_. True)" if "i \<noteq> deck" for i
  proof -
    have "filter (\<lambda>c. cr_deck c = i) new = []" using p that by (auto simp: filter_empty_conv list_all_iff)
    moreover have "filter (\<lambda>c. cr_deck c = i) (filter (\<lambda>c. cr_deck c \<noteq> deck) (pd_cards db)) = filter (\<lambda>c. cr_deck c = i) (pd_cards db)"
      using that by (auto simp: intro!: filter_cong)
    ultimately show ?thesis using p by (simp add: deck_cards_def)
  qed
  have id': "deck_id_of db' x y = deck_id_of db1 x y" for x y
    using p by (simp add: deck_id_of_def find_map_deck)
  show "deck_abs db' k = ((deck_abs db)((date, uid) \<mapsto> deck_spec db uid {} (enumerate 1 cards))) k"
  proof (cases "(a, b) = (date, uid)")
    case True
    then show ?thesis using up(2) this_deck views by (simp add: k deck_abs_alt id')
  next
    case False
    have "deck_id_of db1 a b \<noteq> Some deck"
      using deck_id_of_Some [of db1 a b deck] up(5) False by (auto simp: list_all_iff)
    then have "\<forall>i. deck_id_of db a b = Some i \<longrightarrow> deck_cards db' i (\<lambda>_. True) = deck_cards db i (\<lambda>_. True)"
      using other_deck up(3) [OF False] by auto
    then show ?thesis using False up(3) [OF False] by (cases "deck_id_of db a b") (auto simp: k deck_abs_alt id')
  qed
qed

lemma persist_counts:
  assumes "pulse_wf db" and u: "upsert_deck db now date stats reason uid = (deck, db1)"
    and p: "persisted_as db deck uid db1 new db'" and mem: "e \<in> set (pd_decks db')"
  shows "dk_id e < Suc (pd_next_deck db) \<and> dk_count e = length (filter (\<lambda>c. cr_deck c = dk_id e) (pd_cards db'))"
proof -
  note wf = assms(1) [unfolded pulse_wf_def] and up = upsert_deck_spec [OF assms(1) u]
  note p = p [unfolded persisted_as_def]
  obtain d where d: "d \<in> set (pd_decks db1)" "e = set_count deck (length new) d" using mem p by auto
  have lt: "dk_id d < Suc (pd_next_deck db)" using up(5) d(1) by (auto simp: list_all_iff)
  show ?thesis
  proof (cases "dk_id d = deck")
    case True
    have "filter (\<lambda>c. cr_deck c = deck) new = new" using p by (simp add: filter_id_conv list_all_iff)
    then show ?thesis using True p lt d by simp
  next
    case False
    have "filter (\<lambda>c. cr_deck c = dk_id d) new = []" using p False by (auto simp: filter_empty_conv list_all_iff)
    moreover have "filter (\<lambda>c. cr_deck c = dk_id d) (filter (\<lambda>c. cr_deck c \<noteq> deck) (pd_cards db)) = filter (\<lambda>c. cr_deck c = dk_id d) (pd_cards db)"
      using False by (auto intro!: filter_cong)
    moreover have "dk_count d = length (filter (\<lambda>c. cr_deck c = dk_id d) (pd_cards db))"
      using up(5) d(1) False wf by (auto simp: list_all_iff)
    ultimately show ?thesis using False p lt d by simp
  qed
qed

lemma persist_owner:
  assumes "pulse_wf db" and u: "upsert_deck db now date stats reason uid = (deck, db1)"
    and p: "persisted_as db deck uid db1 new db'" and mem: "c \<in> set (pd_cards db')"
  shows "cr_id c < pd_next_card db' \<and> list_ex (\<lambda>d. dk_id d = cr_deck c \<and> dk_user d = cr_user c) (pd_decks db')"
proof -
  note wf = assms(1) [unfolded pulse_wf_def] and up = upsert_deck_spec [OF assms(1) u]
  note p = p [unfolded persisted_as_def]
  have "\<exists>d \<in> set (pd_decks db1). dk_id d = cr_deck c \<and> dk_user d = cr_user c"
  proof (cases "c \<in> set new")
    case True
    then show ?thesis using p deck_id_of_Some [OF up(2)] by (auto simp: list_all_iff)
  next
    case False
    then have "c \<in> set (pd_cards db)" using mem p by auto
    then obtain d where "d \<in> set (pd_decks db)" "dk_id d = cr_deck c" "dk_user d = cr_user c"
      using wf by (auto simp: list_all_iff list_ex_iff)
    then show ?thesis using up(6) [of d] by auto
  qed
  moreover have "cr_id c < pd_next_card db'" using mem p wf by (auto simp: list_all_iff)
  ultimately show ?thesis using p by (auto simp: list_ex_iff)
qed

lemma persist_wf:
  assumes "pulse_wf db" and u: "upsert_deck db now date stats reason uid = (deck, db1)"
    and p: "persisted_as db deck uid db1 new db'"
  shows "pulse_wf db'"
proof -
  note wf = assms(1) [unfolded pulse_wf_def] and up = upsert_deck_spec [OF assms(1) u]
  note q = p [unfolded persisted_as_def]
  have "distinct (map cr_id (pd_cards db'))"
    using wf q by (fastforce simp: list_all_iff distinct_map_filter)
  moreover have "distinct (map (\<lambda>c. (cr_deck c, cr_paper c)) new)"
    using q by (auto simp: distinct_map inj_on_def)
  then have "distinct (map (\<lambda>c. (cr_deck c, cr_paper c)) (pd_cards db'))"
    using wf q by (auto simp: list_all_iff distinct_map_filter)
  moreover have "distinct (map dk_id (pd_decks db'))" "distinct (map (\<lambda>d. (dk_date d, dk_user d)) (pd_decks db'))"
    using q up(4) by (simp_all add: comp_def)
  moreover have "pd_next_deck db' = Suc (pd_next_deck db)" using q by blast
  ultimately show ?thesis
    using persist_counts [OF assms(1) u p] persist_owner [OF assms(1) u p]
    unfolding pulse_wf_def list_all_iff by simp
qed

lemma persist_refines:
  assumes "pulse_wf db" and "persist_deck_inner db now date cards stats reason uid = (n, db')"
  shows "deck_abs db' = (deck_abs db)((date, uid) \<mapsto> deck_spec db uid {} (enumerate 1 cards))
    \<and> n = length (deck_spec db uid {} (enumerate 1 cards))
    \<and> pulse_wf db' \<and> pd_lc db' = pd_lc db \<and> pd_external db' = pd_external db
    \<and> (\<exists>d \<in> set (pd_decks db'). deck_matches date uid d \<and> dk_count d = n \<and> dk_reason d = reason \<and> dk_stats d = stats)"
proof -
  obtain deck db1 new where u: "upsert_deck db now date stats reason uid = (deck, db1)" and n: "n = length new"
    and v: "map card_view new = deck_spec db uid {} (enumerate 1 cards)" and p: "persisted_as db deck uid db1 new db'"
    using persist_shape [OF assms] by blast
  note up = upsert_deck_spec [OF assms(1) u] and q = p [unfolded persisted_as_def]
  obtain d where d: "d \<in> set (pd_decks db1)" "dk_id d = deck" using deck_id_of_Some [OF up(2)] by blast
  then have "set_count deck n d \<in> set (pd_decks db')" using q n by simp
  moreover have "deck_matches date uid (set_count deck n d) \<and> dk_count (set_count deck n d) = n
      \<and> dk_reason (set_count deck n d) = reason \<and> dk_stats (set_count deck n d) = stats"
    using d up(5) by (auto simp: deck_matches_def list_all_iff)
  ultimately have "\<exists>d \<in> set (pd_decks db'). deck_matches date uid d \<and> dk_count d = n \<and> dk_reason d = reason \<and> dk_stats d = stats"
    by blast
  moreover have "n = length (deck_spec db uid {} (enumerate 1 cards))" using n arg_cong [OF v, of length] by simp
  ultimately show ?thesis using persist_abs [OF assms(1) u p v] persist_wf [OF assms(1) u p] q by blast
qed

text \<open>
  C21: persisting a deck refines the update of a map. Seen as a map from date and user to the contents
  of decks, persisting sets exactly one entry, to the eligible shared papers of the selection in
  its order, one card per paper, and leaves every other deck alone; the number reported and the
  number stored are the number of cards, the reason of degradation is stored, papers and reading
  states are untouched, and ids, deck keys, card keys and counts stay consistent. Since the new
  contents do not depend on any deck, persisting a selection again changes nothing.
\<close>

theorem persist_refines_update:
  assumes "pulse_wf db" and "persist_deck_inner db now date cards stats reason uid = (n, db')"
  shows "deck_abs db' = (deck_abs db)((date, uid) \<mapsto> deck_spec db uid {} (enumerate 1 cards))
    \<and> n = length (deck_spec db uid {} (enumerate 1 cards))
    \<and> pulse_wf db' \<and> pd_lc db' = pd_lc db \<and> pd_external db' = pd_external db
    \<and> (\<exists>d \<in> set (pd_decks db'). deck_matches date uid d \<and> dk_count d = n \<and> dk_reason d = reason \<and> dk_stats d = stats)"
  by (rule persist_refines [OF assms])

section \<open>What the reader sees\<close>

lemma deck_cards_set: "set (deck_cards db deck P) = {c \<in> set (pd_cards db). cr_deck c = deck \<and> P c}"
  by (auto simp: deck_cards_def)

lemma load_today_Some:
  "load_today db today uid = Some r \<Longrightarrow> \<exists>d \<in> set (pd_decks db). deck_matches today uid d
     \<and> r = build_deck_response db uid d (deck_cards db (dk_id d) (shows_card db uid))"
  by (auto simp: load_today_def find_Some_iff)

lemma load_last_Some:
  assumes "load_last_nonempty_deck db now today uid k = Some r"
  shows "\<exists>d \<in> set (pd_decks db). dk_user d = uid \<and> today - k \<le> dk_date d
     \<and> (\<exists>c \<in> set (pd_cards db). cr_deck c = dk_id d \<and> shows_card db uid c \<and> \<not> recently_dismissed db now uid (cr_paper c))
     \<and> r = build_deck_response db uid d
          (deck_cards db (dk_id d) (\<lambda>c. shows_card db uid c \<and> \<not> recently_dismissed db now uid (cr_paper c)))"
proof -
  let ?el = "\<lambda>c. shows_card db uid c \<and> \<not> recently_dismissed db now uid (cr_paper c)"
  let ?ds = "filter (\<lambda>d. dk_user d = uid \<and> dk_count d > 0 \<and> today - k \<le> dk_date d
                    \<and> list_ex (\<lambda>c. cr_deck c = dk_id d \<and> ?el c) (pd_cards db)) (pd_decks db)"
  obtain d ds where ds: "py_sort_desc dk_date ?ds = d # ds"
      and r: "r = build_deck_response db uid d (deck_cards db (dk_id d) ?el)"
    using assms unfolding load_last_nonempty_deck_def Let_def by (auto split: list.splits)
  have "d \<in> set (py_sort_desc dk_date ?ds)" unfolding ds by (rule list.set_intros(1))
  then have "d \<in> set ?ds" by (simp only: set_py_sort_desc)
  then show ?thesis using r by (auto simp: list_ex_iff)
qed

text \<open>
  Today's page never lies. It shows nothing only when no deck exists for the day; the number of
  cards it reports is the number it carries, each card belongs to a deck of the reader, to a paper
  the reader may see and has not trashed; a deck that is not marked stale is today's, and is marked
  empty exactly when it has no cards; a stale deck has cards, none of them rated down in the last 60
  days, and is between one and seven days old.
\<close>

lemma today_page:
  assumes "pulse_wf db" and "list_all (\<lambda>d. dk_date d \<le> today) (pd_decks db)"
  shows "(get_today db now today uid = None \<longleftrightarrow> \<not> list_ex (deck_matches today uid) (pd_decks db))
    \<and> (\<forall>r. get_today db now today uid = Some r \<longrightarrow>
         ds_count r = length (ds_cards r)
         \<and> (\<forall>(c, st) \<in> set (ds_cards r). c \<in> set (pd_cards db) \<and> cr_deck c = ds_deck r \<and> shows_card db uid c)
         \<and> list_ex (\<lambda>d. dk_id d = ds_deck r \<and> dk_user d = uid \<and> dk_date d = ds_date r) (pd_decks db)
         \<and> (\<not> ds_stale r \<longrightarrow> ds_date r = today \<and> (ds_cards r = [] \<longleftrightarrow> ds_empty_reason r = Some ''no_data_yet''))
         \<and> (ds_stale r \<longrightarrow> ds_cards r \<noteq> [] \<and> (\<exists>a. ds_stale_age r = Some a \<and> 1 \<le> a \<and> a \<le> 7 \<and> a = today - ds_date r)
              \<and> (\<forall>(c, st) \<in> set (ds_cards r). \<not> recently_dismissed db now uid (cr_paper c))))"
proof (cases "load_today db today uid")
  case None
  then have "find (deck_matches today uid) (pd_decks db) = None" by (simp add: load_today_def)
  then show ?thesis using None by (auto simp: get_today_def find_None_iff list_ex_iff)
next
  case (Some t)
  obtain d where d: "d \<in> set (pd_decks db)" "deck_matches today uid d"
    and t: "t = build_deck_response db uid d (deck_cards db (dk_id d) (shows_card db uid))"
    using load_today_Some [OF Some] by blast
  have ex: "list_ex (deck_matches today uid) (pd_decks db)" using d by (auto simp: list_ex_iff)
  show ?thesis
  proof (cases "ds_count t > 0")
    case True
    then have g: "get_today db now today uid = Some t" using Some by (simp add: get_today_def)
    show ?thesis using ex d True
      by (auto simp: g t build_deck_response_def deck_cards_set deck_matches_def list_ex_iff)
  next
    case False
    then have none: "\<not> (\<exists>c \<in> set (pd_cards db). cr_deck c = dk_id d \<and> shows_card db uid c)"
      using deck_cards_set [of db "dk_id d" "shows_card db uid"] by (auto simp: t build_deck_response_def)
    show ?thesis
    proof (cases "load_last_nonempty_deck db now today uid 7")
      case None
      then have g: "get_today db now today uid = Some (t\<lparr>ds_empty_reason := Some ''no_data_yet''\<rparr>)"
        using Some False by (simp add: get_today_def)
      show ?thesis using ex d False
        by (auto simp: g t build_deck_response_def deck_cards_set deck_matches_def list_ex_iff)
    next
      case fb: (Some f)
      then have g: "get_today db now today uid = Some (f\<lparr>ds_stale := True, ds_stale_age := Some (today - ds_date f)\<rparr>)"
        using Some False by (simp add: get_today_def)
      obtain e where e: "e \<in> set (pd_decks db)" "dk_user e = uid" "today - 7 \<le> dk_date e"
        and c: "\<exists>c \<in> set (pd_cards db). cr_deck c = dk_id e \<and> shows_card db uid c \<and> \<not> recently_dismissed db now uid (cr_paper c)"
        and f: "f = build_deck_response db uid e
          (deck_cards db (dk_id e) (\<lambda>c. shows_card db uid c \<and> \<not> recently_dismissed db now uid (cr_paper c)))"
        using load_last_Some [OF fb] by blast
      have "dk_date e \<noteq> today"
      proof
        assume "dk_date e = today"
        then have "(dk_date e, dk_user e) = (dk_date d, dk_user d)" using e d by (simp add: deck_matches_def)
        then have "e = d" using assms(1) e(1) d(1) by (auto simp: pulse_wf_def distinct_map dest: inj_onD)
        then show False using c none by blast
      qed
      then have age: "1 \<le> today - dk_date e \<and> today - dk_date e \<le> 7"
        using assms(2) e by (auto simp: list_all_iff order_le_less)
      have "deck_cards db (dk_id e) (\<lambda>c. shows_card db uid c \<and> \<not> recently_dismissed db now uid (cr_paper c)) \<noteq> []"
        using c deck_cards_set by (metis (mono_tags, lifting) empty_iff empty_set mem_Collect_eq)
      then show ?thesis using ex e age
        by (auto simp: g f build_deck_response_def deck_cards_set list_ex_iff)
    qed
  qed
qed

section \<open>Ratings\<close>





section \<open>Samples\<close>

definition sample_stats :: pulse_stats where
  "sample_stats = \<lparr>ps_candidates = 1, ps_survivors = 1, ps_scored = 1, ps_llm_calls = 0, ps_last_error = None,
     ps_failed_stage = None, ps_degraded = None, ps_deck_date = None, ps_card_count = 0, ps_training_enqueued = False,
     ps_verified_total = 0, ps_verified_passed = 0\<rparr>"

definition sample_lc :: lc_db where
  "sample_lc = \<lparr>db_papers = [1 \<mapsto> \<lparr>paper_public = True, paper_pdf_url = None, paper_pdf_local = None, paper_chunks = 0\<rparr>],
     db_library = {}, db_pus = Map.empty, db_feedback = Map.empty, db_events = [], db_pending = Map.empty, db_jobs = []\<rparr>"

definition sample_card :: card_row where
  "sample_card = \<lparr>cr_id = 0, cr_deck = 0, cr_user = Some 5, cr_paper = 1, cr_rank = 1, cr_score = 0, cr_relevance = None,
     cr_novelty = None, cr_reasoning = None, cr_signals = Map.empty, cr_verified = None, cr_confidence = None\<rparr>"

text \<open>A user with a deck of one card on day 9, and a candidate for the same paper.\<close>

definition sample_db :: pulse_db where
  "sample_db = \<lparr>pd_lc = sample_lc, pd_external = [codes ''x'' \<mapsto> 1], pd_fb_at = (\<lambda>_. 0),
     pd_decks = [\<lparr>dk_id = 0, dk_date = 9, dk_user = Some 5, dk_count = 1, dk_generated = 0, dk_stats = sample_stats, dk_reason = None\<rparr>],
     pd_cards = [sample_card], pd_next_deck = 1, pd_next_card = 1\<rparr>"

definition sample_scored :: scored where
  "sample_scored = fresh_candidate sample_paper Map.empty (Some 1)"

lemma sample_wf: "pulse_wf sample_db"
  by (simp add: pulse_wf_def sample_db_def sample_card_def)

lemma sample_eligible: "paper_by_external sample_db (codes ''x'') = Some 1" "recently_dismissed sample_db 0 (Some 5) 1 = False"
  by (simp_all add: paper_by_external_def recently_dismissed_def sample_db_def sample_lc_def feedback_sources_def)

theorem deck_selection_witness:
  "\<exists>deck n. select_deck_cards sample_db 0 [sample_scored] 3 (Some 5) = (deck, n) \<and> length deck = 1"
proof -
  obtain deck n where s: "select_deck_cards sample_db 0 [sample_scored] 3 (Some 5) = (deck, n)" by fastforce
  have "\<not> dismissed_candidate sample_db 0 (Some 5) sample_scored"
    using sample_eligible by (simp add: dismissed_candidate_def sample_scored_def fresh_candidate_def sample_paper_def)
  then show ?thesis using deck_selection [OF _ s] s by simp
qed

theorem persist_refines_update_witness:
  "\<exists>n db'. persist_deck_inner sample_db 0 10 [sample_scored] sample_stats None (Some 5) = (n, db')
     \<and> pulse_wf db' \<and> deck_abs db' (10, Some 5) = Some (deck_spec sample_db (Some 5) {} [(1, sample_scored)])
     \<and> deck_abs db' (9, Some 5) = deck_abs sample_db (9, Some 5)"
proof -
  obtain n db' where p: "persist_deck_inner sample_db 0 10 [sample_scored] sample_stats None (Some 5) = (n, db')" by fastforce
  show ?thesis using persist_refines_update [OF sample_wf p] p by (intro exI [of _ n] exI [of _ db']) simp
qed


end
