(* ===== verification/Pulse_Job.thy ===== *)
theory Pulse_Job
  imports Pulse_Deck
begin

text \<open>
  The overnight run that produces a reader's deck (\<open>pulse/job.py\<close>): profile, discovery, the three
  scoring stages with their fallbacks, optional signals, selection, the persisting transaction and
  the job handler around it. What each collaborator returns or raises is a record; the loop over
  promoted papers runs on the tables. Log lines, durations, per-source counts and the metadata of
  the classifier are left out of the statistics.
\<close>

section \<open>Collaborators\<close>

record source_diag =
  sd_name :: pystr
  sd_status :: pystr
  sd_message :: pystr

text \<open>
  \<open>pe_cancelled n\<close> is the answer at the n-th checkpoint (never without a job context);
  \<open>pe_timeout\<close> says that the time limit of stage 2 expires; \<open>pe_setup\<close> is an exception before the
  first model call; \<open>pe_promote\<close> promotes one paper in its savepoint; \<open>pe_outer\<close> is a failure of the
  surrounding transaction.
\<close>

record pulse_env =
  pe_text :: text_env
  pe_str :: "meta \<Rightarrow> pystr"
  pe_cancelled :: "nat \<Rightarrow> bool"
  pe_profile :: "pulse_exc + user_profile"
  pe_discover :: "pulse_exc + paper_create list \<times> source_diag list"
  pe_embedder :: "nat \<Rightarrow> pystr list \<Rightarrow> pulse_exc + real list list"
  pe_setup :: "pulse_exc option"
  pe_client :: bool
  pe_llm :: "scored \<Rightarrow> llm_result"
  pe_timeout :: bool
  pe_strict :: bool
  pe_citation :: "pystr list \<Rightarrow> pulse_exc + (pystr \<Rightarrow> string \<Rightarrow> real option)"
  pe_classifier :: "(string \<Rightarrow> real option) list \<Rightarrow> pulse_exc + real list"
  pe_select :: "pulse_exc option"
  pe_promote :: "pulse_db \<Rightarrow> paper_create \<Rightarrow> pulse_exc + pulse_db"
  pe_outer :: "pulse_exc option"
  pe_enqueue :: bool

section \<open>Stages\<close>

definition fallback_stage2 :: "scored list \<Rightarrow> scored list" where
  "fallback_stage2 xs = map (\<lambda>sc. fresh_candidate (sc_paper sc) (sc_signals sc) (sc_final sc)) xs"

definition run_stage2 :: "pulse_env \<Rightarrow> scored list \<Rightarrow> pulse_exc + scored list \<times> degraded option \<times> nat" where
  "run_stage2 env xs =
     (if xs = [] then Inr ([], None, 0)
      else
        res_bind
          (case (if pe_timeout env then Inl Timeout_exc
                 else case pe_setup env of Some e \<Rightarrow> Inl e
                    | None \<Rightarrow> stage2_llm_rerank (pe_text env) (pe_client env) (pe_llm env) xs) of
             Inr out \<Rightarrow>
               (let calls = length (filter (\<lambda>sc. sc_relevance sc \<noteq> None) out)
                in Inr (out, if out \<noteq> [] \<and> calls \<le> length out div 3 then Some Scoring_unavailable else None, calls))
           | Inl e \<Rightarrow>
               (case e of
                  Client_unavailable \<Rightarrow> Inr (fallback_stage2 xs, Some Client_missing, 0)
                | Timeout_exc \<Rightarrow> Inr (fallback_stage2 xs, Some Scoring_timed_out, 0)
                | Cancelled_exc \<Rightarrow> Inl Cancelled_exc
                | _ \<Rightarrow> Inr (fallback_stage2 xs, Some Scoring_error, 0)))
          (\<lambda>(out, reason, calls).
             if out \<noteq> [] \<and> calls = 0 \<and> pe_strict env then Inl Runtime_exc else Inr (out, reason, calls)))"

definition augment_signals :: "scored list \<Rightarrow> (pystr \<Rightarrow> string \<Rightarrow> real option) \<Rightarrow> scored list" where
  "augment_signals xs extra = map (\<lambda>sc. sc\<lparr>sc_signals := sc_signals sc ++ extra (pc_external (sc_paper sc))\<rparr>) xs"

definition weight :: "(string \<times> real) list \<Rightarrow> string \<Rightarrow> real" where
  "weight ws k = (case map_of ws k of None \<Rightarrow> 0 | Some w \<Rightarrow> w)"

text \<open>The dictionary of classifier values keeps the last value of a repeated external id.\<close>

definition classifier_signals :: "scored list \<Rightarrow> real list \<Rightarrow> pystr \<Rightarrow> string \<Rightarrow> real option" where
  "classifier_signals xs vals ext =
     (case map_of (rev (zip (map (\<lambda>sc. pc_external (sc_paper sc)) xs) vals)) ext of
        None \<Rightarrow> Map.empty | Some v \<Rightarrow> [''classifier'' \<mapsto> v])"

definition run_optional_signals :: "pulse_env \<Rightarrow> (string \<times> real) list \<Rightarrow> scored list \<Rightarrow> pulse_exc + scored list \<times> degraded option" where
  "run_optional_signals env ws xs =
     (let failed = (\<lambda>e. if e = Cancelled_exc then Inl Cancelled_exc else Inr (xs, Some Signals_unavailable)) in
      case (if list_ex (\<lambda>k. weight ws k > 0) [''citation_pagerank'', ''citation_count'', ''citation_adamic_adar'']
            then pe_citation env (map (\<lambda>sc. pc_external (sc_paper sc)) xs) else Inr (\<lambda>_. Map.empty)) of
        Inl e \<Rightarrow> failed e
      | Inr cit \<Rightarrow>
          (let enriched = augment_signals xs cit in
           case (if weight ws ''classifier'' > 0 then pe_classifier env (map sc_signals enriched)
                 else Inr (replicate (length enriched) 0)) of
             Inl e \<Rightarrow> failed e
           | Inr vals \<Rightarrow>
               if length vals < length enriched then failed Other_exc
               else Inr (augment_signals enriched (classifier_signals enriched vals), None)))"

definition rstrip_dots :: "pystr \<Rightarrow> pystr" where
  "rstrip_dots s = rev (dropWhile (\<lambda>c. c = 46) (rev s))"

definition zero_candidate_reason :: "source_diag list \<Rightarrow> pystr" where
  "zero_candidate_reason diags =
     (if diags = [] then codes ''No Pulse candidates returned; no enabled discovery source produced candidates.''
      else
        let parts = map (\<lambda>d. let m = rstrip_dots (sd_message d) in
                          if m \<noteq> [] then m else sd_name d @ codes '': '' @ sd_status d)
                      (filter (\<lambda>d. sd_status d \<noteq> codes ''ok'') diags)
        in if parts = [] then codes ''No Pulse candidates returned; enabled discovery sources returned empty results.''
           else codes ''No Pulse candidates returned; '' @ py_join (codes ''; '') (take 4 parts) @ codes ''.'')"

definition dismissed_short_reason :: "nat \<Rightarrow> int \<Rightarrow> nat \<Rightarrow> degraded option" where
  "dismissed_short_reason cards sz dismissed =
     (if dismissed = 0 \<or> int cards \<ge> sz then None else Some (Dismissed_short dismissed cards sz))"

text \<open>Python's \<open>a or b\<close> on optional reasons.\<close>

definition py_or :: "'a option \<Rightarrow> 'a option \<Rightarrow> 'a option" where
  "py_or a b = (case a of None \<Rightarrow> b | Some _ \<Rightarrow> a)"

section \<open>Persisting\<close>

text \<open>
  Promotions run one after the other; a failure rolls back its savepoint and is remembered, a
  cancellation aborts the transaction.
\<close>

fun promote_cards :: "pulse_env \<Rightarrow> scored list \<Rightarrow> pulse_db \<Rightarrow> string option \<Rightarrow> pulse_exc + pulse_db \<times> string option" where
  "promote_cards env [] db err = Inr (db, err)"
| "promote_cards env (sc # xs) db err =
     (case pe_promote env db (sc_paper sc) of
        Inr db' \<Rightarrow> promote_cards env xs db' err
      | Inl e \<Rightarrow> if e = Cancelled_exc then Inl e else promote_cards env xs db (Some ''upsert_paper''))"

definition persist_pipeline ::
  "pulse_env \<Rightarrow> pulse_db \<Rightarrow> real \<Rightarrow> int \<Rightarrow> scored list \<Rightarrow> pulse_stats \<Rightarrow> int option \<Rightarrow> (pulse_exc + pulse_stats) \<times> pulse_db" where
  "persist_pipeline env db now date deck stats uid =
     (case pe_outer env of
        Some e \<Rightarrow>
          if e = Cancelled_exc then (Inl e, db)
          else (Inr (stats\<lparr>ps_last_error := Some ''persist'', ps_failed_stage := Some ''saving your deck'', ps_card_count := 0\<rparr>), db)
      | None \<Rightarrow>
          (case promote_cards env deck db (ps_last_error stats) of
             Inl e \<Rightarrow> (Inl e, db)
           | Inr (db1, err) \<Rightarrow>
               (let stats' = stats\<lparr>ps_last_error := err\<rparr>;
                    (n, db2) = persist_deck_inner db1 now date deck stats' (ps_degraded stats') uid
                in (Inr (stats'\<lparr>ps_card_count := n\<rparr>), db2))))"

section \<open>The run\<close>

definition initial_stats :: pulse_stats where
  "initial_stats = \<lparr>ps_candidates = 0, ps_survivors = 0, ps_scored = 0, ps_llm_calls = 0, ps_last_error = None,
     ps_failed_stage = None, ps_degraded = None, ps_deck_date = None, ps_card_count = 0, ps_training_enqueued = False,
     ps_verified_total = 0, ps_verified_passed = 0\<rparr>"

definition checkpoint :: "pulse_env \<Rightarrow> nat \<Rightarrow> pulse_exc + 'a \<Rightarrow> pulse_exc + 'a" where
  "checkpoint env n k = (if pe_cancelled env n then Inl Cancelled_exc else k)"

text \<open>\<open>except Exception\<close>: everything but a cancellation is replaced by the handler's result.\<close>

definition absorbing :: "pulse_exc + 'a \<Rightarrow> 'a \<Rightarrow> pulse_exc + 'a" where
  "absorbing r d = (case r of Inr x \<Rightarrow> Inr x | Inl e \<Rightarrow> if e = Cancelled_exc then Inl e else Inr d)"

definition discovery_step :: "pulse_env \<Rightarrow> pulse_exc + paper_create list \<times> pulse_stats" where
  "discovery_step env =
     absorbing
       (res_bind (pe_discover env) (\<lambda>(cands, diags).
          Inr (cands, initial_stats\<lparr>ps_candidates := length cands,
            ps_degraded := (if cands = [] then Some (No_candidates (zero_candidate_reason diags)) else None)\<rparr>)))
       ([], initial_stats\<lparr>ps_last_error := Some ''discover_candidates''\<rparr>)"

definition stage1_step :: "pulse_env \<Rightarrow> user_profile \<Rightarrow> int \<Rightarrow> paper_create list \<times> pulse_stats \<Rightarrow> pulse_exc + scored list \<times> pulse_stats" where
  "stage1_step env p date = (\<lambda>(cands, stats).
     absorbing
       (res_bind (stage1_embedding_filter (pe_text env) (pe_str env) (pe_embedder env) cands p (up_top_k p) date)
          (\<lambda>out. Inr (out, stats\<lparr>ps_survivors := length out\<rparr>)))
       ([], stats\<lparr>ps_last_error := Some ''stage1''\<rparr>))"

text \<open>The second component is the local variable \<open>degraded_reason\<close>.\<close>

definition stage2_step :: "pulse_env \<Rightarrow> scored list \<times> pulse_stats \<Rightarrow> pulse_exc + scored list \<times> degraded option \<times> pulse_stats" where
  "stage2_step env = (\<lambda>(xs, stats).
     res_bind (run_stage2 env xs) (\<lambda>(out, reason, calls).
       Inr (out, reason, stats\<lparr>ps_scored := length out, ps_llm_calls := calls, ps_degraded := py_or reason (ps_degraded stats)\<rparr>)))"

definition signals_step :: "pulse_env \<Rightarrow> user_profile \<Rightarrow> scored list \<times> degraded option \<times> pulse_stats
   \<Rightarrow> pulse_exc + scored list \<times> degraded option \<times> pulse_stats" where
  "signals_step env p = (\<lambda>(xs, reason, stats).
     res_bind (run_optional_signals env (up_weights p) xs) (\<lambda>(out, opt).
       case opt of None \<Rightarrow> Inr (out, reason, stats)
       | Some _ \<Rightarrow> (let reason' = py_or reason opt in Inr (out, reason', stats\<lparr>ps_degraded := reason'\<rparr>))))"

definition select_step :: "pulse_env \<Rightarrow> pulse_db \<Rightarrow> real \<Rightarrow> user_profile \<Rightarrow> int option \<Rightarrow> scored list \<Rightarrow> pulse_stats
   \<Rightarrow> pulse_exc + (scored list \<times> nat) \<times> pulse_stats" where
  "select_step env db now p uid xs stats =
     absorbing
       (case pe_select env of Some e \<Rightarrow> Inl e
        | None \<Rightarrow> Inr (select_deck_cards db now xs (up_deck_size p) uid, stats))
       (([], 0), stats\<lparr>ps_last_error := Some ''select_deck_cards''\<rparr>)"

text \<open>Everything up to the transaction: the deck, what stage 2 gave, and the statistics so far.\<close>

definition prepare_deck :: "pulse_env \<Rightarrow> pulse_db \<Rightarrow> real \<Rightarrow> int \<Rightarrow> int option \<Rightarrow> user_profile
   \<Rightarrow> pulse_exc + scored list \<times> scored list \<times> pulse_stats" where
  "prepare_deck env db now date uid p =
     checkpoint env 1 (res_bind (discovery_step env) (\<lambda>d.
     checkpoint env 2 (res_bind (stage1_step env p date d) (\<lambda>s1.
     checkpoint env 3 (res_bind (stage2_step env s1) (\<lambda>s2.
     checkpoint env 4 (res_bind (signals_step env p s2) (\<lambda>(xs, reason, stats).
     checkpoint env 5 (checkpoint env 6
       (res_bind (select_step env db now p uid (stage3_combine xs (up_weights p)) stats) (\<lambda>((deck, dismissed), stats).
          Inr (deck, xs,
            stats\<lparr>ps_deck_date := Some date,
              ps_degraded := py_or (py_or reason (ps_degraded stats))
                (dismissed_short_reason (length deck) (up_deck_size p) dismissed)\<rparr>))))))))))))"

definition post_run :: "pulse_env \<Rightarrow> scored list \<Rightarrow> pulse_stats \<Rightarrow> pulse_stats" where
  "post_run env xs stats =
     stats\<lparr>ps_training_enqueued := pe_enqueue env,
       ps_verified_total := length (filter (\<lambda>sc. sc_verified sc \<noteq> None) xs),
       ps_verified_passed := length (filter (\<lambda>sc. sc_verified sc = Some True) xs)\<rparr>"

text \<open>\<open>now\<close> is the database's clock, \<open>date\<close> the run's date.\<close>

definition run_pulse :: "pulse_env \<Rightarrow> pulse_db \<Rightarrow> real \<Rightarrow> int \<Rightarrow> int option \<Rightarrow> (pulse_exc + pulse_stats) \<times> pulse_db" where
  "run_pulse env db now date uid =
     (if pe_cancelled env 0 then (Inl Cancelled_exc, db)
      else case pe_profile env of
        Inl e \<Rightarrow>
          if e = Cancelled_exc then (Inl e, db)
          else (Inr (initial_stats\<lparr>ps_last_error := Some ''load_profile'', ps_failed_stage := Some ''loading your profile''\<rparr>), db)
      | Inr p \<Rightarrow>
          (case prepare_deck env db now date uid p of
             Inl e \<Rightarrow> (Inl e, db)
           | Inr (deck, xs, stats) \<Rightarrow>
               (case persist_pipeline env db now date deck stats uid of
                  (Inl e, db') \<Rightarrow> (Inl e, db')
                | (Inr stats', db') \<Rightarrow> (Inr (post_run env xs stats'), db'))))"

datatype pulse_job_result = Blocked | Produced "int option" nat

datatype pulse_job_error = Run_raised pulse_exc | No_deck string

text \<open>The handler of \<open>pulse.generate\<close>; \<open>locked\<close> says whether the reader's lock was free.\<close>

definition pulse_generate_job :: "pulse_env \<Rightarrow> bool \<Rightarrow> pulse_db \<Rightarrow> real \<Rightarrow> int \<Rightarrow> int option
   \<Rightarrow> (pulse_job_error + pulse_job_result) \<times> pulse_db" where
  "pulse_generate_job env locked db now date uid =
     (if \<not> locked then (Inr Blocked, db)
      else case run_pulse env db now date uid of
        (Inl e, db') \<Rightarrow> (Inl (Run_raised e), db')
      | (Inr stats, db') \<Rightarrow>
          (case ps_failed_stage stats of
             Some stage \<Rightarrow> (Inl (No_deck stage), db')
           | None \<Rightarrow> (Inr (Produced (ps_deck_date stats) (ps_card_count stats)), db')))"

section \<open>A run always delivers\<close>

text \<open>No collaborator is cancelled, and the model is not required to answer.\<close>

definition uncancelled :: "pulse_env \<Rightarrow> bool" where
  "uncancelled env \<longleftrightarrow> (\<forall>n. \<not> pe_cancelled env n) \<and> pe_discover env \<noteq> Inl Cancelled_exc
     \<and> (\<forall>n ts. pe_embedder env n ts \<noteq> Inl Cancelled_exc) \<and> pe_setup env \<noteq> Some Cancelled_exc
     \<and> (\<forall>s. pe_llm env s \<noteq> Llm_raised Cancelled_exc) \<and> (\<forall>ids. pe_citation env ids \<noteq> Inl Cancelled_exc)
     \<and> (\<forall>ss. pe_classifier env ss \<noteq> Inl Cancelled_exc) \<and> pe_select env \<noteq> Some Cancelled_exc
     \<and> (\<forall>db p. pe_promote env db p \<noteq> Inl Cancelled_exc)"

text \<open>Promoting a paper writes the tables of papers, none of the decks.\<close>

definition promotes_papers_only :: "pulse_env \<Rightarrow> bool" where
  "promotes_papers_only env \<longleftrightarrow> (\<forall>db p db'. pe_promote env db p = Inr db' \<longrightarrow>
     pd_decks db' = pd_decks db \<and> pd_cards db' = pd_cards db
     \<and> pd_next_deck db' = pd_next_deck db \<and> pd_next_card db' = pd_next_card db)"

lemma absorbing_Inl: "absorbing r d = Inl e \<longleftrightarrow> r = Inl Cancelled_exc \<and> e = Cancelled_exc"
  by (auto simp: absorbing_def split: sum.splits if_splits)

lemma run_stage2_Inl:
  assumes "uncancelled env" and "\<not> pe_strict env"
  shows "run_stage2 env xs \<noteq> Inl e"
proof -
  let ?r = "if pe_timeout env then Inl Timeout_exc
      else case pe_setup env of Some e \<Rightarrow> Inl e
         | None \<Rightarrow> stage2_llm_rerank (pe_text env) (pe_client env) (pe_llm env) xs"
  have "?r \<noteq> Inl Cancelled_exc"
  proof
    assume "?r = Inl Cancelled_exc"
    then have "stage2_llm_rerank (pe_text env) (pe_client env) (pe_llm env) xs = Inl Cancelled_exc"
      using assms(1) by (auto simp: uncancelled_def split: if_splits option.splits)
    then obtain s where "pe_llm env s = Llm_raised Cancelled_exc" using stage2_Inl by blast
    then show False using assms(1) by (simp add: uncancelled_def)
  qed
  then show ?thesis using assms(2)
    by (cases ?r) (simp_all add: run_stage2_def Let_def split: pulse_exc.split)
qed

lemma optional_signals_Inl: "uncancelled env \<Longrightarrow> run_optional_signals env ws xs \<noteq> Inl e"
  by (auto simp: run_optional_signals_def Let_def uncancelled_def split: sum.split if_split)

lemma select_step_Inl: "uncancelled env \<Longrightarrow> select_step env db now p uid xs stats \<noteq> Inl e"
  by (auto simp: select_step_def absorbing_Inl uncancelled_def split: option.splits)

lemma stage1_step_Inl: "uncancelled env \<Longrightarrow> stage1_step env p date d \<noteq> Inl e"
  by (cases d) (auto simp: stage1_step_def absorbing_Inl res_bind_iff uncancelled_def dest!: stage1_Inl)

lemma discovery_step_Inl: "uncancelled env \<Longrightarrow> discovery_step env \<noteq> Inl e"
  by (auto simp: discovery_step_def absorbing_Inl res_bind_iff uncancelled_def)

lemmas steps_total = discovery_step_Inl stage1_step_Inl run_stage2_Inl optional_signals_Inl select_step_Inl

lemma stage2_step_Inl: "uncancelled env \<Longrightarrow> \<not> pe_strict env \<Longrightarrow> stage2_step env d \<noteq> Inl e"
  using run_stage2_Inl by (cases d) (auto simp: stage2_step_def res_bind_iff)

lemma signals_step_Inl: "uncancelled env \<Longrightarrow> signals_step env p d \<noteq> Inl e"
  using optional_signals_Inl by (cases d) (auto simp: signals_step_def res_bind_iff Let_def split: option.splits)

lemma checkpoint_Inr: "checkpoint env n k = Inr x \<longleftrightarrow> \<not> pe_cancelled env n \<and> k = Inr x"
  by (simp add: checkpoint_def)

lemma checkpoint_Inl: "checkpoint env n k = Inl e \<longleftrightarrow> (if pe_cancelled env n then e = Cancelled_exc else k = Inl e)"
  by (auto simp: checkpoint_def)

lemma prepare_deck_total:
  assumes "uncancelled env" and "\<not> pe_strict env"
  shows "\<exists>r. prepare_deck env db now date uid p = Inr r"
proof -
  have "\<not> pe_cancelled env n" for n using assms(1) by (simp add: uncancelled_def)
  then have "prepare_deck env db now date uid p \<noteq> Inl e" for e
    using discovery_step_Inl [OF assms(1)] stage1_step_Inl [OF assms(1)] stage2_step_Inl [OF assms]
      signals_step_Inl [OF assms(1)] select_step_Inl [OF assms(1)]
    by (simp add: prepare_deck_def checkpoint_Inl res_bind_Inl_iff split_paired_all split: prod.split)
  then show ?thesis by (cases "prepare_deck env db now date uid p") auto
qed

text \<open>The intermediate results of a prepared deck.\<close>

lemma prepare_deckE:
  assumes "prepare_deck env db now date uid p = Inr (deck, xs, stats)"
  obtains cands st0 s1 st1 s2 r2 st2 reason st3 dismissed st4 where
    "discovery_step env = Inr (cands, st0)" "stage1_step env p date (cands, st0) = Inr (s1, st1)"
    "stage2_step env (s1, st1) = Inr (s2, r2, st2)" "signals_step env p (s2, r2, st2) = Inr (xs, reason, st3)"
    "select_step env db now p uid (stage3_combine xs (up_weights p)) st3 = Inr ((deck, dismissed), st4)"
    "stats = st4\<lparr>ps_deck_date := Some date,
       ps_degraded := py_or (py_or reason (ps_degraded st4)) (dismissed_short_reason (length deck) (up_deck_size p) dismissed)\<rparr>"
proof -
  note eq = assms [unfolded prepare_deck_def checkpoint_Inr res_bind_Inr_iff]
  obtain cands st0 where d: "discovery_step env = Inr (cands, st0)" using eq by fastforce
  note eq1 = eq [unfolded d sum.inject simp_thms ex_simps]
  obtain s1 st1 where s1: "stage1_step env p date (cands, st0) = Inr (s1, st1)" using eq1 by fastforce
  obtain s2 r2 st2 where s2: "stage2_step env (s1, st1) = Inr (s2, r2, st2)" using eq1 s1 by fastforce
  obtain ys reason st3 where s3: "signals_step env p (s2, r2, st2) = Inr (ys, reason, st3)" using eq1 s1 s2 by fastforce
  obtain dk dismissed st4 where s4: "select_step env db now p uid (stage3_combine ys (up_weights p)) st3 = Inr ((dk, dismissed), st4)"
    using eq1 s1 s2 s3 by (auto simp: checkpoint_Inr res_bind_Inr_iff)
  have "deck = dk" "xs = ys" "stats = st4\<lparr>ps_deck_date := Some date,
       ps_degraded := py_or (py_or reason (ps_degraded st4)) (dismissed_short_reason (length dk) (up_deck_size p) dismissed)\<rparr>"
    using eq1 s1 s2 s3 s4 by (auto simp: checkpoint_Inr)
  then show thesis using that d s1 s2 s3 s4 by blast
qed

lemma failed_stage_unset:
  "discovery_step env = Inr (cands, st0) \<Longrightarrow> ps_failed_stage st0 = None"
  "stage1_step env p date (cands, st0) = Inr (s1, st1) \<Longrightarrow> ps_failed_stage st1 = ps_failed_stage st0"
  "stage2_step env (s1, st1) = Inr (s2, r2, st2) \<Longrightarrow> ps_failed_stage st2 = ps_failed_stage st1"
  "signals_step env p (s2, r2, st2) = Inr (xs, reason, st3) \<Longrightarrow> ps_failed_stage st3 = ps_failed_stage st2"
  "select_step env db now p uid ys st3 = Inr (dd, st4) \<Longrightarrow> ps_failed_stage st4 = ps_failed_stage st3"
  by (auto simp: discovery_step_def stage1_step_def stage2_step_def signals_step_def select_step_def absorbing_def
      res_bind_iff initial_stats_def Let_def split: sum.splits option.splits if_splits)

lemma prepare_deck_Inr:
  assumes "prepare_deck env db now date uid p = Inr (deck, xs, stats)"
  shows "ps_deck_date stats = Some date \<and> ps_failed_stage stats = None"
  using assms by (rule prepare_deckE) (simp add: failed_stage_unset)

lemma promote_cards_total: "uncancelled env \<Longrightarrow> \<exists>r. promote_cards env xs db err = Inr r"
  by (induction xs arbitrary: db err) (auto simp: uncancelled_def split: sum.split)

lemma promote_cards_frame:
  "promotes_papers_only env \<Longrightarrow> promote_cards env xs db err = Inr (db', err') \<Longrightarrow>
     pd_decks db' = pd_decks db \<and> pd_cards db' = pd_cards db
     \<and> pd_next_deck db' = pd_next_deck db \<and> pd_next_card db' = pd_next_card db"
proof (induction xs arbitrary: db err)
  case (Cons x xs)
  show ?case
  proof (cases "pe_promote env db (sc_paper x)")
    case (Inl e)
    then show ?thesis using Cons by (auto split: if_splits)
  next
    case (Inr db1)
    then have "pd_decks db1 = pd_decks db \<and> pd_cards db1 = pd_cards db
      \<and> pd_next_deck db1 = pd_next_deck db \<and> pd_next_card db1 = pd_next_card db"
      using Cons.prems(1) unfolding promotes_papers_only_def by blast
    then show ?thesis using Cons.IH [of db1 err] Cons.prems Inr by auto
  qed
qed simp

lemma promote_keeps_error: "promote_cards env xs db e = Inr (db', e') \<Longrightarrow> e \<noteq> None \<Longrightarrow> e' \<noteq> None"
  by (induction xs arbitrary: db e) (auto split: sum.splits if_splits)

lemma pulse_wf_cong:
  "pd_decks db' = pd_decks db \<Longrightarrow> pd_cards db' = pd_cards db \<Longrightarrow> pd_next_deck db' = pd_next_deck db
   \<Longrightarrow> pd_next_card db' = pd_next_card db \<Longrightarrow> pulse_wf db' = pulse_wf db"
  by (simp add: pulse_wf_def)

lemma deck_abs_cong: "pd_decks db' = pd_decks db \<Longrightarrow> pd_cards db' = pd_cards db \<Longrightarrow> deck_abs db' = deck_abs db"
  by (simp add: deck_abs_def deck_cards_def)

lemma persist_pipeline_ok:
  assumes "pulse_wf db" and "uncancelled env" and "pe_outer env = None" and "promotes_papers_only env"
  shows "\<exists>err n db1 db'. persist_pipeline env db now date deck stats uid = (Inr (stats\<lparr>ps_last_error := err, ps_card_count := n\<rparr>), db')
    \<and> (ps_last_error stats \<noteq> None \<longrightarrow> err \<noteq> None)
    \<and> pulse_wf db' \<and> (\<exists>d \<in> set (pd_decks db'). deck_matches date uid d \<and> dk_count d = n \<and> dk_reason d = ps_degraded stats)
    \<and> deck_abs db' = (deck_abs db)((date, uid) \<mapsto> deck_spec db1 uid {} (enumerate 1 deck))
    \<and> n = length (deck_spec db1 uid {} (enumerate 1 deck))"
proof -
  obtain db1 err where pc: "promote_cards env deck db (ps_last_error stats) = Inr (db1, err)"
    using promote_cards_total [OF assms(2)] by fastforce
  have err: "ps_last_error stats \<noteq> None \<longrightarrow> err \<noteq> None"
    using promote_keeps_error [OF pc] by blast
  note fr = promote_cards_frame [OF assms(4) pc]
  let ?s = "stats\<lparr>ps_last_error := err\<rparr>"
  obtain n db' where p: "persist_deck_inner db1 now date deck ?s (ps_degraded ?s) uid = (n, db')" by fastforce
  have wf: "pulse_wf db1" using assms(1) fr pulse_wf_cong by blast
  note pr = persist_refines [OF wf p]
  have "persist_pipeline env db now date deck stats uid = (Inr (stats\<lparr>ps_last_error := err, ps_card_count := n\<rparr>), db')"
    using assms(3) pc p by (simp add: persist_pipeline_def)
  then show ?thesis using pr err deck_abs_cong [of db1 db] fr by fastforce
qed


section \<open>A run that fails changes no deck\<close>

lemma run_stage2_error:
  assumes "run_stage2 env xs = Inl e"
  shows "e = Cancelled_exc \<or> pe_strict env \<and> e = Runtime_exc"
proof -
  let ?r = "if pe_timeout env then Inl Timeout_exc
      else case pe_setup env of Some e \<Rightarrow> Inl e
         | None \<Rightarrow> stage2_llm_rerank (pe_text env) (pe_client env) (pe_llm env) xs"
  show ?thesis using assms
    by (cases ?r) (simp_all add: run_stage2_def Let_def split: pulse_exc.splits if_splits)
qed

lemma prepare_deck_error:
  assumes "prepare_deck env db now date uid p = Inl e"
  shows "e = Cancelled_exc \<or> pe_strict env \<and> e = Runtime_exc"
proof -
  have d: "discovery_step env = Inl e \<Longrightarrow> e = Cancelled_exc" for e by (simp add: discovery_step_def absorbing_Inl)
  have s1: "stage1_step env p date (cs, st) = Inl e \<Longrightarrow> e = Cancelled_exc" for cs st e by (simp add: stage1_step_def absorbing_Inl)
  have s2: "stage2_step env (ys, st) = Inl e \<Longrightarrow> e = Cancelled_exc \<or> pe_strict env \<and> e = Runtime_exc" for ys st e
    using run_stage2_error by (auto simp: stage2_step_def res_bind_iff)
  have opt: "run_optional_signals env ws ys = Inl e \<Longrightarrow> e = Cancelled_exc" for ws ys e
    by (auto simp: run_optional_signals_def Let_def split: sum.splits if_splits)
  have s3: "signals_step env p (ys, r, st) = Inl e \<Longrightarrow> e = Cancelled_exc" for ys r st e
    using opt by (auto simp: signals_step_def res_bind_iff Let_def split: option.splits)
  have s4: "select_step env db now p uid ys st = Inl e \<Longrightarrow> e = Cancelled_exc" for ys st e by (simp add: select_step_def absorbing_Inl)
  show ?thesis
    using assms unfolding prepare_deck_def checkpoint_Inl res_bind_Inl_iff split_paired_Ex
    by (auto dest: d s1 s2 s3 s4 split: if_splits simp: checkpoint_Inl res_bind_Inl_iff)
qed

lemma promote_cards_error: "promote_cards env xs db err = Inl e \<Longrightarrow> e = Cancelled_exc"
  by (induction xs arbitrary: db err) (auto split: sum.splits if_splits)

text \<open>
  A run that fails leaves the tables as they were. An exception leaves a run only for a
  cancellation or, in strict mode, for a missing model score; in that case, and whenever the run
  reports a failed stage, nothing is written. The job raises for exactly these outcomes, and a run
  that finds the reader's lock taken does nothing.
\<close>

lemma failed_run_keeps_tables:
  "(case run_pulse env db now date uid of
      (Inl e, db') \<Rightarrow> db' = db \<and> (e = Cancelled_exc \<or> pe_strict env \<and> e = Runtime_exc)
    | (Inr stats, db') \<Rightarrow> ps_failed_stage stats = None \<or> db' = db)
   \<and> (case pulse_generate_job env locked db now date uid of
        (Inl (Run_raised e), db') \<Rightarrow> locked \<and> db' = db \<and> fst (run_pulse env db now date uid) = Inl e
      | (Inl (No_deck stage), db') \<Rightarrow> locked \<and> db' = db \<and> (\<exists>stats. fst (run_pulse env db now date uid) = Inr stats \<and> ps_failed_stage stats = Some stage)
      | (Inr Blocked, db') \<Rightarrow> \<not> locked \<and> db' = db
      | (Inr (Produced d n), db') \<Rightarrow> locked \<and> (\<exists>stats. run_pulse env db now date uid = (Inr stats, db') \<and> ps_failed_stage stats = None
            \<and> d = ps_deck_date stats \<and> n = ps_card_count stats))"
proof -
  have pp: "case persist_pipeline env db now date deck stats uid of
      (Inl e, db') \<Rightarrow> db' = db \<and> e = Cancelled_exc
    | (Inr s, db') \<Rightarrow> (ps_failed_stage s = None \<or> db' = db)" if "ps_failed_stage stats = None" for deck stats
    using that promote_cards_error
    by (auto simp: persist_pipeline_def Let_def split: option.split sum.split prod.split)
  have run: "case run_pulse env db now date uid of
      (Inl e, db') \<Rightarrow> db' = db \<and> (e = Cancelled_exc \<or> pe_strict env \<and> e = Runtime_exc)
    | (Inr stats, db') \<Rightarrow> ps_failed_stage stats = None \<or> db' = db"
  proof (cases "pe_cancelled env 0 \<or> (\<exists>e. pe_profile env = Inl e)")
    case True
    then show ?thesis by (auto simp: run_pulse_def initial_stats_def split: if_splits)
  next
    case False
    then obtain p where p: "pe_profile env = Inr p" "\<not> pe_cancelled env 0" by (cases "pe_profile env") auto
    show ?thesis
    proof (cases "prepare_deck env db now date uid p")
      case (Inl e)
      then show ?thesis using p prepare_deck_error [OF Inl] by (simp add: run_pulse_def)
    next
      case (Inr r)
      obtain deck xs stats where r: "r = (deck, xs, stats)" by (metis prod_cases3)
      note f = prepare_deck_Inr [OF Inr [unfolded r]]
      show ?thesis using p Inr r f pp [of stats deck]
        by (auto simp: run_pulse_def post_run_def split: prod.split sum.split prod.splits sum.splits)
    qed
  qed
  then show ?thesis
    by (cases "run_pulse env db now date uid"; cases "fst (run_pulse env db now date uid)")
      (auto simp: pulse_generate_job_def split: option.split)
qed

section \<open>Degradation is reported\<close>

lemma run_stage2_reported:
  assumes "run_stage2 env xs = Inr (out, None, calls)"
  shows "length out = 0 \<or> length out div 3 < calls"
proof -
  let ?r = "if pe_timeout env then Inl Timeout_exc
      else case pe_setup env of Some e \<Rightarrow> Inl e
         | None \<Rightarrow> stage2_llm_rerank (pe_text env) (pe_client env) (pe_llm env) xs"
  show ?thesis using assms
    by (cases ?r) (auto simp: run_stage2_def Let_def not_le split: pulse_exc.splits if_splits)
qed

lemma last_error_kept:
  "stage1_step env p date (cands, st0) = Inr (s1, st1) \<Longrightarrow> ps_last_error st0 \<noteq> None \<Longrightarrow> ps_last_error st1 \<noteq> None"
  "stage2_step env (s1, st1) = Inr (s2, r2, st2) \<Longrightarrow> ps_last_error st2 = ps_last_error st1"
  "signals_step env p (s2, r2, st2) = Inr (xs, reason, st3) \<Longrightarrow> ps_last_error st3 = ps_last_error st2"
  "select_step env db now p uid ys st3 = Inr (dd, st4) \<Longrightarrow> ps_last_error st3 \<noteq> None \<Longrightarrow> ps_last_error st4 \<noteq> None"
  by (auto simp: stage1_step_def stage2_step_def signals_step_def select_step_def absorbing_def
      res_bind_iff Let_def split: sum.splits option.splits if_splits)

lemma prepared_undegraded:
  assumes "prepare_deck env db now date uid p = Inr (deck, xs, stats)" and "ps_degraded stats = None"
  shows "(ps_scored stats = 0 \<or> ps_scored stats div 3 < ps_llm_calls stats)
    \<and> (ps_candidates stats = 0 \<longrightarrow> ps_last_error stats \<noteq> None)"
  using assms(1)
proof (rule prepare_deckE)
  fix cands st0 s1 st1 s2 r2 st2 reason st3 dismissed st4
  assume d: "discovery_step env = Inr (cands, st0)" and s1: "stage1_step env p date (cands, st0) = Inr (s1, st1)"
    and s2: "stage2_step env (s1, st1) = Inr (s2, r2, st2)" and s3: "signals_step env p (s2, r2, st2) = Inr (xs, reason, st3)"
    and s4: "select_step env db now p uid (stage3_combine xs (up_weights p)) st3 = Inr ((deck, dismissed), st4)"
    and st: "stats = st4\<lparr>ps_deck_date := Some date,
       ps_degraded := py_or (py_or reason (ps_degraded st4)) (dismissed_short_reason (length deck) (up_deck_size p) dismissed)\<rparr>"
  have none: "reason = None" "ps_degraded st4 = None"
    using assms(2) by (auto simp: st py_or_def split: option.splits)
  have e4: "ps_degraded st4 = ps_degraded st3 \<and> ps_scored st4 = ps_scored st3 \<and> ps_llm_calls st4 = ps_llm_calls st3 \<and> ps_candidates st4 = ps_candidates st3"
    using s4 by (auto simp: select_step_def absorbing_def split: sum.splits option.splits if_splits)
  have e3: "st3 = st2 \<and> r2 = None"
    using s3 none(1) by (auto simp: signals_step_def res_bind_iff Let_def py_or_def split: option.splits)
  obtain calls where r: "run_stage2 env s1 = Inr (s2, r2, calls)"
    and st2: "st2 = st1\<lparr>ps_scored := length s2, ps_llm_calls := calls, ps_degraded := py_or r2 (ps_degraded st1)\<rparr>"
    using s2 by (auto simp: stage2_step_def res_bind_iff)
  have "ps_degraded st1 = None" using none(2) e4 e3 st2 by (simp add: py_or_def)
  moreover have "ps_degraded st1 = ps_degraded st0 \<and> ps_candidates st1 = ps_candidates st0"
    using s1 by (auto simp: stage1_step_def absorbing_def res_bind_iff split: sum.splits if_splits)
  ultimately have "ps_candidates st0 = 0 \<Longrightarrow> ps_last_error st0 \<noteq> None"
    using d by (auto simp: discovery_step_def absorbing_def res_bind_iff initial_stats_def split: sum.splits if_splits prod.splits)
  then have "ps_candidates st4 = 0 \<Longrightarrow> ps_last_error st4 \<noteq> None"
    using last_error_kept(1) [OF s1] last_error_kept(2) [OF s2] last_error_kept(3) [OF s3] last_error_kept(4) [OF s4]
      e4 e3 st2 \<open>ps_degraded st1 = ps_degraded st0 \<and> ps_candidates st1 = ps_candidates st0\<close> by auto
  moreover have "ps_scored st4 = 0 \<or> ps_scored st4 div 3 < ps_llm_calls st4"
    using run_stage2_reported [of env s1 s2 calls] r e3 e4 st2 by auto
  ultimately show ?thesis by (simp add: st)
qed

text \<open>
  A degraded deck says so. If a run that persisted its deck reports no degradation, then the model
  scored more than a third of the candidates it was given (or none were left to score), and
  candidates were found, unless the run recorded an error.
\<close>

lemma degradation_reported:
  assumes "run_pulse env db now date uid = (Inr stats, db')" and "ps_failed_stage stats = None"
    and "ps_degraded stats = None"
  shows "(ps_scored stats = 0 \<or> ps_scored stats div 3 < ps_llm_calls stats)
    \<and> (ps_candidates stats = 0 \<longrightarrow> ps_last_error stats \<noteq> None)"
proof -
  obtain p where p: "pe_profile env = Inr p"
    using assms by (auto simp: run_pulse_def split: if_splits sum.splits)
  obtain deck xs s0 s1 where pd: "prepare_deck env db now date uid p = Inr (deck, xs, s0)"
    and pp: "persist_pipeline env db now date deck s0 uid = (Inr s1, db')" and st: "stats = post_run env xs s1"
    using assms(1) p by (auto simp: run_pulse_def split: if_splits sum.splits prod.splits)
  have "ps_degraded s1 = ps_degraded s0 \<and> ps_scored s1 = ps_scored s0 \<and> ps_llm_calls s1 = ps_llm_calls s0
      \<and> ps_candidates s1 = ps_candidates s0 \<and> (ps_last_error s0 \<noteq> None \<longrightarrow> ps_last_error s1 \<noteq> None)"
    using pp promote_keeps_error by (auto simp: persist_pipeline_def Let_def split: option.splits if_splits sum.splits prod.splits)
  moreover have "ps_degraded s1 = None" using assms(3) by (simp add: st post_run_def)
  ultimately show ?thesis using prepared_undegraded [OF pd] by (auto simp: st post_run_def)
qed

section \<open>A run without candidates replaces the deck\<close>

lemma discovery_failed:
  "pe_discover env = Inl e \<Longrightarrow> e \<noteq> Cancelled_exc \<Longrightarrow>
     discovery_step env = Inr ([], initial_stats\<lparr>ps_last_error := Some ''discover_candidates''\<rparr>)"
  by (simp add: discovery_step_def absorbing_def)

lemma empty_pipeline:
  assumes "prepare_deck env db now date uid p = Inr (deck, xs, stats)" and "pe_discover env = Inl e" and "e \<noteq> Cancelled_exc"
  shows "deck = []"
  using assms(1)
proof (rule prepare_deckE)
  fix cands st0 s1 st1 s2 r2 st2 reason st3 dismissed st4
  assume d: "discovery_step env = Inr (cands, st0)" and s1: "stage1_step env p date (cands, st0) = Inr (s1, st1)"
    and s2: "stage2_step env (s1, st1) = Inr (s2, r2, st2)" and s3: "signals_step env p (s2, r2, st2) = Inr (xs, reason, st3)"
    and s4: "select_step env db now p uid (stage3_combine xs (up_weights p)) st3 = Inr ((deck, dismissed), st4)"
  have "cands = []" using d discovery_failed [OF assms(2,3)] by simp
  then have "s1 = []" using s1 by (auto simp: stage1_step_def absorbing_def stage1_embedding_filter_def)
  then have "s2 = []" using s2 by (auto simp: stage2_step_def run_stage2_def)
  then have "xs = []"
    using s3 by (auto simp: signals_step_def res_bind_iff run_optional_signals_def augment_signals_def Let_def
        split: sum.splits if_splits option.splits)
  then show "deck = []"
    using s4 by (auto simp: select_step_def absorbing_def stage3_combine_def py_sort_desc_def select_deck_cards_def
        exclude_recently_dismissed_def assemble_deck_def split: option.splits if_splits)
qed

text \<open>
  A run whose discovery fails replaces today's deck by an empty one. Even if an earlier run of
  the day had filled the deck, the job succeeds, no stage counts as failed, and the deck of the day
  has no card afterwards.
\<close>

lemma failed_discovery_empties_deck:
  assumes "pulse_wf db" and "uncancelled env" and "\<not> pe_strict env" and "pe_profile env = Inr p"
    and "pe_outer env = None" and "promotes_papers_only env" and "pe_discover env = Inl e"
  shows "\<exists>stats db'. run_pulse env db now date uid = (Inr stats, db') \<and> ps_failed_stage stats = None
    \<and> ps_last_error stats \<noteq> None \<and> ps_card_count stats = 0 \<and> deck_abs db' (date, uid) = Some []"
proof -
  have e: "e \<noteq> Cancelled_exc" using assms(2,7) by (auto simp: uncancelled_def)
  obtain deck xs stats where pd: "prepare_deck env db now date uid p = Inr (deck, xs, stats)"
    using prepare_deck_total [OF assms(2,3)] by (metis prod_cases3)
  have deck: "deck = []" by (rule empty_pipeline [OF pd assms(7) e])
  have err: "ps_last_error stats \<noteq> None"
    using pd
  proof (rule prepare_deckE)
    fix cands st0 s1 st1 s2 r2 st2 reason st3 dismissed st4
    assume d: "discovery_step env = Inr (cands, st0)" and s1: "stage1_step env p date (cands, st0) = Inr (s1, st1)"
      and s2: "stage2_step env (s1, st1) = Inr (s2, r2, st2)" and s3: "signals_step env p (s2, r2, st2) = Inr (xs, reason, st3)"
      and s4: "select_step env db now p uid (stage3_combine xs (up_weights p)) st3 = Inr ((deck, dismissed), st4)"
      and st: "stats = st4\<lparr>ps_deck_date := Some date,
       ps_degraded := py_or (py_or reason (ps_degraded st4)) (dismissed_short_reason (length deck) (up_deck_size p) dismissed)\<rparr>"
    have "ps_last_error st0 \<noteq> None" using d discovery_failed [OF assms(7) e] by auto
    then show ?thesis
      using last_error_kept(1) [OF s1] last_error_kept(2) [OF s2] last_error_kept(3) [OF s3] last_error_kept(4) [OF s4]
      by (simp add: st)
  qed
  obtain er n db1 db' where pp: "persist_pipeline env db now date deck stats uid = (Inr (stats\<lparr>ps_last_error := er, ps_card_count := n\<rparr>), db')"
    "ps_last_error stats \<noteq> None \<longrightarrow> er \<noteq> None"
    "deck_abs db' = (deck_abs db)((date, uid) \<mapsto> deck_spec db1 uid {} (enumerate 1 deck))"
    "n = length (deck_spec db1 uid {} (enumerate 1 deck))"
    using persist_pipeline_ok [OF assms(1,2,5,6), of now date deck stats uid] by blast
  let ?s = "post_run env xs (stats\<lparr>ps_last_error := er, ps_card_count := n\<rparr>)"
  have "run_pulse env db now date uid = (Inr ?s, db')"
    using assms(2,4) pd pp(1) by (simp add: run_pulse_def uncancelled_def)
  moreover have "ps_failed_stage ?s = None" "ps_last_error ?s \<noteq> None" "ps_card_count ?s = 0"
    using prepare_deck_Inr [OF pd] pp(2,4) err deck by (simp_all add: post_run_def)
  moreover have "deck_abs db' (date, uid) = Some []" using pp(3) deck by simp
  ultimately show ?thesis by blast
qed

section \<open>Samples\<close>

text \<open>Collaborators that all answer; the model fails on every call.\<close>

definition sample_env :: pulse_env where
  "sample_env = \<lparr>pe_text = ascii_env, pe_str = (\<lambda>_. []), pe_cancelled = (\<lambda>_. False), pe_profile = Inr sample_profile,
     pe_discover = Inr ([sample_paper], []), pe_embedder = (\<lambda>n ts. Inr (replicate (length ts) [1])), pe_setup = None,
     pe_client = True, pe_llm = (\<lambda>_. Llm_failed), pe_timeout = False, pe_strict = False, pe_citation = (\<lambda>_. Inr (\<lambda>_. Map.empty)),
     pe_classifier = (\<lambda>xs. Inr (map (\<lambda>_. 0) xs)), pe_select = None, pe_promote = (\<lambda>db p. Inr db), pe_outer = None, pe_enqueue = True\<rparr>"

lemma sample_env_ok: "uncancelled sample_env" "\<not> pe_strict sample_env" "pe_profile sample_env = Inr sample_profile"
    "pe_outer sample_env = None" "promotes_papers_only sample_env"
  by (simp_all add: sample_env_def uncancelled_def promotes_papers_only_def)


lemma failing_env_ok: "uncancelled (sample_env\<lparr>pe_discover := Inl Other_exc\<rparr>)" "\<not> pe_strict (sample_env\<lparr>pe_discover := Inl Other_exc\<rparr>)"
    "pe_profile (sample_env\<lparr>pe_discover := Inl Other_exc\<rparr>) = Inr sample_profile" "pe_outer (sample_env\<lparr>pe_discover := Inl Other_exc\<rparr>) = None"
    "promotes_papers_only (sample_env\<lparr>pe_discover := Inl Other_exc\<rparr>)" "pe_discover (sample_env\<lparr>pe_discover := Inl Other_exc\<rparr>) = Inl Other_exc"
  using sample_env_ok by (simp_all add: uncancelled_def promotes_papers_only_def)

text \<open>The day of the sample's full deck.\<close>

end
