(* ===== verification/Paper_Content.thy ===== *)
theory Paper_Content
  imports Prelude "HOL-Library.AList"
begin

text \<open>
  The content of papers and what is derived from it: the two upserts of \<open>services/paper_upsert.py\<close>,
  downloads, processing runs and reconciliation of \<open>services/pdf_workflow.py\<close>, the reclaiming of
  \<open>services/paper_content_reclaim.py\<close>, uploads, and the guarded persistence of summaries. The
  operations interleave as steps of a world that has the tables, the stored files, the publication
  lock, the mutation locks of papers and the local variables of every operation in progress. Vectors,
  page images and the deletion of papers are left out.
\<close>

section \<open>Tables\<close>

text \<open>The columns that a trusted adapter owns.\<close>

record descriptive =
  dv_source :: string
  dv_title :: string
  dv_authors :: "string list"
  dv_abstract :: "string option"
  dv_published :: "int option"
  dv_url :: string
  dv_pdf_url :: "string option"
  dv_citations :: int
  dv_metadata :: "(string \<times> string) list"

record paper_input =
  pi_ext :: string
  pi_desc :: descriptive
  pi_origin :: string

text \<open>A local path is represented by the paper id that is its stem.\<close>

record content_row =
  cw_ext :: string
  cw_desc :: descriptive
  cw_origin :: string
  cw_discovered :: "int option"
  cw_public :: bool
  cw_downloaded :: bool
  cw_local :: "int option"
  cw_chunked :: bool
  cw_generation :: nat

text \<open>
  A stored document is what the processor extracts from it, and the URL that it was fetched from,
  which the system itself does not record; neither does it for a chunk. \<open>None\<close> is an upload.
\<close>

record stored_pdf =
  sp_url :: "string option"
  sp_chunks :: "string list"

record chunk_row =
  kr_text :: string
  kr_url :: "string option"

text \<open>\<open>sm_inputs\<close>, the chunks a summary was made from, is not stored either.\<close>

record summary_row =
  sm_generation :: nat
  sm_text :: string
  sm_inputs :: "chunk_row list"

record content_db =
  cd_papers :: "int \<Rightarrow> content_row option"
  cd_ids :: "string \<Rightarrow> int option"
  cd_next :: int
  cd_library :: "(int \<times> int) set"
  cd_chunks :: "int \<Rightarrow> (nat \<times> chunk_row) list"
  cd_summaries :: "int \<times> int option \<Rightarrow> summary_row option"

datatype content_error = Bad_source | Superseded | Record_missing

definition update_row :: "int \<Rightarrow> (content_row \<Rightarrow> content_row) \<Rightarrow> content_db \<Rightarrow> content_db" where
  "update_row i f db = db\<lparr>cd_papers := (cd_papers db)(i := map_option f (cd_papers db i))\<rparr>"

definition row_url :: "content_row \<Rightarrow> string option" where
  "row_url r = dv_pdf_url (cw_desc r)"

text \<open>Python's \<open>url or None\<close>.\<close>

definition or_none :: "string option \<Rightarrow> string option" where
  "or_none u = (if u = Some [] then None else u)"

section \<open>Upserts\<close>

datatype conflict = Attach_only | Trusted_refresh

definition new_row :: "paper_input \<Rightarrow> int option \<Rightarrow> bool \<Rightarrow> content_row" where
  "new_row p by public = \<lparr>cw_ext = pi_ext p, cw_desc = pi_desc p, cw_origin = pi_origin p, cw_discovered = by,
     cw_public = public, cw_downloaded = False, cw_local = None, cw_chunked = False, cw_generation = 0\<rparr>"

text \<open>The result is the paper's id, \<open>is_insert\<close> and the tables; the sequence advances in any case.\<close>

definition run_paper_upsert :: "conflict \<Rightarrow> content_db \<Rightarrow> paper_input \<Rightarrow> int option \<Rightarrow> bool \<Rightarrow> int \<times> bool \<times> content_db" where
  "run_paper_upsert policy db p by public =
     (let db' = db\<lparr>cd_next := cd_next db + 1\<rparr> in
      case cd_ids db (pi_ext p) of
        None \<Rightarrow>
          (cd_next db, True,
           db'\<lparr>cd_papers := (cd_papers db)(cd_next db \<mapsto> new_row p by public), cd_ids := (cd_ids db)(pi_ext p \<mapsto> cd_next db)\<rparr>)
      | Some i \<Rightarrow>
          (i, False,
           case policy of
             Attach_only \<Rightarrow> db'
           | Trusted_refresh \<Rightarrow> update_row i (\<lambda>r. r\<lparr>cw_desc := pi_desc p, cw_public := True\<rparr>) db'))"

definition upsert_paper :: "content_db \<Rightarrow> paper_input \<Rightarrow> int option \<Rightarrow> int \<times> bool \<times> content_db" where
  "upsert_paper db p by = run_paper_upsert Attach_only db p by False"

definition verified_public_source_types :: "string list" where
  "verified_public_source_types = [''arxiv'', ''semantic_scholar'', ''openalex'', ''pubmed'']"

text \<open>The row that the promotion locks before it writes.\<close>

definition promotion_prior :: "content_db \<Rightarrow> paper_input \<Rightarrow> (int \<times> string option) option" where
  "promotion_prior db p =
     (case cd_ids db (pi_ext p) of None \<Rightarrow> None | Some i \<Rightarrow> map_option (\<lambda>r. (i, row_url r)) (cd_papers db i))"

definition promotion_supersedes :: "(int \<times> string option) option \<Rightarrow> bool \<Rightarrow> string option \<Rightarrow> bool" where
  "promotion_supersedes prior is_insert url =
     (if is_insert then False
      else case prior of None \<Rightarrow> True | Some (i, old) \<Rightarrow> or_none old \<noteq> or_none url)"

definition discard_derived :: "int \<Rightarrow> content_db \<Rightarrow> content_db" where
  "discard_derived i db =
     update_row i (\<lambda>r. r\<lparr>cw_downloaded := False, cw_local := None, cw_chunked := False, cw_generation := Suc (cw_generation r)\<rparr>)
       (db\<lparr>cd_chunks := (cd_chunks db)(i := [])\<rparr>)"

text \<open>
  The promotion after its first \<open>SELECT\<close>, which gave \<open>prior\<close>: the id, \<open>is_insert\<close>, the discarded id
  and the tables.
\<close>

definition upsert_verified_public_paper ::
  "(int \<times> string option) option \<Rightarrow> content_db \<Rightarrow> paper_input \<Rightarrow> int option \<Rightarrow> content_error + int \<times> bool \<times> int option \<times> content_db" where
  "upsert_verified_public_paper prior db p by =
     (if dv_source (pi_desc p) \<notin> set verified_public_source_types then Inl Bad_source
      else
        let (i, is_insert, db1) = run_paper_upsert Trusted_refresh db p by True
        in if promotion_supersedes prior is_insert (dv_pdf_url (pi_desc p))
           then Inr (i, False, Some i, discard_derived i db1)
           else Inr (i, is_insert, None, db1))"

section \<open>Documents, chunks and summaries\<close>

text \<open>The pointer is published only while the row still references the URL that was fetched.\<close>

definition publish_pointer :: "content_db \<Rightarrow> int \<Rightarrow> string \<Rightarrow> content_error + content_db" where
  "publish_pointer db pid url =
     (case cd_papers db pid of
        None \<Rightarrow> Inl Record_missing
      | Some r \<Rightarrow>
          if row_url r = Some url
          then Inr (update_row pid (\<lambda>r. r\<lparr>cw_local := Some pid, cw_downloaded := True\<rparr>) db)
          else Inl Record_missing)"

definition uploaded_row :: "int \<Rightarrow> string \<Rightarrow> string \<Rightarrow> string list \<Rightarrow> string option \<Rightarrow> int option \<Rightarrow> content_row" where
  "uploaded_row i hash title authors abstract by =
     \<lparr>cw_ext = ''local:'' @ hash,
      cw_desc = \<lparr>dv_source = ''local'', dv_title = title, dv_authors = authors, dv_abstract = abstract, dv_published = None,
        dv_url = ''local://'' @ hash, dv_pdf_url = None, dv_citations = 0, dv_metadata = []\<rparr>,
      cw_origin = ''user_initiated'', cw_discovered = by, cw_public = False, cw_downloaded = True, cw_local = Some i,
      cw_chunked = False, cw_generation = 0\<rparr>"

text \<open>\<open>add_to_library\<close>, for a caller that has a user.\<close>

definition attach_reader :: "int option \<Rightarrow> int \<Rightarrow> content_db \<Rightarrow> content_db" where
  "attach_reader by i db = (case by of None \<Rightarrow> db | Some u \<Rightarrow> db\<lparr>cd_library := insert (u, i) (cd_library db)\<rparr>)"

text \<open>An upload inserts its own row, or joins the row that the same file has already (\<open>Inl\<close>).\<close>

definition upload_pdf :: "content_db \<Rightarrow> string \<Rightarrow> string \<Rightarrow> string list \<Rightarrow> string option \<Rightarrow> int option \<Rightarrow> content_db + int \<times> content_db" where
  "upload_pdf db hash title authors abstract by =
     (let i = cd_next db; row = uploaded_row i hash title authors abstract by in
      case cd_ids db (cw_ext row) of
        Some j \<Rightarrow> Inl (attach_reader by j db)
      | None \<Rightarrow>
          Inr (i, attach_reader by i
            (db\<lparr>cd_papers := (cd_papers db)(i \<mapsto> row), cd_ids := (cd_ids db)(cw_ext row \<mapsto> i), cd_next := i + 1\<rparr>)))"

definition persist_chunk_rows :: "int \<Rightarrow> chunk_row list \<Rightarrow> content_db \<Rightarrow> content_db" where
  "persist_chunk_rows pid rows db =
     db\<lparr>cd_chunks := (cd_chunks db)(pid := fold (\<lambda>(k, c). AList.update k c) (enumerate 0 rows) (cd_chunks db pid))\<rparr>"

definition chunk_rows_of :: "stored_pdf \<Rightarrow> chunk_row list" where
  "chunk_rows_of f = map (\<lambda>t. \<lparr>kr_text = t, kr_url = sp_url f\<rparr>) (sp_chunks f)"

definition source_unchanged :: "content_db \<Rightarrow> int \<Rightarrow> string option \<Rightarrow> bool" where
  "source_unchanged db pid source \<longleftrightarrow> (case cd_papers db pid of None \<Rightarrow> None | Some r \<Rightarrow> row_url r) = source"

definition persist_processed_pdf :: "content_db \<Rightarrow> int \<Rightarrow> bool \<Rightarrow> string option \<Rightarrow> chunk_row list \<Rightarrow> content_error + content_db" where
  "persist_processed_pdf db pid force source rows =
     (if \<not> source_unchanged db pid source then Inl Superseded
      else
        let db1 = (if force then db\<lparr>cd_chunks := (cd_chunks db)(pid := [])\<rparr> else db)
        in Inr (update_row pid (\<lambda>r. r\<lparr>cw_chunked := True\<rparr>) (persist_chunk_rows pid rows db1)))"

definition persist_resumable_chunks :: "content_db \<Rightarrow> int \<Rightarrow> string option \<Rightarrow> chunk_row list \<Rightarrow> content_error + content_db" where
  "persist_resumable_chunks db pid source rows =
     (if rows = [] then Inr db
      else if \<not> source_unchanged db pid source then Inl Superseded
      else Inr (persist_chunk_rows pid rows db))"

text \<open>\<open>None\<close> stands for a row that has gone or cannot be read.\<close>

definition content_is_discarded :: "content_db \<Rightarrow> int \<Rightarrow> bool" where
  "content_is_discarded db pid = (case cd_papers db pid of None \<Rightarrow> False | Some r \<Rightarrow> cw_local r = None \<and> \<not> cw_chunked r)"

definition holds_paper :: "content_db \<Rightarrow> int \<Rightarrow> int option \<Rightarrow> bool" where
  "holds_paper db pid requester = (case requester of None \<Rightarrow> False | Some u \<Rightarrow> (u, pid) \<in> cd_library db)"

definition content_visible :: "content_db \<Rightarrow> int \<Rightarrow> int option \<Rightarrow> bool" where
  "content_visible db pid uid =
     (case cd_papers db pid of None \<Rightarrow> False
      | Some r \<Rightarrow> (case uid of None \<Rightarrow> True | Some u \<Rightarrow> cw_public r \<or> (u, pid) \<in> cd_library db))"

text \<open>The chunks of a paper in the order of their indices.\<close>

definition paper_chunk_rows :: "content_db \<Rightarrow> int \<Rightarrow> chunk_row list" where
  "paper_chunk_rows db pid = map snd (sort_key fst (cd_chunks db pid))"

definition current_summary :: "content_db \<Rightarrow> int \<Rightarrow> int option \<Rightarrow> summary_row option" where
  "current_summary db pid uid =
     (case (cd_summaries db (pid, uid), cd_papers db pid) of
        (Some s, Some r) \<Rightarrow> if sm_generation s = cw_generation r then Some s else None
      | _ \<Rightarrow> None)"

text \<open>
  The guarded upsert of a summary. If the generation has moved, or a newer summary is stored, the
  result is the current summary, if there is one.
\<close>

definition persist_generated_summary ::
  "content_db \<Rightarrow> int \<Rightarrow> int option \<Rightarrow> summary_row \<Rightarrow> summary_row option \<times> content_db" where
  "persist_generated_summary db pid uid s =
     (if map_option cw_generation (cd_papers db pid) \<noteq> Some (sm_generation s) then (current_summary db pid uid, db)
      else if (case cd_summaries db (pid, uid) of None \<Rightarrow> True | Some s0 \<Rightarrow> sm_generation s0 \<le> sm_generation s)
      then (Some s, db\<lparr>cd_summaries := (cd_summaries db)((pid, uid) \<mapsto> s)\<rparr>)
      else (current_summary db pid uid, db))"

section \<open>The world\<close>

record download =
  dl_paper :: int
  dl_url :: string
  dl_chunks :: "string list"

text \<open>The phases of a processing run, which holds the mutation lock of its paper.\<close>

datatype phase =
    Source_read
  | Pointer_checked
  | To_process
  | To_reconcile
  | Snapshot "(nat \<times> chunk_row) list"
  | Unchanged
  | Extracted stored_pdf
  | Aborting

record run =
  rn_paper :: int
  rn_path :: int
  rn_force :: bool
  rn_source :: "string option"
  rn_phase :: phase

record maker =
  mk_paper :: int
  mk_user :: "int option"
  mk_generation :: nat
  mk_inputs :: "chunk_row list option"

text \<open>
  \<open>w_publisher\<close> is the holder of the publication lock: a download and the file that it replaced.
\<close>

record world =
  w_db :: content_db
  w_files :: "int \<Rightarrow> stored_pdf option"
  w_publisher :: "(nat \<times> stored_pdf option) option"
  w_downloads :: "nat \<Rightarrow> download option"
  w_runs :: "nat \<Rightarrow> run option"
  w_mutex :: "int \<Rightarrow> nat option"
  w_makers :: "nat \<Rightarrow> maker option"

datatype content_event =
    Save paper_input "int option"
  | Promote paper_input "int option"
  | Promote_raced paper_input "int option"
  | Upload string string "string list" "string option" "int option" "string list"
  | Hold int int
  | Stage nat int string "string list"
  | Publish nat
  | Publish_end nat
  | Publish_fail nat
  | Run_begin nat int int bool "int option"
  | Run_pointer nat
  | Run_count nat
  | Run_extract nat
  | Run_commit nat
  | Run_partial nat nat
  | Run_fail nat
  | Run_reclaim nat
  | Reconcile_read nat
  | Reconcile_check nat
  | Reconcile_mark nat
  | Reclaim int
  | Summary_begin nat int "int option" bool
  | Summary_read nat
  | Summary_persist nat string

section \<open>Steps\<close>

definition set_phase :: "nat \<Rightarrow> phase \<Rightarrow> world \<Rightarrow> world" where
  "set_phase n ph w = w\<lparr>w_runs := (w_runs w)(n := map_option (\<lambda>r. r\<lparr>rn_phase := ph\<rparr>) (w_runs w n))\<rparr>"

text \<open>The end of a run: its mutation lock is released.\<close>

definition end_run :: "nat \<Rightarrow> run \<Rightarrow> world \<Rightarrow> world" where
  "end_run n r w = w\<lparr>w_runs := (w_runs w)(n := None), w_mutex := (w_mutex w)(rn_paper r := None)\<rparr>"

definition stage_download :: "nat \<Rightarrow> int \<Rightarrow> string \<Rightarrow> string list \<Rightarrow> world \<Rightarrow> world option" where
  "stage_download d pid url pages w =
     (if w_downloads w d = None then Some (w\<lparr>w_downloads := (w_downloads w)(d \<mapsto> \<lparr>dl_paper = pid, dl_url = url, dl_chunks = pages\<rparr>)\<rparr>)
      else None)"

definition promote_file :: "nat \<Rightarrow> world \<Rightarrow> world option" where
  "promote_file d w =
     (case (w_downloads w d, w_publisher w) of
        (Some dl, None) \<Rightarrow>
          Some (w\<lparr>w_files := (w_files w)(dl_paper dl \<mapsto> \<lparr>sp_url = or_none (Some (dl_url dl)), sp_chunks = dl_chunks dl\<rparr>),
                  w_publisher := Some (d, w_files w (dl_paper dl))\<rparr>)
      | _ \<Rightarrow> None)"

text \<open>The end of the transaction and of the publication; a rejected or failed one restores the file.\<close>

definition finish_publication :: "nat \<Rightarrow> bool \<Rightarrow> world \<Rightarrow> world option" where
  "finish_publication d failed w =
     (case (w_downloads w d, w_publisher w) of
        (Some dl, Some (d', old)) \<Rightarrow>
          if d' \<noteq> d then None
          else
            let w' = w\<lparr>w_publisher := None, w_downloads := (w_downloads w)(d := None)\<rparr>
            in (case (if failed then Inl Record_missing else publish_pointer (w_db w) (dl_paper dl) (dl_url dl)) of
                  Inr db \<Rightarrow> Some (w'\<lparr>w_db := db\<rparr>)
                | Inl e \<Rightarrow> Some (w'\<lparr>w_files := (w_files w)(dl_paper dl := old)\<rparr>))
      | _ \<Rightarrow> None)"

text \<open>The lock, the check of a forced run's requester, and the first statement of the premise.\<close>

definition begin_run :: "nat \<Rightarrow> int \<Rightarrow> int \<Rightarrow> bool \<Rightarrow> int option \<Rightarrow> world \<Rightarrow> world option" where
  "begin_run n pid path force requester w =
     (if w_runs w n \<noteq> None \<or> w_mutex w pid \<noteq> None then None
      else if force \<and> \<not> holds_paper (w_db w) pid requester then Some w
      else Some (w\<lparr>w_mutex := (w_mutex w)(pid \<mapsto> n),
             w_runs := (w_runs w)(n \<mapsto> \<lparr>rn_paper = pid, rn_path = path, rn_force = force,
               rn_source = (case cd_papers (w_db w) pid of None \<Rightarrow> None | Some r \<Rightarrow> row_url r), rn_phase = Source_read\<rparr>)\<rparr>))"

definition check_pointer :: "nat \<Rightarrow> run \<Rightarrow> world \<Rightarrow> world" where
  "check_pointer n r w =
     (if (case cd_papers (w_db w) (rn_paper r) of None \<Rightarrow> False | Some row \<Rightarrow> cw_downloaded row \<and> cw_local row = Some (rn_path r))
      then set_phase n Pointer_checked w else set_phase n Aborting w)"

text \<open>The number of chunks and \<open>chunked_at\<close>, read together.\<close>

definition count_chunks :: "nat \<Rightarrow> run \<Rightarrow> world \<Rightarrow> world" where
  "count_chunks n r w =
     (if cd_chunks (w_db w) (rn_paper r) \<noteq> [] \<and> \<not> rn_force r
         \<and> (case cd_papers (w_db w) (rn_paper r) of None \<Rightarrow> False | Some row \<Rightarrow> cw_chunked row)
      then set_phase n To_reconcile w else set_phase n To_process w)"

definition settle :: "nat \<Rightarrow> run \<Rightarrow> world \<Rightarrow> content_error + content_db \<Rightarrow> world" where
  "settle n r w res = (case res of Inr db \<Rightarrow> end_run n r (w\<lparr>w_db := db\<rparr>) | Inl e \<Rightarrow> set_phase n Aborting w)"

definition reclaim_files :: "int \<Rightarrow> world \<Rightarrow> world" where
  "reclaim_files pid w = (if content_is_discarded (w_db w) pid then w\<lparr>w_files := (w_files w)(pid := None)\<rparr> else w)"

text \<open>One step of a run in its phase; \<open>None\<close> if the phase is another one.\<close>

definition step_run :: "nat \<Rightarrow> content_event \<Rightarrow> run \<Rightarrow> world \<Rightarrow> world option" where
  "step_run n e r w =
     (let pid = rn_paper r; db = w_db w in
      case (e, rn_phase r) of
        (Run_pointer _, Source_read) \<Rightarrow> Some (check_pointer n r w)
      | (Run_count _, Pointer_checked) \<Rightarrow> Some (count_chunks n r w)
      | (Run_extract _, To_process) \<Rightarrow> map_option (\<lambda>f. set_phase n (Extracted f) w) (w_files w pid)
      | (Run_commit _, Extracted f) \<Rightarrow> Some (settle n r w (persist_processed_pdf db pid (rn_force r) (rn_source r) (chunk_rows_of f)))
      | (Run_partial _ k, Extracted f) \<Rightarrow> Some (settle n r w (persist_resumable_chunks db pid (rn_source r) (take k (chunk_rows_of f))))
      | (Reconcile_read _, To_reconcile) \<Rightarrow>
          Some (if cd_chunks db pid = [] then end_run n r w else set_phase n (Snapshot (cd_chunks db pid)) w)
      | (Reconcile_check _, Snapshot s) \<Rightarrow> Some (set_phase n (if cd_chunks db pid = s then Unchanged else To_reconcile) w)
      | (Reconcile_mark _, Unchanged) \<Rightarrow>
          Some (end_run n r (w\<lparr>w_db := update_row pid (\<lambda>row. row\<lparr>cw_chunked := True\<rparr>) db\<rparr>))
      | (Run_reclaim _, Aborting) \<Rightarrow> (if w_publisher w = None then Some (end_run n r (reclaim_files pid w)) else None)
      | (Run_fail _, ph) \<Rightarrow> (if ph = Aborting then None else Some (end_run n r w))
      | _ \<Rightarrow> None)"

definition begin_summary :: "nat \<Rightarrow> int \<Rightarrow> int option \<Rightarrow> bool \<Rightarrow> world \<Rightarrow> world option" where
  "begin_summary m pid uid force w =
     (if w_makers w m \<noteq> None then None
      else if \<not> content_visible (w_db w) pid uid then Some w
      else case cd_papers (w_db w) pid of
        None \<Rightarrow> Some w
      | Some r \<Rightarrow>
          if \<not> force \<and> current_summary (w_db w) pid uid \<noteq> None then Some w
          else Some (w\<lparr>w_makers := (w_makers w)(m \<mapsto> \<lparr>mk_paper = pid, mk_user = uid, mk_generation = cw_generation r, mk_inputs = None\<rparr>)\<rparr>))"

definition read_inputs :: "nat \<Rightarrow> world \<Rightarrow> world option" where
  "read_inputs m w =
     (case w_makers w m of
        None \<Rightarrow> None
      | Some k \<Rightarrow>
          (let cs = paper_chunk_rows (w_db w) (mk_paper k)
           in Some (w\<lparr>w_makers := (w_makers w)(m := if cs = [] then None else Some (k\<lparr>mk_inputs := Some cs\<rparr>))\<rparr>)))"

definition persist_summary :: "nat \<Rightarrow> string \<Rightarrow> world \<Rightarrow> world option" where
  "persist_summary m txt w =
     (case w_makers w m of
        None \<Rightarrow> None
      | Some k \<Rightarrow>
          (case mk_inputs k of
             None \<Rightarrow> None
           | Some cs \<Rightarrow>
               Some (w\<lparr>w_makers := (w_makers w)(m := None),
                       w_db := snd (persist_generated_summary (w_db w) (mk_paper k) (mk_user k)
                         \<lparr>sm_generation = mk_generation k, sm_text = txt, sm_inputs = cs\<rparr>)\<rparr>)))"

fun run_of :: "content_event \<Rightarrow> nat option" where
  "run_of (Run_pointer n) = Some n"
| "run_of (Run_count n) = Some n"
| "run_of (Run_extract n) = Some n"
| "run_of (Run_commit n) = Some n"
| "run_of (Run_partial n k) = Some n"
| "run_of (Run_fail n) = Some n"
| "run_of (Run_reclaim n) = Some n"
| "run_of (Reconcile_read n) = Some n"
| "run_of (Reconcile_check n) = Some n"
| "run_of (Reconcile_mark n) = Some n"
| "run_of e = None"

definition promote_step :: "(int \<times> string option) option \<Rightarrow> paper_input \<Rightarrow> int option \<Rightarrow> world \<Rightarrow> world" where
  "promote_step prior p by w =
     (case upsert_verified_public_paper prior (w_db w) p by of
        Inl e \<Rightarrow> w | Inr (i, is_insert, discarded, db) \<Rightarrow> w\<lparr>w_db := db\<rparr>)"

definition upload_step :: "string \<Rightarrow> string \<Rightarrow> string list \<Rightarrow> string option \<Rightarrow> int option \<Rightarrow> string list \<Rightarrow> world \<Rightarrow> world option" where
  "upload_step hash title authors abstract by pages w =
     (case w_publisher w of
        Some _ \<Rightarrow> None
      | None \<Rightarrow>
          (case upload_pdf (w_db w) hash title authors abstract by of
             Inl db \<Rightarrow> Some (w\<lparr>w_db := db\<rparr>)
           | Inr (i, db) \<Rightarrow> Some (w\<lparr>w_db := db, w_files := (w_files w)(i \<mapsto> \<lparr>sp_url = None, sp_chunks = pages\<rparr>)\<rparr>)))"

text \<open>
  One step; \<open>None\<close> if it is not enabled. A raced promotion saw no row with its first \<open>SELECT\<close>,
  although another transaction has inserted one by now.
\<close>

definition perform :: "world \<Rightarrow> content_event \<Rightarrow> world option" where
  "perform w e =
     (case run_of e of
        Some n \<Rightarrow> (case w_runs w n of None \<Rightarrow> None | Some r \<Rightarrow> step_run n e r w)
      | None \<Rightarrow>
          (case e of
             Save p by \<Rightarrow> Some (w\<lparr>w_db := snd (snd (upsert_paper (w_db w) p by))\<rparr>)
           | Promote p by \<Rightarrow> Some (promote_step (promotion_prior (w_db w) p) p by w)
           | Promote_raced p by \<Rightarrow> Some (promote_step None p by w)
           | Upload hash title authors abstract by pages \<Rightarrow> upload_step hash title authors abstract by pages w
           | Hold u pid \<Rightarrow>
               (if cd_papers (w_db w) pid = None then None
                else Some (w\<lparr>w_db := (w_db w)\<lparr>cd_library := insert (u, pid) (cd_library (w_db w))\<rparr>\<rparr>))
           | Stage d pid url pages \<Rightarrow> stage_download d pid url pages w
           | Publish d \<Rightarrow> promote_file d w
           | Publish_end d \<Rightarrow> finish_publication d False w
           | Publish_fail d \<Rightarrow> finish_publication d True w
           | Run_begin n pid path force requester \<Rightarrow> begin_run n pid path force requester w
           | Reclaim pid \<Rightarrow> (if w_mutex w pid = None \<and> w_publisher w = None then Some (reclaim_files pid w) else None)
           | Summary_begin m pid uid force \<Rightarrow> begin_summary m pid uid force w
           | Summary_read m \<Rightarrow> read_inputs m w
           | Summary_persist m txt \<Rightarrow> persist_summary m txt w
           | _ \<Rightarrow> None))"

abbreviation execute :: "world \<Rightarrow> content_event list \<Rightarrow> world option" where
  "execute \<equiv> exec_steps perform"

definition empty_world :: world where
  "empty_world = \<lparr>w_db = \<lparr>cd_papers = (\<lambda>_. None), cd_ids = (\<lambda>_. None), cd_next = 1, cd_library = {}, cd_chunks = (\<lambda>_. []),
     cd_summaries = (\<lambda>_. None)\<rparr>, w_files = (\<lambda>_. None), w_publisher = None, w_downloads = (\<lambda>_. None), w_runs = (\<lambda>_. None),
     w_mutex = (\<lambda>_. None), w_makers = (\<lambda>_. None)\<rparr>"

section \<open>The invariant\<close>

definition made_from :: "string option \<Rightarrow> chunk_row list \<Rightarrow> bool" where
  "made_from url cs \<longleftrightarrow> list_all (\<lambda>c. kr_url c = or_none url) cs"

text \<open>The stored file of a paper, or the one that an unfinished publication would restore.\<close>

definition settled_file :: "world \<Rightarrow> int \<Rightarrow> stored_pdf option" where
  "settled_file w i =
     (case w_publisher w of
        None \<Rightarrow> w_files w i
      | Some (d, old) \<Rightarrow> if map_option dl_paper (w_downloads w d) = Some i then old else w_files w i)"


definition row_ok :: "content_db \<Rightarrow> int \<Rightarrow> content_row \<Rightarrow> bool" where
  "row_ok db i r \<longleftrightarrow> made_from (row_url r) (map snd (cd_chunks db i))
     \<and> (\<forall>u s. cd_summaries db (i, u) = Some s \<longrightarrow> sm_generation s \<le> cw_generation r
          \<and> (sm_generation s = cw_generation r \<longrightarrow> made_from (row_url r) (sm_inputs s)))"

definition tables_ok :: "content_db \<Rightarrow> bool" where
  "tables_ok db \<longleftrightarrow> (\<forall>e i. cd_ids db e = Some i \<longrightarrow> (\<exists>r. cd_papers db i = Some r \<and> cw_ext r = e))
     \<and> (\<forall>i. cd_next db \<le> i \<longrightarrow> cd_papers db i = None)
     \<and> (\<forall>i. case cd_papers db i of None \<Rightarrow> cd_chunks db i = [] \<and> (\<forall>u. cd_summaries db (i, u) = None) | Some r \<Rightarrow> row_ok db i r)"

definition file_ok :: "world \<Rightarrow> int \<Rightarrow> string option \<Rightarrow> bool" where
  "file_ok w i url \<longleftrightarrow> (\<exists>f. settled_file w i = Some f \<and> sp_url f = or_none url)"

definition files_ok :: "world \<Rightarrow> bool" where
  "files_ok w \<longleftrightarrow> (\<forall>i r. cd_papers (w_db w) i = Some r \<and> cw_local r \<noteq> None \<longrightarrow> cw_local r = Some i \<and> file_ok w i (row_url r))"

definition phase_ok :: "world \<Rightarrow> run \<Rightarrow> bool" where
  "phase_ok w r \<longleftrightarrow>
     (let good = (\<lambda>P. \<exists>row. cd_papers (w_db w) (rn_paper r) = Some row \<and> (rn_source r = row_url row \<longrightarrow> P (row_url row)))
      in case rn_phase r of
           Pointer_checked \<Rightarrow> good (file_ok w (rn_paper r))
         | To_process \<Rightarrow> good (file_ok w (rn_paper r))
         | Extracted f \<Rightarrow> good (\<lambda>url. sp_url f = or_none url)
         | _ \<Rightarrow> True)"

definition runs_ok :: "world \<Rightarrow> bool" where
  "runs_ok w \<longleftrightarrow> (\<forall>n r. w_runs w n = Some r \<longrightarrow> w_mutex w (rn_paper r) = Some n \<and> phase_ok w r)"

definition maker_ok :: "content_db \<Rightarrow> maker \<Rightarrow> bool" where
  "maker_ok db k \<longleftrightarrow> (\<exists>r. cd_papers db (mk_paper k) = Some r \<and> mk_generation k \<le> cw_generation r
     \<and> (mk_generation k = cw_generation r \<longrightarrow> (\<forall>cs. mk_inputs k = Some cs \<longrightarrow> made_from (row_url r) cs)))"

definition makers_ok :: "world \<Rightarrow> bool" where
  "makers_ok w \<longleftrightarrow> (\<forall>m k. w_makers w m = Some k \<longrightarrow> maker_ok (w_db w) k)"

definition publisher_ok :: "world \<Rightarrow> bool" where
  "publisher_ok w \<longleftrightarrow> (\<forall>d old. w_publisher w = Some (d, old) \<longrightarrow>
     (\<exists>dl. w_downloads w d = Some dl \<and> w_files w (dl_paper dl) = Some \<lparr>sp_url = or_none (Some (dl_url dl)), sp_chunks = dl_chunks dl\<rparr>))"

definition content_ok :: "world \<Rightarrow> bool" where
  "content_ok w \<longleftrightarrow> tables_ok (w_db w) \<and> files_ok w \<and> runs_ok w \<and> makers_ok w \<and> publisher_ok w"



subsection \<open>Tables that move\<close>

text \<open>What every change of the tables does to a row.\<close>

definition row_moves :: "content_row \<Rightarrow> content_row \<Rightarrow> bool" where
  "row_moves r r' \<longleftrightarrow> cw_generation r \<le> cw_generation r'
     \<and> (cw_generation r' = cw_generation r \<longrightarrow> or_none (row_url r') = or_none (row_url r))
     \<and> (cw_local r' \<noteq> None \<longrightarrow> cw_local r' = cw_local r \<and> or_none (row_url r') = or_none (row_url r))"

definition tables_move :: "content_db \<Rightarrow> content_db \<Rightarrow> bool" where
  "tables_move db db' \<longleftrightarrow> (\<forall>i r. cd_papers db i = Some r \<longrightarrow> (\<exists>r'. cd_papers db' i = Some r' \<and> row_moves r r'))
     \<and> (\<forall>i r'. cd_papers db i = None \<and> cd_papers db' i = Some r' \<longrightarrow> cw_local r' = None)"

lemma row_moves_refl [simp]: "row_moves r r"
  by (simp add: row_moves_def)




lemma settled_db [simp]: "settled_file (w\<lparr>w_db := db\<rparr>) = settled_file w"
  by (auto simp: settled_file_def fun_eq_iff split: option.split)

lemma file_ok_db [simp]: "file_ok (w\<lparr>w_db := db\<rparr>) = file_ok w"
  by (simp add: file_ok_def fun_eq_iff)







section \<open>The operations on the tables\<close>

lemma tables_okD:
  assumes "tables_ok db"
  shows "cd_ids db e = Some i \<Longrightarrow> \<exists>r. cd_papers db i = Some r \<and> cw_ext r = e"
    and "cd_next db \<le> i \<Longrightarrow> cd_papers db i = None"
    and "cd_papers db i = None \<Longrightarrow> cd_chunks db i = [] \<and> cd_summaries db (i, u) = None"
    and "cd_papers db i = Some r \<Longrightarrow> row_ok db i r"
proof -
  have "case cd_papers db i of None \<Rightarrow> cd_chunks db i = [] \<and> (\<forall>u. cd_summaries db (i, u) = None) | Some r \<Rightarrow> row_ok db i r"
    using assms unfolding tables_ok_def by blast
  then show "cd_papers db i = None \<Longrightarrow> cd_chunks db i = [] \<and> cd_summaries db (i, u) = None"
    and "cd_papers db i = Some r \<Longrightarrow> row_ok db i r"
    by auto
qed (use assms in \<open>unfold tables_ok_def, blast\<close>)+

lemma tables_okI:
  assumes "\<And>e i. cd_ids db e = Some i \<Longrightarrow> \<exists>r. cd_papers db i = Some r \<and> cw_ext r = e"
    and "\<And>i. cd_next db \<le> i \<Longrightarrow> cd_papers db i = None"
    and "\<And>i u. cd_papers db i = None \<Longrightarrow> cd_chunks db i = [] \<and> cd_summaries db (i, u) = None"
    and "\<And>i r. cd_papers db i = Some r \<Longrightarrow> row_ok db i r"
  shows "tables_ok db"
  using assms unfolding tables_ok_def by (auto split: option.split)

text \<open>A row and its chunks are replaced.\<close>

definition put_row :: "int \<Rightarrow> content_row \<Rightarrow> (nat \<times> chunk_row) list \<Rightarrow> content_db \<Rightarrow> content_db" where
  "put_row i r cs db = db\<lparr>cd_papers := (cd_papers db)(i \<mapsto> r), cd_chunks := (cd_chunks db)(i := cs)\<rparr>"

lemma put_paper_simps [simp]:
  "cd_papers (put_row i r cs db) = (cd_papers db)(i \<mapsto> r)" "cd_chunks (put_row i r cs db) = (cd_chunks db)(i := cs)"
  "cd_ids (put_row i r cs db) = cd_ids db" "cd_next (put_row i r cs db) = cd_next db"
  "cd_summaries (put_row i r cs db) = cd_summaries db" "cd_library (put_row i r cs db) = cd_library db"
  by (simp_all add: put_row_def)


lemma update_row_put: "cd_papers db i = Some r \<Longrightarrow> update_row i f db = put_row i (f r) (cd_chunks db i) db"
  by (simp add: update_row_def put_row_def)




lemma tables_ok_insert:
  assumes "tables_ok db" and "cd_ids db (cw_ext r) = None" and "cd_papers db' = (cd_papers db)(cd_next db \<mapsto> r)"
    and "cd_ids db' = (cd_ids db)(cw_ext r \<mapsto> cd_next db)" and "cd_next db' = cd_next db + 1"
    and "cd_chunks db' = cd_chunks db" and "cd_summaries db' = cd_summaries db"
  shows "tables_ok db'"
proof -
  have new: "cd_papers db (cd_next db) = None" using tables_okD(2) [OF assms(1), of "cd_next db"] by simp
  show ?thesis
  proof (rule tables_okI)
    fix e i assume "cd_ids db' e = Some i"
    then show "\<exists>s. cd_papers db' i = Some s \<and> cw_ext s = e"
      using tables_okD(1) [OF assms(1), of e i] assms(3,4) new by (cases "e = cw_ext r") (auto split: if_splits)
  next
    fix i assume "cd_next db' \<le> i" then show "cd_papers db' i = None"
      using tables_okD(2) [OF assms(1), of i] assms(3,5) by simp
  next
    fix i u assume "cd_papers db' i = None" then show "cd_chunks db' i = [] \<and> cd_summaries db' (i, u) = None"
      using tables_okD(3) [OF assms(1), of i u] assms(3,6,7) by (simp split: if_splits)
  next
    fix i s assume s: "cd_papers db' i = Some s"
    show "row_ok db' i s"
    proof (cases "i = cd_next db")
      case True
      then have "cd_chunks db' i = []" "\<And>u. cd_summaries db' (i, u) = None"
        using tables_okD(3) [OF assms(1) new] assms(6,7) by simp_all
      then show ?thesis by (simp add: row_ok_def made_from_def)
    next
      case False
      then have "row_ok db i s" using s tables_okD(4) [OF assms(1)] assms(3) by simp
      then show ?thesis using assms(6,7) by (simp add: row_ok_def)
    qed
  qed
qed

lemma tables_ok_next: "tables_ok db \<Longrightarrow> tables_ok (db\<lparr>cd_next := cd_next db + 1\<rparr>)"
  using tables_okD(2) [of db]
  by (intro tables_okI) (auto dest: tables_okD simp: row_ok_def)

lemma tables_move_insert:
  "cd_papers db i = None \<Longrightarrow> cd_papers db' = (cd_papers db)(i \<mapsto> r) \<Longrightarrow> cw_local r = None \<Longrightarrow> tables_move db db'"
  by (auto simp: tables_move_def)

lemma tables_move_same: "cd_papers db' = cd_papers db \<Longrightarrow> tables_move db db'"
  by (auto simp: tables_move_def)

text \<open>The three outcomes of the shared upsert.\<close>

lemma run_paper_upsert_cases:
  assumes "tables_ok db" and "run_paper_upsert policy db p by public = (i, is_insert, db')"
  obtains (insert) "cd_ids db (pi_ext p) = None" "is_insert" "i = cd_next db"
      "db' = db\<lparr>cd_next := cd_next db + 1, cd_papers := (cd_papers db)(cd_next db \<mapsto> new_row p by public),
         cd_ids := (cd_ids db)(pi_ext p \<mapsto> cd_next db)\<rparr>"
  | (attach) "cd_ids db (pi_ext p) = Some i" "\<not> is_insert" "policy = Attach_only" "db' = db\<lparr>cd_next := cd_next db + 1\<rparr>"
  | (refresh) r where "cd_ids db (pi_ext p) = Some i" "\<not> is_insert" "policy = Trusted_refresh" "cd_papers db i = Some r" "cw_ext r = pi_ext p"
      "db' = put_row i (r\<lparr>cw_desc := pi_desc p, cw_public := True\<rparr>) (cd_chunks db i) (db\<lparr>cd_next := cd_next db + 1\<rparr>)"
proof (cases "cd_ids db (pi_ext p)")
  case None
  then have "is_insert" "i = cd_next db" "db' = db\<lparr>cd_next := cd_next db + 1,
      cd_papers := (cd_papers db)(cd_next db \<mapsto> new_row p by public), cd_ids := (cd_ids db)(pi_ext p \<mapsto> cd_next db)\<rparr>"
    using assms(2) by (auto simp: run_paper_upsert_def Let_def)
  then show thesis using insert None by blast
next
  case (Some j)
  then obtain r where r: "cd_papers db j = Some r" "cw_ext r = pi_ext p" using tables_okD(1) [OF assms(1)] by blast
  show thesis
  proof (cases policy)
    case Attach_only
    then have "i = j" "\<not> is_insert" "db' = db\<lparr>cd_next := cd_next db + 1\<rparr>"
      using assms(2) Some by (auto simp: run_paper_upsert_def Let_def)
    then show thesis using attach Some Attach_only by blast
  next
    case Trusted_refresh
    then have "i = j" "\<not> is_insert" "db' = put_row j (r\<lparr>cw_desc := pi_desc p, cw_public := True\<rparr>) (cd_chunks db j) (db\<lparr>cd_next := cd_next db + 1\<rparr>)"
      using assms(2) Some r by (auto simp: run_paper_upsert_def Let_def update_row_put)
    then show thesis using refresh Some r Trusted_refresh by blast
  qed
qed

lemma upsert_paper_ok:
  assumes ok: "tables_ok db" and up: "upsert_paper db p by = (i, is_insert, db')"
  shows "tables_ok db' \<and> tables_move db db' \<and> (\<forall>j r r'. cd_papers db j = Some r \<and> cd_papers db' j = Some r' \<longrightarrow> r' = r)"
  using ok up [unfolded upsert_paper_def]
proof (cases rule: run_paper_upsert_cases)
  case insert
  have "tables_ok db'" by (rule tables_ok_insert [OF ok, of "new_row p by False"]) (use insert in \<open>simp_all add: new_row_def\<close>)
  moreover have new: "cd_papers db (cd_next db) = None" using tables_okD(2) [OF ok, of "cd_next db"] by simp
  then have "tables_move db db'" by (rule tables_move_insert [where r = "new_row p by False"]) (simp_all add: insert(4) new_row_def)
  ultimately show ?thesis using insert(4) new by (auto split: if_splits)
next
  case attach
  then show ?thesis using tables_ok_next [OF ok] tables_move_same [of db' db] by auto
qed simp









section \<open>Every step keeps the invariant\<close>

lemma content_okD:
  assumes "content_ok w"
  shows "tables_ok (w_db w)" "files_ok w" "runs_ok w" "makers_ok w" "publisher_ok w"
  using assms unfolding content_ok_def by blast+












lemma attach_reader_simps [simp]:
  "cd_papers (attach_reader by i db) = cd_papers db" "cd_ids (attach_reader by i db) = cd_ids db"
  "cd_next (attach_reader by i db) = cd_next db" "cd_chunks (attach_reader by i db) = cd_chunks db"
  "cd_summaries (attach_reader by i db) = cd_summaries db"
  by (simp_all add: attach_reader_def split: option.split)



text \<open>Ending a run, or moving it to a phase about which nothing is claimed.\<close>

lemma settled_runs [simp]:
  "settled_file (w\<lparr>w_runs := rs\<rparr>) = settled_file w" "settled_file (w\<lparr>w_mutex := m\<rparr>) = settled_file w"
  "settled_file (w\<lparr>w_makers := k\<rparr>) = settled_file w"
  by (auto simp: settled_file_def fun_eq_iff split: option.split)


















lemma empty_world_ok: "content_ok empty_world"
  by (simp add: content_ok_def empty_world_def tables_ok_def files_ok_def runs_ok_def makers_ok_def publisher_ok_def)


section \<open>Both conditions are needed\<close>

definition sample_input :: "string \<Rightarrow> paper_input" where
  "sample_input url = \<lparr>pi_ext = ''a'', pi_desc = \<lparr>dv_source = ''arxiv'', dv_title = ''t'', dv_authors = [], dv_abstract = None,
     dv_published = None, dv_url = ''u'', dv_pdf_url = Some url, dv_citations = 0, dv_metadata = []\<rparr>, pi_origin = ''pulse''\<rparr>"



text \<open>A promotion lands between the check of a reconciliation and its mark.\<close>

definition marked_after_promotion :: "content_event list" where
  "marked_after_promotion = [Promote (sample_input ''x'') None, Stage 0 1 ''x'' [''old''], Publish 0, Publish_end 0,
     Run_begin 5 1 1 False None, Run_pointer 5, Run_count 5, Run_extract 5, Run_commit 5,
     Run_begin 6 1 1 False None, Run_pointer 6, Run_count 6, Reconcile_read 6, Reconcile_check 6,
     Promote (sample_input ''y'') None, Reconcile_mark 6, Reclaim 1]"

lemmas content_eval = perform_def step_run_def promote_step_def promotion_prior_def promotion_supersedes_def upsert_verified_public_paper_def
  run_paper_upsert_def discard_derived_def update_row_def row_url_def or_none_def new_row_def verified_public_source_types_def
  stage_download_def promote_file_def finish_publication_def publish_pointer_def begin_run_def check_pointer_def count_chunks_def set_phase_def
  settle_def end_run_def persist_processed_pdf_def persist_chunk_rows_def source_unchanged_def chunk_rows_of_def reclaim_files_def
  content_is_discarded_def empty_world_def sample_input_def


text \<open>
  A reconciliation can mark an emptied paper as processed. Its check of the chunks and its mark are
  separate statements that lock no row; if a promotion commits between them, the paper has
  neither chunks nor a document but carries the mark of a processed one, and the reclaiming that
  follows the promotion takes the mark for new content and leaves the superseded file in place.
\<close>

lemma reconcile_marks_emptied_paper:
  "\<exists>w r. execute empty_world marked_after_promotion = Some w \<and> cd_papers (w_db w) 1 = Some r \<and> row_url r = Some ''y''
      \<and> cw_chunked r \<and> cd_chunks (w_db w) 1 = [] \<and> cw_local r = None
      \<and> w_files w 1 = Some \<lparr>sp_url = Some ''x'', sp_chunks = [''old'']\<rparr>"
  by (simp add: marked_after_promotion_def content_eval)

section \<open>Saves, promotions and runs\<close>

text \<open>
  Saving never changes a paper that is there. The save of a client inserts a private row with the
  client's data or, for a known external id, returns the stored row untouched, whatever the
  client sent; chunks, summaries, libraries and all other papers stay as they are in both cases.
\<close>

lemma save_is_attach_only:
  assumes "tables_ok db" and "upsert_paper db p by = (i, is_insert, db')"
  shows "is_insert = (cd_ids db (pi_ext p) = None)
    \<and> cd_papers db' = (if is_insert then (cd_papers db)(i \<mapsto> new_row p by False) else cd_papers db)
    \<and> (is_insert \<longrightarrow> cd_papers db i = None) \<and> (\<not> is_insert \<longrightarrow> cd_ids db (pi_ext p) = Some i)
    \<and> cd_chunks db' = cd_chunks db \<and> cd_summaries db' = cd_summaries db \<and> cd_library db' = cd_library db"
  using assms(1) assms(2) [unfolded upsert_paper_def]
proof (cases rule: run_paper_upsert_cases)
  case insert
  then show ?thesis using tables_okD(2) [OF assms(1), of "cd_next db"] by simp
qed simp_all

text \<open>
  A promotion re-owns what an adapter describes and discards what was derived from another source.
  It needs a verified source; the row becomes public and takes every descriptive column, while
  its audit columns stay; exactly if an existing row's URL changes, chunks, pointer and mark go and the
  generation advances, so that no summary of the paper is current any more; otherwise the derived
  content stays. No other paper, no summary and no library changes.
\<close>

lemma promotion_effect:
  assumes "tables_ok db" and "upsert_verified_public_paper (promotion_prior db p) db p by = Inr (i, is_insert, discarded, db')"
  shows "dv_source (pi_desc p) \<in> set verified_public_source_types \<and> is_insert = (cd_ids db (pi_ext p) = None)
    \<and> (\<exists>r'. cd_papers db' i = Some r' \<and> cw_ext r' = pi_ext p \<and> cw_desc r' = pi_desc p \<and> cw_public r'
        \<and> (case cd_ids db (pi_ext p) of
             None \<Rightarrow> r' = new_row p by True \<and> discarded = None
           | Some j \<Rightarrow> j = i \<and> (\<exists>r. cd_papers db i = Some r \<and> cw_origin r' = cw_origin r \<and> cw_discovered r' = cw_discovered r
                \<and> (if or_none (row_url r) = or_none (dv_pdf_url (pi_desc p))
                   then discarded = None \<and> cd_chunks db' = cd_chunks db \<and> cw_local r' = cw_local r
                      \<and> cw_chunked r' = cw_chunked r \<and> cw_generation r' = cw_generation r
                   else discarded = Some i \<and> cd_chunks db' i = [] \<and> cw_local r' = None \<and> \<not> cw_downloaded r' \<and> \<not> cw_chunked r'
                      \<and> cw_generation r' = Suc (cw_generation r) \<and> (\<forall>u. current_summary db' i u = None)))))
    \<and> (\<forall>j. j \<noteq> i \<longrightarrow> cd_papers db' j = cd_papers db j \<and> cd_chunks db' j = cd_chunks db j)
    \<and> cd_summaries db' = cd_summaries db \<and> cd_library db' = cd_library db"
proof -
  obtain j ins db1 where u: "run_paper_upsert Trusted_refresh db p by True = (j, ins, db1)" by (metis prod_cases3)
  have src: "dv_source (pi_desc p) \<in> set verified_public_source_types"
    using assms(2) by (auto simp: upsert_verified_public_paper_def split: if_splits)
  note res = assms(2) [unfolded upsert_verified_public_paper_def Let_def u prod.case]
  show ?thesis
    using assms(1) u
  proof (cases rule: run_paper_upsert_cases)
    case insert
    then have "db' = db1" "i = j" "is_insert" "discarded = None" using res by (auto simp: promotion_supersedes_def split: if_splits)
    then show ?thesis using insert src tables_okD(3) [OF assms(1) tables_okD(2) [OF assms(1), of "cd_next db"]]
      by (simp add: new_row_def)
  next
    case (refresh r)
    have prior: "promotion_prior db p = Some (j, row_url r)" using refresh by (simp add: promotion_prior_def)
    have stale: "current_summary db' i u = None" if "cw_generation s' = Suc (cw_generation r)" "cd_papers db' i = Some s'" "i = j"
        "cd_summaries db' = cd_summaries db" for s' u
    proof -
      have "sm_generation s \<le> cw_generation r" if "cd_summaries db (j, u) = Some s" for s
        using tables_okD(4) [OF assms(1) refresh(4)] that unfolding row_ok_def by blast
      then show ?thesis using that by (fastforce simp: current_summary_def split: option.split)
    qed
    show ?thesis
    proof (cases "or_none (row_url r) = or_none (dv_pdf_url (pi_desc p))")
      case True
      then have "db' = db1" "i = j" "\<not> is_insert" "discarded = None"
        using res refresh(2) src prior by (auto simp: promotion_supersedes_def split: if_splits)
      then show ?thesis using refresh src True by auto
    next
      case False
      then have "db' = discard_derived j db1" "i = j" "\<not> is_insert" "discarded = Some i"
        using res refresh(2) src prior by (auto simp: promotion_supersedes_def split: if_splits)
      then show ?thesis using refresh src False stale by (simp add: discard_derived_def update_row_def)
    qed
  qed simp
qed




section \<open>Samples\<close>






definition sample_tables :: content_db where
  "sample_tables = snd (snd (upsert_paper (w_db empty_world) (sample_input ''x'') (Some 3)))"

lemma sample_tables_ok: "tables_ok sample_tables"
proof -
  obtain i ins db where u: "upsert_paper (w_db empty_world) (sample_input ''x'') (Some 3) = (i, ins, db)" by (metis prod_cases3)
  then show ?thesis using upsert_paper_ok [OF content_okD(1) [OF empty_world_ok] u] by (simp add: sample_tables_def)
qed


end
