(* ===== verification/Erasure_Store.thy ===== *)
theory Erasure_Store
  imports Prelude
begin

text \<open>
  The database side of account erasure: the tables of the Platform schema that it touches and the
  capabilities (SQL functions in \<open>db/init.sql\<close>) through which the services change them. A capability
  runs in one transaction under row locks, so it is one step; one that raises changes nothing. Times
  are seconds. The components that call the capabilities are in Erasure\_Coordinator.
\<close>

section \<open>Tables\<close>

datatype erasure_state = Requested | Qdrant_Pending | Research_Pending | Learning_Pending | Ready
  | Executing | Complete | Retry_Wait | Attention_Required

datatype erasure_domain = Qdrant | Research | Learning

datatype db_role = Platform_Runtime | Erasure_Executor | Other_Role

datatype account_role = User_Role | Admin_Role

record account =
  ac_id :: int
  ac_email :: pystr
  ac_role :: account_role
  ac_deleted :: "int option"

record erasure_request =
  er_id :: nat
  er_user :: int
  er_state :: erasure_state
  er_attempts :: nat
  er_resume :: erasure_state
  er_error :: "string option"
  er_next :: int
  er_requested :: int
  er_eligible :: int
  er_completed :: "int option"

text \<open>Of the receipt of an acknowledgement only \<open>residual_points\<close> is read again.\<close>

type_synonym receipt = "int option"

record delivery =
  dl_scope :: int
  dl_actor :: "int option"
  dl_failed :: bool
  dl_attempts :: nat

record session =
  se_id :: nat
  se_user :: int
  se_expires :: int
  se_revoked :: "int option"
  se_credential :: "nat option"

text \<open>A job is its subject and whether it is active.\<close>

record platform_db =
  pf_users :: "account list"
  pf_sessions :: "session list"
  pf_requests :: "erasure_request list"
  pf_acks :: "nat \<times> erasure_domain \<Rightarrow> receipt option"
  pf_jobs :: "(int option \<times> bool) list"
  pf_deliveries :: "delivery list"
  pf_subjects :: "int list"
  pf_audit :: "(string \<times> int \<times> int option) list"
  pf_now :: int

datatype db_error = Not_Allowed | Request_Missing | Not_Disabled | Inside_Grace | Ack_Refused
  | Completion_Reserved | Graph_Refused | Not_Stranded | Superseded | Already_Started
  | Acks_Incomplete | Jobs_Active | Unique_Violation

definition grace :: int where
  "grace = 30 * 24 * 3600"

definition user_row :: "platform_db \<Rightarrow> int \<Rightarrow> account option" where
  "user_row s u = find (\<lambda>a. ac_id a = u) (pf_users s)"

definition request_row :: "platform_db \<Rightarrow> nat \<Rightarrow> erasure_request option" where
  "request_row s i = find (\<lambda>r. er_id r = i) (pf_requests s)"

text \<open>\<open>UPDATE erasure_requests SET f WHERE request_id = i AND P\<close>.\<close>

definition update_requests ::
  "nat \<Rightarrow> (erasure_request \<Rightarrow> bool) \<Rightarrow> (erasure_request \<Rightarrow> erasure_request) \<Rightarrow> platform_db \<Rightarrow> platform_db" where
  "update_requests i P f s =
     s\<lparr>pf_requests := map (\<lambda>r. if er_id r = i \<and> P r then f r else r) (pf_requests s)\<rparr>"

text \<open>The partial unique index: an account has at most one request that is neither complete nor stranded.\<close>

definition active_request :: "erasure_request \<Rightarrow> bool" where
  "active_request r \<longleftrightarrow> er_state r \<noteq> Complete \<and> er_state r \<noteq> Attention_Required"

definition one_active :: "platform_db \<Rightarrow> bool" where
  "one_active s \<longleftrightarrow> distinct (map er_user (filter active_request (pf_requests s)))"

section \<open>Capabilities\<close>

definition request_erasure_v1 ::
  "db_role \<Rightarrow> int \<Rightarrow> nat \<Rightarrow> platform_db \<Rightarrow> db_error + (nat option \<times> platform_db)" where
  "request_erasure_v1 caller u fresh s =
     (if caller \<noteq> Platform_Runtime then Inl Not_Allowed
      else case py_sort_desc er_requested (filter (\<lambda>r. er_user r = u \<and> active_request r) (pf_requests s)) of
        r # _ \<Rightarrow> Inr (Some (er_id r), s)
      | [] \<Rightarrow>
          (case user_row s u of
             None \<Rightarrow> Inr (None, s)
           | Some a \<Rightarrow>
               (case ac_deleted a of
                  None \<Rightarrow> Inr (None, s)
                | Some d \<Rightarrow>
                    if request_row s fresh \<noteq> None then Inl Unique_Violation
                    else Inr (Some fresh, s\<lparr>pf_requests := pf_requests s @
                      [\<lparr>er_id = fresh, er_user = u, er_state = Requested, er_attempts = 0,
                        er_resume = Qdrant_Pending, er_error = None, er_next = pf_now s,
                        er_requested = pf_now s, er_eligible = d + grace, er_completed = None\<rparr>]\<rparr>))))"

definition begin_erasure_destructive_v1 ::
  "db_role \<Rightarrow> nat \<Rightarrow> platform_db \<Rightarrow> db_error + (erasure_request \<times> platform_db)" where
  "begin_erasure_destructive_v1 caller i s =
     (if caller \<noteq> Platform_Runtime then Inl Not_Allowed
      else case request_row s i of
        None \<Rightarrow> Inl Request_Missing
      | Some r \<Rightarrow>
          (case Option.bind (user_row s (er_user r)) ac_deleted of
             None \<Rightarrow> Inl Not_Disabled
           | Some d \<Rightarrow>
               if er_state r = Requested then
                 (if \<not> (er_eligible r \<le> pf_now s \<and> d + grace \<le> pf_now s) then Inl Inside_Grace
                  else Inr (r\<lparr>er_state := Qdrant_Pending\<rparr>,
                    update_requests i (\<lambda>r. er_state r = Requested) (\<lambda>r. r\<lparr>er_state := Qdrant_Pending\<rparr>) s))
               else Inr (r, s)))"

fun phase_position :: "erasure_state \<Rightarrow> nat" where
  "phase_position Qdrant_Pending = 1"
| "phase_position Research_Pending = 2"
| "phase_position Learning_Pending = 3"
| "phase_position Ready = 4"
| "phase_position Executing = 5"
| "phase_position _ = 0"

fun pending_state :: "erasure_domain \<Rightarrow> erasure_state" where
  "pending_state Qdrant = Qdrant_Pending"
| "pending_state Research = Research_Pending"
| "pending_state Learning = Learning_Pending"

definition reached_phase :: "erasure_request \<Rightarrow> erasure_state" where
  "reached_phase r = (if er_state r \<in> {Retry_Wait, Attention_Required} then er_resume r else er_state r)"

definition record_erasure_ack_v1 ::
  "db_role \<Rightarrow> nat \<Rightarrow> erasure_domain \<Rightarrow> receipt \<Rightarrow> platform_db \<Rightarrow> db_error + platform_db" where
  "record_erasure_ack_v1 caller i d rc s =
     (if caller \<noteq> Platform_Runtime then Inl Not_Allowed
      else
        let reached = (case find (\<lambda>r. er_id r = i \<and> er_state r \<noteq> Complete) (pf_requests s) of
                         None \<Rightarrow> 0 | Some r \<Rightarrow> phase_position (reached_phase r))
        in if reached < phase_position (pending_state d) then Inl Ack_Refused
           else Inr (s\<lparr>pf_acks := (pf_acks s)((i, d) \<mapsto> rc)\<rparr>))"

definition transition_edges :: "(erasure_state \<times> erasure_state) list" where
  "transition_edges =
     [(Requested, Qdrant_Pending),
      (Qdrant_Pending, Research_Pending), (Qdrant_Pending, Retry_Wait), (Qdrant_Pending, Attention_Required),
      (Research_Pending, Learning_Pending), (Research_Pending, Retry_Wait), (Research_Pending, Attention_Required),
      (Learning_Pending, Ready), (Learning_Pending, Retry_Wait), (Learning_Pending, Attention_Required),
      (Ready, Executing), (Executing, Retry_Wait), (Executing, Attention_Required),
      (Retry_Wait, Qdrant_Pending), (Retry_Wait, Research_Pending), (Retry_Wait, Learning_Pending),
      (Retry_Wait, Attention_Required), (Attention_Required, Qdrant_Pending),
      (Attention_Required, Research_Pending), (Attention_Required, Learning_Pending)]"

definition erasure_transition_allowed_v1 :: "erasure_state \<Rightarrow> erasure_state \<Rightarrow> bool" where
  "erasure_transition_allowed_v1 source target \<longleftrightarrow> (source, target) \<in> set transition_edges"

text \<open>\<open>UPDATE ... RETURNING state\<close>: \<open>None\<close> when no row matched; the unique index may refuse the new rows.\<close>

definition returning_state ::
  "nat \<Rightarrow> (erasure_request \<Rightarrow> bool) \<Rightarrow> (erasure_request \<Rightarrow> erasure_request) \<Rightarrow> platform_db
    \<Rightarrow> db_error + (erasure_state option \<times> platform_db)" where
  "returning_state i P f s =
     (case find (\<lambda>r. er_id r = i \<and> P r) (pf_requests s) of
        None \<Rightarrow> Inr (None, s)
      | Some r \<Rightarrow>
          (let s' = update_requests i P f s
           in if one_active s' then Inr (Some (er_state (f r)), s') else Inl Unique_Violation))"

definition transition_erasure_v1 ::
  "db_role \<Rightarrow> nat \<Rightarrow> erasure_state \<Rightarrow> erasure_state \<Rightarrow> platform_db
    \<Rightarrow> db_error + (erasure_state option \<times> platform_db)" where
  "transition_erasure_v1 caller i target expected s =
     (if caller \<noteq> Platform_Runtime then Inl Not_Allowed
      else if target = Complete then Inl Completion_Reserved
      else if \<not> erasure_transition_allowed_v1 expected target then Inl Graph_Refused
      else returning_state i (\<lambda>r. er_state r = expected)
             (\<lambda>r. r\<lparr>er_state := target,
                    er_error := (if target = Attention_Required then er_error r else None),
                    er_next := (if target = Retry_Wait then er_next r else pf_now s)\<rparr>) s)"

definition record_erasure_retry_v1 ::
  "db_role \<Rightarrow> nat \<Rightarrow> erasure_state \<Rightarrow> platform_db \<Rightarrow> db_error + (erasure_state option \<times> platform_db)" where
  "record_erasure_retry_v1 caller i resume s =
     (if caller \<noteq> Platform_Runtime \<or> resume \<notin> {Qdrant_Pending, Research_Pending, Learning_Pending}
      then Inl Not_Allowed
      else returning_state i (\<lambda>r. er_state r = resume \<and> er_attempts r < 8)
             (\<lambda>r. r\<lparr>er_state := (if er_attempts r + 1 \<ge> 8 then Attention_Required else Retry_Wait),
                    er_attempts := er_attempts r + 1, er_resume := resume,
                    er_error := Some ''owner command unavailable'',
                    er_next := pf_now s + min 3600 (2 ^ er_attempts r * 30)\<rparr>) s)"

definition resume_erasure_v1 ::
  "db_role \<Rightarrow> nat \<Rightarrow> platform_db \<Rightarrow> db_error + (erasure_state option \<times> platform_db)" where
  "resume_erasure_v1 caller i s =
     (if caller \<noteq> Platform_Runtime then Inl Not_Allowed
      else case request_row s i of
        None \<Rightarrow> Inl Request_Missing
      | Some r \<Rightarrow>
          if er_state r \<noteq> Attention_Required then Inl Not_Stranded
          else if \<not> erasure_transition_allowed_v1 (er_state r) (er_resume r) then Inl Graph_Refused
          else if list_ex (\<lambda>n. er_user n = er_user r \<and> er_id n \<noteq> i \<and> active_request n) (pf_requests s)
          then Inl Superseded
          else (case Option.bind (user_row s (er_user r)) ac_deleted of
                  None \<Rightarrow> Inl Not_Disabled
                | Some d \<Rightarrow>
                    returning_state i (\<lambda>r. er_state r = Attention_Required)
                      (\<lambda>r. r\<lparr>er_state := er_resume r, er_attempts := 0, er_error := None, er_next := pf_now s\<rparr>) s))"

definition set_account_deleted_v1 :: "db_role \<Rightarrow> int \<Rightarrow> platform_db \<Rightarrow> db_error + (bool \<times> platform_db)" where
  "set_account_deleted_v1 caller u s =
     (if caller \<noteq> Platform_Runtime then Inl Not_Allowed
      else Inr (list_ex (\<lambda>a. ac_id a = u \<and> ac_deleted a = None) (pf_users s),
                s\<lparr>pf_users := map (\<lambda>a. if ac_id a = u \<and> ac_deleted a = None
                                       then a\<lparr>ac_deleted := Some (pf_now s)\<rparr> else a) (pf_users s)\<rparr>))"

text \<open>Acknowledgements go with their request (\<open>ON DELETE CASCADE\<close>).\<close>

definition delete_requests :: "(erasure_request \<Rightarrow> bool) \<Rightarrow> platform_db \<Rightarrow> platform_db" where
  "delete_requests P s =
     s\<lparr>pf_requests := filter (\<lambda>r. \<not> P r) (pf_requests s),
       pf_acks := (\<lambda>(i, d). if list_ex (\<lambda>r. er_id r = i \<and> P r) (pf_requests s) then None else pf_acks s (i, d))\<rparr>"

definition restore_account_v1 :: "db_role \<Rightarrow> int \<Rightarrow> platform_db \<Rightarrow> db_error + (account option \<times> platform_db)" where
  "restore_account_v1 caller u s =
     (if caller \<noteq> Platform_Runtime then Inl Not_Allowed
      else if list_ex (\<lambda>r. er_user r = u \<and> er_state r \<notin> {Complete, Requested}) (pf_requests s)
      then Inl Already_Started
      else
        let s1 = delete_requests (\<lambda>r. er_user r = u \<and> er_state r \<noteq> Complete) s;
            hit = (\<lambda>a. ac_id a = u \<and> (case ac_deleted a of None \<Rightarrow> False | Some d \<Rightarrow> d \<ge> pf_now s - grace))
        in Inr (map_option (\<lambda>a. a\<lparr>ac_deleted := None\<rparr>) (find hit (pf_users s1)),
                s1\<lparr>pf_users := map (\<lambda>a. if hit a then a\<lparr>ac_deleted := None\<rparr> else a) (pf_users s1)\<rparr>))"

definition grace_over :: "platform_db \<Rightarrow> erasure_request \<Rightarrow> bool" where
  "grace_over s r \<longleftrightarrow> er_eligible r \<le> pf_now s \<and>
     (case Option.bind (user_row s (er_user r)) ac_deleted of None \<Rightarrow> False | Some d \<Rightarrow> d + grace \<le> pf_now s)"

definition due_erasure_request_ids :: "db_role \<Rightarrow> nat \<Rightarrow> platform_db \<Rightarrow> db_error + nat list" where
  "due_erasure_request_ids caller limit s =
     (if caller \<noteq> Erasure_Executor \<or> limit < 1 \<or> limit > 100 then Inl Not_Allowed
      else Inr (take limit (map er_id (sort_key er_eligible (sort_key er_id
             (filter (\<lambda>r. er_state r = Ready \<and> grace_over s r) (pf_requests s)))))))"

definition redact_erased_user_jobs_v1 :: "db_role \<Rightarrow> int \<Rightarrow> platform_db \<Rightarrow> db_error + platform_db" where
  "redact_erased_user_jobs_v1 caller u s =
     (if caller \<noteq> Erasure_Executor \<or> u \<le> 0 then Inl Not_Allowed
      else if list_ex (\<lambda>(subject, running). subject = Some u \<and> running) (pf_jobs s) then Inl Jobs_Active
      else Inr (s\<lparr>pf_jobs := map (\<lambda>(subject, running). (if subject = Some u then None else subject, running)) (pf_jobs s)\<rparr>))"

definition acks_complete :: "platform_db \<Rightarrow> nat \<Rightarrow> bool" where
  "acks_complete s i \<longleftrightarrow> pf_acks s (i, Research) \<noteq> None \<and> pf_acks s (i, Learning) \<noteq> None
     \<and> pf_acks s (i, Qdrant) = Some (Some 0)"

text \<open>The executor's transaction; the sessions of the account go with its row (\<open>ON DELETE CASCADE\<close>).\<close>

definition finalize_erasure :: "db_role \<Rightarrow> nat \<Rightarrow> platform_db \<Rightarrow> db_error + (bool \<times> platform_db)" where
  "finalize_erasure caller i s =
     (if caller \<noteq> Erasure_Executor then Inl Not_Allowed
      else case find (\<lambda>r. er_id r = i \<and> er_state r = Ready \<and> grace_over s r) (pf_requests s) of
        None \<Rightarrow> Inr (False, s)
      | Some r \<Rightarrow>
          let u = er_user r;
              s1 = update_requests i (\<lambda>r. er_state r = Ready) (\<lambda>r. r\<lparr>er_state := Executing\<rparr>) s
          in if \<not> acks_complete s1 i then Inl Acks_Incomplete
             else res_bind (redact_erased_user_jobs_v1 caller u s1) (\<lambda>s2.
               let s3 = s2\<lparr>pf_deliveries := map (\<lambda>d. if dl_actor d = Some u
                                then d\<lparr>dl_actor := None, dl_failed := True, dl_attempts := 8\<rparr> else d)
                              (filter (\<lambda>d. dl_scope d \<noteq> u) (pf_deliveries s2)),
                            pf_subjects := filter (\<lambda>v. v \<noteq> u) (pf_subjects s2)\<rparr>
               in if \<not> list_ex (\<lambda>a. ac_id a = u \<and> ac_deleted a \<noteq> None) (pf_users s3) then Inl Not_Disabled
                  else Inr (True, update_requests i (\<lambda>r. er_state r = Executing)
                              (\<lambda>r. r\<lparr>er_state := Complete, er_completed := Some (pf_now s)\<rparr>)
                              (s3\<lparr>pf_users := filter (\<lambda>a. \<not> (ac_id a = u \<and> ac_deleted a \<noteq> None)) (pf_users s3),
                                  pf_sessions := filter (\<lambda>x. se_user x \<noteq> u) (pf_sessions s3)\<rparr>))))"


section \<open>The invariant of the tables\<close>

text \<open>
  A finished request has its three receipts and was eligible when it finished, and its account is
  gone. Of any other request the account, if it still exists, is disabled, the request becomes
  eligible when the restore grace of the account ends and, if the flag \<open>g\<close> is set, it left the
  request phase after that.
\<close>

definition request_ok :: "bool \<Rightarrow> platform_db \<Rightarrow> erasure_request \<Rightarrow> bool" where
  "request_ok g s r \<longleftrightarrow>
     er_attempts r \<le> 8 \<and> er_resume r \<in> {Qdrant_Pending, Research_Pending, Learning_Pending} \<and>
     (if er_state r = Complete
      then acks_complete s (er_id r) \<and> (case er_completed r of None \<Rightarrow> False | Some c \<Rightarrow> er_eligible r \<le> c)
        \<and> er_user r \<notin> ac_id ` set (pf_users s)
      else \<forall>a \<in> set (pf_users s). ac_id a = er_user r \<longrightarrow>
             ac_deleted a = Some (er_eligible r - grace) \<and> (g \<longrightarrow> er_state r = Requested \<or> er_eligible r \<le> pf_now s))"

definition platform_ok :: "bool \<Rightarrow> platform_db \<Rightarrow> bool" where
  "platform_ok g s \<longleftrightarrow>
     distinct (map ac_id (pf_users s)) \<and> distinct (map er_id (pf_requests s)) \<and> one_active s \<and>
     (\<forall>i d. pf_acks s (i, d) \<noteq> None \<longrightarrow> i \<in> er_id ` set (pf_requests s)) \<and>
     (\<forall>r \<in> set (pf_requests s). request_ok g s r)"

lemma platform_okI:
  assumes "distinct (map ac_id (pf_users s))" "distinct (map er_id (pf_requests s))" "one_active s"
    and "\<And>i d v. pf_acks s (i, d) = Some v \<Longrightarrow> i \<in> er_id ` set (pf_requests s)"
    and "\<And>r. r \<in> set (pf_requests s) \<Longrightarrow> request_ok g s r"
  shows "platform_ok g s"
  using assms by (auto simp: platform_ok_def)

lemma platform_okD:
  assumes "platform_ok g s"
  shows "distinct (map ac_id (pf_users s))" "distinct (map er_id (pf_requests s))" "one_active s"
    "r \<in> set (pf_requests s) \<Longrightarrow> request_ok g s r"
    "pf_acks s (i, d) = Some v \<Longrightarrow> i \<in> er_id ` set (pf_requests s)"
  using assms by (auto simp: platform_ok_def)

lemma request_ok_cong:
  "pf_users s' = pf_users s \<Longrightarrow> pf_acks s' = pf_acks s \<Longrightarrow> pf_now s' = pf_now s \<Longrightarrow> request_ok g s' r = request_ok g s r"
  by (simp add: request_ok_def acks_complete_def)

lemma request_row_SomeD:
  assumes "request_row s i = Some r"
  shows "r \<in> set (pf_requests s)" "er_id r = i"
  using assms by (auto simp: request_row_def find_Some_iff)

lemma user_row_SomeD:
  assumes "user_row s u = Some a"
  shows "a \<in> set (pf_users s)" "ac_id a = u"
  using assms by (auto simp: user_row_def find_Some_iff)

lemma find_SomeD: "find P xs = Some x \<Longrightarrow> x \<in> set xs \<and> P x"
  by (auto simp: find_Some_iff)

lemma same_id:
  "distinct (map f xs) \<Longrightarrow> x \<in> set xs \<Longrightarrow> y \<in> set xs \<Longrightarrow> f x = f y \<Longrightarrow> x = y"
  by (auto simp: distinct_map dest: inj_onD)

lemma find_unique:
  assumes "distinct (map f xs)" "x \<in> set xs" "P x" "\<And>y. P y \<Longrightarrow> f y = f x"
  shows "find P xs = Some x"
proof (cases "find P xs")
  case None
  then show ?thesis using assms(2,3) by (auto simp: find_None_iff)
next
  case (Some y)
  then have y: "y \<in> set xs" "P y" by (simp_all add: find_SomeD)
  from y(2) have "f y = f x" by (rule assms(4))
  with y(1) have "y = x" using same_id [OF assms(1)] assms(2) by blast
  then show ?thesis using Some by simp
qed

lemma user_row_eq: "platform_ok g s \<Longrightarrow> a \<in> set (pf_users s) \<Longrightarrow> ac_id a = u \<Longrightarrow> user_row s u = Some a"
  unfolding user_row_def by (rule find_unique [of ac_id]) (auto dest: platform_okD)

lemma request_row_eq: "platform_ok g s \<Longrightarrow> r \<in> set (pf_requests s) \<Longrightarrow> er_id r = i \<Longrightarrow> request_row s i = Some r"
  unfolding request_row_def by (rule find_unique [of er_id]) (auto dest: platform_okD)

text \<open>An update of one request keeps the tables in order when it keeps that request in order.\<close>

lemma update_requests_simps [simp]:
  "pf_users (update_requests i P f s) = pf_users s" "pf_acks (update_requests i P f s) = pf_acks s"
  "pf_now (update_requests i P f s) = pf_now s" "pf_sessions (update_requests i P f s) = pf_sessions s"
  "pf_jobs (update_requests i P f s) = pf_jobs s" "pf_deliveries (update_requests i P f s) = pf_deliveries s"
  "pf_subjects (update_requests i P f s) = pf_subjects s" "pf_audit (update_requests i P f s) = pf_audit s"
  by (simp_all add: update_requests_def)

lemma map_update_id:
  assumes "\<And>r. g (f r) = g r"
  shows "map g (pf_requests (update_requests i P f s)) = map g (pf_requests s)"
  using assms by (simp add: update_requests_def)

lemma in_update_requestsE:
  assumes "r \<in> set (pf_requests (update_requests i P f s))"
  obtains x where "x \<in> set (pf_requests s)" "r = (if er_id x = i \<and> P x then f x else x)"
proof -
  have "r \<in> (\<lambda>x. if er_id x = i \<and> P x then f x else x) ` set (pf_requests s)"
    using assms by (simp add: update_requests_def)
  then show ?thesis using that by blast
qed

lemma update_requests_ok:
  assumes ok: "platform_ok g s" and act: "one_active (update_requests i P f s)"
    and keep: "\<And>r. er_id (f r) = er_id r"
    and new: "\<And>r. r \<in> set (pf_requests s) \<Longrightarrow> er_id r = i \<Longrightarrow> P r \<Longrightarrow> request_ok g s (f r)"
  shows "platform_ok g (update_requests i P f s)"
proof (rule platform_okI)
  let ?s = "update_requests i P f s"
  have ids: "map er_id (pf_requests ?s) = map er_id (pf_requests s)" by (simp add: map_update_id keep)
  show "distinct (map er_id (pf_requests ?s))" using ids platform_okD(2) [OF ok] by simp
  show "i' \<in> er_id ` set (pf_requests ?s)" if "pf_acks ?s (i', d) = Some v" for i' d v
    using that platform_okD(5) [OF ok] ids by (metis (no_types, lifting) image_set update_requests_simps(2))
  show "request_ok g ?s r" if "r \<in> set (pf_requests ?s)" for r
  proof -
    have "request_ok g ?s r = request_ok g s r" by (rule request_ok_cong) simp_all
    moreover from that obtain x where "x \<in> set (pf_requests s)" "r = (if er_id x = i \<and> P x then f x else x)"
      by (rule in_update_requestsE)
    ultimately show ?thesis using platform_okD(4) [OF ok, of x] new [of x] by (cases "er_id x = i \<and> P x") auto
  qed
qed (use ok act in \<open>simp_all add: platform_okD\<close>)

lemma active_users_update:
  assumes "\<And>r. er_user (f r) = er_user r" "\<And>r. P r \<Longrightarrow> active_request (f r) \<Longrightarrow> active_request r"
    and g_def: "g = (\<lambda>r. if er_id r = i \<and> P r then f r else r)"
  shows "set (map er_user (filter active_request (map g rs))) \<subseteq> set (map er_user (filter active_request rs))"
    "distinct (map er_user (filter active_request rs)) \<Longrightarrow> distinct (map er_user (filter active_request (map g rs)))"
proof -
  have g: "er_user (g r) = er_user r" "active_request (g r) \<Longrightarrow> active_request r" for r
    using assms(1,2) by (simp_all add: g_def split: if_splits)
  show sub: "set (map er_user (filter active_request (map g rs))) \<subseteq> set (map er_user (filter active_request rs))" for rs
    using g by auto
  show "distinct (map er_user (filter active_request rs)) \<Longrightarrow> distinct (map er_user (filter active_request (map g rs)))"
  proof (induction rs)
    case (Cons r rs)
    then show ?case using g [of r] sub [of rs] by (cases "active_request (g r)") (auto split: if_splits)
  qed simp
qed

lemma one_active_update:
  assumes "one_active s" "\<And>r. er_user (f r) = er_user r" "\<And>r. P r \<Longrightarrow> active_request (f r) \<Longrightarrow> active_request r"
  shows "one_active (update_requests i P f s)"
  using assms(1) active_users_update(2) [OF assms(2,3) refl] by (simp add: one_active_def update_requests_def)

lemma returning_stateE:
  assumes "returning_state i P f s = Inr (v, s')"
  obtains "v = None" "s' = s" "\<And>r. r \<in> set (pf_requests s) \<Longrightarrow> er_id r = i \<Longrightarrow> \<not> P r"
  | r where "r \<in> set (pf_requests s)" "er_id r = i" "P r" "v = Some (er_state (f r))"
      "s' = update_requests i P f s" "one_active s'"
proof (cases "find (\<lambda>r. er_id r = i \<and> P r) (pf_requests s)")
  case None
  then have "v = None" "s' = s" using assms by (simp_all add: returning_state_def)
  then show ?thesis by (rule that(1)) (use None in \<open>auto simp: find_None_iff\<close>)
next
  case (Some r)
  then have r: "r \<in> set (pf_requests s)" "er_id r = i" "P r" by (auto dest: find_SomeD)
  show ?thesis
    by (rule that(2) [OF r]) (use assms Some in \<open>simp_all add: returning_state_def Let_def split: if_splits\<close>)
qed

lemma returning_state_ok:
  assumes "platform_ok g s" "returning_state i P f s = Inr (v, s')" "\<And>r. er_id (f r) = er_id r"
    and "\<And>r. r \<in> set (pf_requests s) \<Longrightarrow> er_id r = i \<Longrightarrow> P r \<Longrightarrow> request_ok g s (f r)"
  shows "platform_ok g s'"
  using assms(2)
proof (rule returning_stateE)
  show "s' = s \<Longrightarrow> platform_ok g s'" using assms(1) by simp
  show "s' = update_requests i P f s \<Longrightarrow> one_active s' \<Longrightarrow> platform_ok g s'"
    using update_requests_ok [OF assms(1)] assms(3,4) by simp
qed


section \<open>Every capability keeps the tables in order\<close>

lemma request_erasure_cases:
  assumes e: "request_erasure_v1 c u fresh s = Inr (v, s')"
  defines "old \<equiv> py_sort_desc er_requested (filter (\<lambda>r. er_user r = u \<and> active_request r) (pf_requests s))"
  obtains "old \<noteq> []" "v = Some (er_id (hd old))" "s' = s"
  | "old = []" "Option.bind (user_row s u) ac_deleted = None" "v = None" "s' = s"
  | a d where "old = []" "user_row s u = Some a" "ac_deleted a = Some d" "request_row s fresh = None" "v = Some fresh"
      "s' = s\<lparr>pf_requests := pf_requests s @
         [\<lparr>er_id = fresh, er_user = u, er_state = Requested, er_attempts = 0, er_resume = Qdrant_Pending,
           er_error = None, er_next = pf_now s, er_requested = pf_now s, er_eligible = d + grace, er_completed = None\<rparr>]\<rparr>"
proof -
  have c: "c = Platform_Runtime" using e by (simp add: request_erasure_v1_def split: if_split_asm)
  show ?thesis
  proof (cases old)
    case (Cons r rs)
    then have "v = Some (er_id (hd old)) \<and> s' = s" using e c by (simp add: request_erasure_v1_def old_def)
    then show ?thesis using that(1) Cons by blast
  next
    case Nil
    show ?thesis
    proof (cases "Option.bind (user_row s u) ac_deleted")
      case None
      then have "v = None \<and> s' = s"
        using e c Nil by (cases "user_row s u") (simp_all add: request_erasure_v1_def old_def)
      then show ?thesis using that(2) Nil None by blast
    next
      case (Some d)
      then obtain a where a: "user_row s u = Some a" "ac_deleted a = Some d" by (cases "user_row s u") simp_all
      show ?thesis
        by (rule that(3) [OF Nil a]) (use e c Nil a in \<open>simp_all add: request_erasure_v1_def old_def split: if_split_asm\<close>)
    qed
  qed
qed

lemma request_erasure_ok:
  assumes ok: "platform_ok g s" and e: "request_erasure_v1 c u fresh s = Inr (v, s')"
  shows "platform_ok g s'"
  using e
proof (cases rule: request_erasure_cases)
  case (3 a d)
  let ?new = "\<lparr>er_id = fresh, er_user = u, er_state = Requested, er_attempts = 0,
    er_resume = Qdrant_Pending, er_error = None, er_next = pf_now s, er_requested = pf_now s,
    er_eligible = d + grace, er_completed = None\<rparr>"
  have no: "er_user r \<noteq> u \<or> \<not> active_request r" if "r \<in> set (pf_requests s)" for r
    using that arg_cong [OF 3(1), of set] by (auto simp: filter_empty_conv)
  have "a' = a" if "a' \<in> set (pf_users s)" "ac_id a' = u" for a'
    using user_row_eq [OF ok that] 3(2) by simp
  then have new: "request_ok g s ?new" using 3(3) by (auto simp: request_ok_def)
  have fresh: "fresh \<notin> er_id ` set (pf_requests s)" using 3(4) by (auto simp: request_row_def find_None_iff)
  show ?thesis
  proof (rule platform_okI)
    show "one_active s'" using platform_okD(3) [OF ok] no by (auto simp: one_active_def 3(6))
    show "request_ok g s' r" if "r \<in> set (pf_requests s')" for r
    proof -
      have "request_ok g s' r = request_ok g s r" by (rule request_ok_cong) (simp_all add: 3(6))
      then show ?thesis using that new platform_okD(4) [OF ok, of r] by (auto simp: 3(6))
    qed
  qed (use ok fresh in \<open>auto simp: 3(6) dest: platform_okD\<close>)
qed (use ok in simp_all)

lemma begin_cases:
  assumes e: "begin_erasure_destructive_v1 c i s = Inr (r, s')"
  obtains q d where "request_row s i = Some q" "Option.bind (user_row s (er_user q)) ac_deleted = Some d"
      "er_state q \<noteq> Requested" "r = q" "s' = s"
  | q d where "request_row s i = Some q" "Option.bind (user_row s (er_user q)) ac_deleted = Some d"
      "er_state q = Requested" "er_eligible q \<le> pf_now s" "d + grace \<le> pf_now s" "r = q\<lparr>er_state := Qdrant_Pending\<rparr>"
      "s' = update_requests i (\<lambda>r. er_state r = Requested) (\<lambda>r. r\<lparr>er_state := Qdrant_Pending\<rparr>) s"
proof -
  have c: "c = Platform_Runtime" using e by (simp add: begin_erasure_destructive_v1_def split: if_split_asm)
  obtain q where q: "request_row s i = Some q"
    using e c by (cases "request_row s i") (simp_all add: begin_erasure_destructive_v1_def)
  obtain d where d: "Option.bind (user_row s (er_user q)) ac_deleted = Some d"
    using e c q by (cases "Option.bind (user_row s (er_user q)) ac_deleted") (simp_all add: begin_erasure_destructive_v1_def)
  show ?thesis
  proof (cases "er_state q = Requested")
    case True
    show ?thesis
      by (rule that(2) [OF q d True]) (use e c q d True in \<open>simp_all add: begin_erasure_destructive_v1_def split: if_split_asm\<close>)
  next
    case False
    show ?thesis
      by (rule that(1) [OF q d False]) (use e c q d False in \<open>simp_all add: begin_erasure_destructive_v1_def\<close>)
  qed
qed

lemma begin_ok:
  assumes ok: "platform_ok g s" and e: "begin_erasure_destructive_v1 c i s = Inr (r, s')"
  shows "platform_ok g s'"
  using e
proof (cases rule: begin_cases)
  case (2 q d)
  let ?f = "\<lambda>r::erasure_request. r\<lparr>er_state := Qdrant_Pending\<rparr>" and ?P = "\<lambda>r. er_state r = Requested"
  show ?thesis unfolding 2(7)
  proof (rule update_requests_ok [OF ok])
    show "one_active (update_requests i ?P ?f s)"
      using platform_okD(3) [OF ok] by (rule one_active_update) (simp_all add: active_request_def)
    show "request_ok g s (?f x)" if "x \<in> set (pf_requests s)" "er_id x = i" "?P x" for x
    proof -
      have "er_eligible x \<le> pf_now s" using request_row_eq [OF ok that(1,2)] 2(1,4) by simp
      then show ?thesis using platform_okD(4) [OF ok that(1)] that(3) by (simp add: request_ok_def)
    qed
  qed simp
qed (use ok in simp)

lemma ack_ok:
  assumes ok: "platform_ok g s" and e: "record_erasure_ack_v1 c i d rc s = Inr s'"
  shows "platform_ok g s'"
proof -
  from e have s': "s' = s\<lparr>pf_acks := (pf_acks s)((i, d) \<mapsto> rc)\<rparr>"
    and "find (\<lambda>r. er_id r = i \<and> er_state r \<noteq> Complete) (pf_requests s) \<noteq> None"
    by (auto simp: record_erasure_ack_v1_def Let_def split: if_splits option.splits, cases d, auto)
  then obtain q where q: "q \<in> set (pf_requests s)" "er_id q = i" "er_state q \<noteq> Complete"
    by (auto dest: find_SomeD)
  have ne: "er_id r \<noteq> i" if "r \<in> set (pf_requests s)" "er_state r = Complete" for r
    using same_id [OF platform_okD(2) [OF ok] that(1) q(1)] that(2) q(2,3) by auto
  show ?thesis
  proof (rule platform_okI)
    show "request_ok g s' r" if "r \<in> set (pf_requests s')" for r
      using that platform_okD(4) [OF ok, of r] ne [of r] by (auto simp: s' request_ok_def acks_complete_def split: if_splits)
    show "i' \<in> er_id ` set (pf_requests s')" if "pf_acks s' (i', d') = Some v" for i' d' v
      using that platform_okD(5) [OF ok] q by (auto simp: s' split: if_splits)
  qed (use ok in \<open>auto simp: s' one_active_def dest: platform_okD\<close>)
qed

lemma transition_ok:
  assumes ok: "platform_ok g s" and e: "transition_erasure_v1 c i target expected s = Inr (v, s')"
    and "g \<Longrightarrow> expected \<noteq> Requested"
  shows "platform_ok g s'"
proof -
  from e have ne: "target \<noteq> Complete" "expected \<noteq> Complete"
    by (auto simp: transition_erasure_v1_def erasure_transition_allowed_v1_def transition_edges_def split: if_splits)
  from e show ?thesis
    unfolding transition_erasure_v1_def
    by (auto simp only: split: if_splits)
       (rule returning_state_ok [OF ok], assumption, use ne assms(3) ok in
          \<open>auto simp: request_ok_def dest!: platform_okD(4)\<close>)
qed


lemma retry_ok:
  assumes ok: "platform_ok g s" and e: "record_erasure_retry_v1 c i resume s = Inr (v, s')"
  shows "platform_ok g s'"
proof -
  let ?f = "\<lambda>r. r\<lparr>er_state := (if er_attempts r + 1 \<ge> 8 then Attention_Required else Retry_Wait),
    er_attempts := er_attempts r + 1, er_resume := resume, er_error := Some ''owner command unavailable'',
    er_next := pf_now s + min 3600 (2 ^ er_attempts r * 30)\<rparr>"
  from e have r: "resume \<in> {Qdrant_Pending, Research_Pending, Learning_Pending}"
    and u: "returning_state i (\<lambda>r. er_state r = resume \<and> er_attempts r < 8) ?f s = Inr (v, s')"
    by (simp_all add: record_erasure_retry_v1_def split: if_split_asm)
  show ?thesis
  proof (rule returning_state_ok [OF ok u])
    show "request_ok g s (?f q)" if "q \<in> set (pf_requests s)" "er_id q = i" "er_state q = resume \<and> er_attempts q < 8" for q
      using platform_okD(4) [OF ok that(1)] that(3) r by (auto simp: request_ok_def)
  qed simp
qed

lemma resume_ok:
  assumes ok: "platform_ok g s" and e: "resume_erasure_v1 c i s = Inr (v, s')"
  shows "platform_ok g s'"
proof -
  let ?f = "\<lambda>r. r\<lparr>er_state := er_resume r, er_attempts := 0, er_error := None, er_next := pf_now s\<rparr>"
  from e have u: "returning_state i (\<lambda>r. er_state r = Attention_Required) ?f s = Inr (v, s')"
    by (simp add: resume_erasure_v1_def split: if_split_asm option.split_asm)
  show ?thesis
  proof (rule returning_state_ok [OF ok u])
    show "request_ok g s (?f q)" if "q \<in> set (pf_requests s)" "er_id q = i" "er_state q = Attention_Required" for q
      using platform_okD(4) [OF ok that(1)] that(3) by (auto simp: request_ok_def)
  qed simp
qed

lemma disabledD:
  assumes "request_ok g s r" "er_state r \<noteq> Complete" "a \<in> set (pf_users s)" "ac_id a = er_user r"
  shows "ac_deleted a = Some (er_eligible r - grace)" "g \<Longrightarrow> er_state r = Requested \<or> er_eligible r \<le> pf_now s"
  using assms unfolding request_ok_def by auto

lemma request_ok_openI:
  assumes "er_attempts r \<le> 8" "er_resume r \<in> {Qdrant_Pending, Research_Pending, Learning_Pending}" "er_state r \<noteq> Complete"
    and "\<And>a. a \<in> set (pf_users s) \<Longrightarrow> ac_id a = er_user r \<Longrightarrow>
      ac_deleted a = Some (er_eligible r - grace) \<and> (g \<longrightarrow> er_state r = Requested \<or> er_eligible r \<le> pf_now s)"
  shows "request_ok g s r"
  unfolding request_ok_def if_not_P [OF assms(3)] using assms(1,2,4) by blast

lemma request_ok_basicD:
  "request_ok g s r \<Longrightarrow> er_attempts r \<le> 8 \<and> er_resume r \<in> {Qdrant_Pending, Research_Pending, Learning_Pending}"
  unfolding request_ok_def by blast

lemma filter_unique_key:
  "distinct (map f xs) \<Longrightarrow> x \<in> set xs \<Longrightarrow> filter (\<lambda>y. f y = f x) xs = [x]"
proof (induction xs)
  case (Cons y xs)
  show ?case
  proof (cases "x = y")
    case True
    then have "filter (\<lambda>z. f z = f x) xs = []" using Cons.prems(1) by (simp add: filter_empty_conv) (metis image_eqI)
    then show ?thesis using True by simp
  next
    case False
    then have "x \<in> set xs" using Cons.prems(2) by simp
    then have "f y \<noteq> f x" using Cons.prems(1) by (metis distinct.simps(2) image_eqI list.set_map list.simps(9))
    then show ?thesis using Cons.IH Cons.prems(1) \<open>x \<in> set xs\<close> by simp
  qed
qed simp

text \<open>Accounts may change as long as those with an unfinished request do not.\<close>

lemma map_users_ok:
  assumes ok: "platform_ok g s" and ids: "\<And>a. ac_id (f a) = ac_id a"
    and unch: "\<And>a r. a \<in> set (pf_users s) \<Longrightarrow> r \<in> set (pf_requests s) \<Longrightarrow> er_user r = ac_id a \<Longrightarrow>
      er_state r \<noteq> Complete \<Longrightarrow> f a = a"
  shows "platform_ok g (s\<lparr>pf_users := map f (pf_users s)\<rparr>)" (is "platform_ok g ?s")
proof (rule platform_okI)
  have m: "map ac_id (pf_users ?s) = map ac_id (pf_users s)" by (simp add: ids)
  show "distinct (map ac_id (pf_users ?s))" unfolding m by (rule platform_okD(1) [OF ok])
  show "request_ok g ?s r" if "r \<in> set (pf_requests ?s)" for r
  proof -
    have r: "r \<in> set (pf_requests s)" using that by simp
    note rok = platform_okD(4) [OF ok r]
    show ?thesis
    proof (cases "er_state r = Complete")
      case True
      have "ac_id ` set (pf_users ?s) = ac_id ` set (pf_users s)" using arg_cong [OF m, of set] by (simp add: image_image)
      then have "er_user r \<notin> ac_id ` set (pf_users ?s)" using rok True by (simp add: request_ok_def del: image_iff)
      then show ?thesis using rok True by (simp add: request_ok_def acks_complete_def)
    next
      case False
      have open_user: "ac_deleted a = Some (er_eligible r - grace) \<and> (g \<longrightarrow> er_state r = Requested \<or> er_eligible r \<le> pf_now ?s)"
        if "a \<in> set (pf_users ?s)" "ac_id a = er_user r" for a
      proof -
        from that(1) obtain b where b: "b \<in> set (pf_users s)" "a = f b" by auto
        then have "b = a" using unch [OF _ r _ False] that(2) ids by simp
        then show ?thesis using disabledD [OF rok False b(1)] that(2) by simp
      qed
      show ?thesis
        using request_ok_basicD [OF rok, THEN conjunct1] request_ok_basicD [OF rok, THEN conjunct2] False open_user
        by (rule request_ok_openI)
    qed
  qed
  show "distinct (map er_id (pf_requests ?s))" using platform_okD(2) [OF ok] by simp
  show "one_active ?s" using platform_okD(3) [OF ok] by (simp add: one_active_def)
  show "i \<in> er_id ` set (pf_requests ?s)" if "pf_acks ?s (i, d) = Some v" for i d v
    using platform_okD(5) [OF ok] that by simp
qed

lemma set_deleted_ok:
  assumes ok: "platform_ok g s" and e: "set_account_deleted_v1 c u s = Inr (v, s')"
  shows "platform_ok g s'"
proof -
  let ?f = "\<lambda>a. if ac_id a = u \<and> ac_deleted a = None then a\<lparr>ac_deleted := Some (pf_now s)\<rparr> else a"
  from e have s': "s' = s\<lparr>pf_users := map ?f (pf_users s)\<rparr>"
    by (simp add: set_account_deleted_v1_def split: if_split_asm)
  show ?thesis unfolding s'
    by (rule map_users_ok [OF ok]) (use disabledD [OF platform_okD(4) [OF ok]] in auto)
qed

lemma delete_requests_ok:
  assumes ok: "platform_ok g s" and P: "\<And>r. P r \<Longrightarrow> er_state r \<noteq> Complete"
  shows "platform_ok g (delete_requests P s)"
proof (rule platform_okI)
  let ?s = "delete_requests P s"
  have keep: "pf_acks ?s (er_id r, d) = pf_acks s (er_id r, d)" if "r \<in> set (pf_requests s)" "er_state r = Complete" for r d
  proof -
    have "\<not> (er_id q = er_id r \<and> P q)" if "q \<in> set (pf_requests s)" for q
      using same_id [OF platform_okD(2) [OF ok] that] \<open>r \<in> set (pf_requests s)\<close> P [of q] \<open>er_state r = Complete\<close> by blast
    then show ?thesis by (auto simp: delete_requests_def list_ex_iff)
  qed
  show "request_ok g ?s r" if "r \<in> set (pf_requests ?s)" for r
  proof -
    have m: "r \<in> set (pf_requests s)" using that by (simp add: delete_requests_def)
    have "acks_complete ?s (er_id r) = acks_complete s (er_id r)" if "er_state r = Complete"
      using keep [OF m that] by (simp add: acks_complete_def)
    then show ?thesis using platform_okD(4) [OF ok m] by (auto simp: request_ok_def delete_requests_def)
  qed
  show "distinct (map er_id (pf_requests ?s))"
    using platform_okD(2) [OF ok] by (simp add: delete_requests_def distinct_map_filter)
  have "filter active_request (filter (\<lambda>r. \<not> P r) rs) = filter (\<lambda>r. \<not> P r) (filter active_request rs)" for rs
    by (simp add: conj_commute)
  then show "one_active ?s"
    using platform_okD(3) [OF ok] by (simp add: one_active_def delete_requests_def distinct_map_filter del: filter_filter)
  show "i \<in> er_id ` set (pf_requests ?s)" if "pf_acks ?s (i, d) = Some v" for i d v
    using that platform_okD(5) [OF ok, of i d v] by (auto simp: delete_requests_def list_ex_iff split: if_splits)
qed (use ok in \<open>simp add: delete_requests_def platform_okD\<close>)


lemma restore_cases:
  assumes "restore_account_v1 c u s = Inr (v, s')"
  defines "hit \<equiv> \<lambda>a. ac_id a = u \<and> (case ac_deleted a of None \<Rightarrow> False | Some d \<Rightarrow> d \<ge> pf_now s - grace)"
  shows "c = Platform_Runtime"
    "r \<in> set (pf_requests s) \<Longrightarrow> er_user r = u \<Longrightarrow> er_state r \<in> {Complete, Requested}"
    "s' = (delete_requests (\<lambda>r. er_user r = u \<and> er_state r \<noteq> Complete) s)
       \<lparr>pf_users := map (\<lambda>a. if hit a then a\<lparr>ac_deleted := None\<rparr> else a) (pf_users s)\<rparr>"
    "v = map_option (\<lambda>a. a\<lparr>ac_deleted := None\<rparr>) (find hit (pf_users s))"
proof -
  have u: "pf_users (delete_requests P s) = pf_users s" for P by (simp add: delete_requests_def)
  show "c = Platform_Runtime" "r \<in> set (pf_requests s) \<Longrightarrow> er_user r = u \<Longrightarrow> er_state r \<in> {Complete, Requested}"
    using assms(1) by (auto simp: restore_account_v1_def list_ex_iff split: if_split_asm)
  show "s' = (delete_requests (\<lambda>r. er_user r = u \<and> er_state r \<noteq> Complete) s)
      \<lparr>pf_users := map (\<lambda>a. if hit a then a\<lparr>ac_deleted := None\<rparr> else a) (pf_users s)\<rparr>"
    "v = map_option (\<lambda>a. a\<lparr>ac_deleted := None\<rparr>) (find hit (pf_users s))"
    using assms(1) by (simp_all add: restore_account_v1_def hit_def Let_def u split: if_split_asm)
qed

lemma restore_ok:
  assumes ok: "platform_ok g s" and e: "restore_account_v1 c u s = Inr (v, s')"
  shows "platform_ok g s'"
proof -
  let ?P = "\<lambda>r. er_user r = u \<and> er_state r \<noteq> Complete"
  let ?hit = "\<lambda>a. ac_id a = u \<and> (case ac_deleted a of None \<Rightarrow> False | Some d \<Rightarrow> d \<ge> pf_now s - grace)"
  let ?f = "\<lambda>a. if ?hit a then a\<lparr>ac_deleted := None\<rparr> else a"
  let ?d = "delete_requests ?P s"
  have "platform_ok g ?d" using ok by (rule delete_requests_ok) simp
  then have "platform_ok g (?d\<lparr>pf_users := map ?f (pf_users ?d)\<rparr>)"
    by (rule map_users_ok) (auto simp: delete_requests_def)
  moreover have "pf_users ?d = pf_users s" by (simp add: delete_requests_def)
  ultimately show ?thesis using restore_cases(3) [OF e] by simp
qed

lemma finalize_cases:
  assumes e: "finalize_erasure c i s = Inr (v, s')"
  obtains "\<not> v" "s' = s"
  | r d where "v" "c = Erasure_Executor" "r \<in> set (pf_requests s)" "er_id r = i" "er_state r = Ready"
      "er_eligible r \<le> pf_now s" "Option.bind (user_row s (er_user r)) ac_deleted = Some d" "d + grace \<le> pf_now s"
      "acks_complete s i" "0 < er_user r"
      "\<not> list_ex (\<lambda>(subject, running). subject = Some (er_user r) \<and> running) (pf_jobs s)"
      "s' = s\<lparr>pf_jobs := map (\<lambda>(subject, running). (if subject = Some (er_user r) then None else subject, running)) (pf_jobs s),
              pf_deliveries := map (\<lambda>d. if dl_actor d = Some (er_user r)
                                then d\<lparr>dl_actor := None, dl_failed := True, dl_attempts := 8\<rparr> else d)
                              (filter (\<lambda>d. dl_scope d \<noteq> er_user r) (pf_deliveries s)),
              pf_subjects := filter (\<lambda>v. v \<noteq> er_user r) (pf_subjects s),
              pf_users := filter (\<lambda>a. \<not> (ac_id a = er_user r \<and> ac_deleted a \<noteq> None)) (pf_users s),
              pf_sessions := filter (\<lambda>x. se_user x \<noteq> er_user r) (pf_sessions s),
              pf_requests := map (\<lambda>q. if er_id q = i \<and> (er_state q = Ready \<or> er_state q = Executing)
                  then q\<lparr>er_state := Complete, er_completed := Some (pf_now s)\<rparr> else q) (pf_requests s)\<rparr>"
proof (cases "find (\<lambda>r. er_id r = i \<and> er_state r = Ready \<and> grace_over s r) (pf_requests s)")
  case None
  then have "\<not> v" "s' = s" using e by (simp_all add: finalize_erasure_def split: if_split_asm)
  then show ?thesis by (rule that(1))
next
  case (Some r)
  have c: "c = Erasure_Executor" using e by (simp add: finalize_erasure_def split: if_split_asm)
  have r: "r \<in> set (pf_requests s)" "er_id r = i" "er_state r = Ready" "grace_over s r" using Some by (auto dest: find_SomeD)
  from r(4) obtain d where d: "Option.bind (user_row s (er_user r)) ac_deleted = Some d" "d + grace \<le> pf_now s"
    "er_eligible r \<le> pf_now s" by (auto simp: grace_over_def split: option.splits)
  let ?s1 = "update_requests i (\<lambda>r. er_state r = Ready) (\<lambda>r. r\<lparr>er_state := Executing\<rparr>) s"
  have acks: "acks_complete s i" using e c Some by (simp add: finalize_erasure_def Let_def acks_complete_def split: if_split_asm)
  have a1: "acks_complete ?s1 i" using acks by (simp add: acks_complete_def)
  have jobs: "0 < er_user r" "\<not> list_ex (\<lambda>(subject, running). subject = Some (er_user r) \<and> running) (pf_jobs s)"
    using e c Some a1
    by (simp_all add: finalize_erasure_def Let_def redact_erased_user_jobs_v1_def del: split_paired_all split: if_split_asm)
  have m: "(\<lambda>q. if er_id q = i \<and> er_state q = Executing then q\<lparr>er_state := Complete, er_completed := Some (pf_now s)\<rparr> else q)
      \<circ> (\<lambda>q. if er_id q = i \<and> er_state q = Ready then q\<lparr>er_state := Executing\<rparr> else q)
    = (\<lambda>q. if er_id q = i \<and> (er_state q = Ready \<or> er_state q = Executing)
             then q\<lparr>er_state := Complete, er_completed := Some (pf_now s)\<rparr> else q)"
    by (rule ext) auto
  have f: "finalize_erasure c i s = (if \<not> list_ex (\<lambda>a. ac_id a = er_user r \<and> ac_deleted a \<noteq> None) (pf_users s)
      then Inl Not_Disabled else Inr (True, s\<lparr>pf_jobs := map (\<lambda>(subject, running). (if subject = Some (er_user r) then None else subject, running)) (pf_jobs s),
              pf_deliveries := map (\<lambda>d. if dl_actor d = Some (er_user r)
                                then d\<lparr>dl_actor := None, dl_failed := True, dl_attempts := 8\<rparr> else d)
                              (filter (\<lambda>d. dl_scope d \<noteq> er_user r) (pf_deliveries s)),
              pf_subjects := filter (\<lambda>v. v \<noteq> er_user r) (pf_subjects s),
              pf_users := filter (\<lambda>a. \<not> (ac_id a = er_user r \<and> ac_deleted a \<noteq> None)) (pf_users s),
              pf_sessions := filter (\<lambda>x. se_user x \<noteq> er_user r) (pf_sessions s),
              pf_requests := map (\<lambda>q. if er_id q = i \<and> (er_state q = Ready \<or> er_state q = Executing)
                  then q\<lparr>er_state := Complete, er_completed := Some (pf_now s)\<rparr> else q) (pf_requests s)\<rparr>))"
    unfolding finalize_erasure_def Some option.case Let_def redact_erased_user_jobs_v1_def
    using c a1 jobs by (simp add: m update_requests_def)
  show ?thesis
    by (rule that(2) [OF _ c r(1-3) d(3,1,2) acks jobs]) (use e f in \<open>simp_all split: if_split_asm\<close>)
qed

lemma finalize_ok:
  assumes ok: "platform_ok g s" and e: "finalize_erasure c i s = Inr (v, s')"
  shows "platform_ok g s'"
  using e
proof (cases rule: finalize_cases)
  case (2 r d)
  let ?g = "\<lambda>q. if er_id q = i \<and> (er_state q = Ready \<or> er_state q = Executing)
    then q\<lparr>er_state := Complete, er_completed := Some (pf_now s)\<rparr> else q"
  have one: "q = r" if "q \<in> set (pf_requests s)" "er_id q = i" for q
    using same_id [OF platform_okD(2) [OF ok] that(1) 2(3)] that(2) 2(4) by simp
  have reqs: "pf_requests s' = map ?g (pf_requests s)" by (simp add: 2(12))
  have users: "set (pf_users s') = {a \<in> set (pf_users s). ac_id a \<noteq> er_user r}"
    using disabledD [OF platform_okD(4) [OF ok 2(3)]] 2(5) by (auto simp: 2(12))
  have acks: "acks_complete s' j = acks_complete s j" for j by (simp add: 2(12) acks_complete_def)
  show ?thesis
  proof (rule platform_okI)
    show "distinct (map ac_id (pf_users s'))" using platform_okD(1) [OF ok] by (simp add: 2(12) distinct_map_filter)
    have ids: "map er_id (pf_requests s') = map er_id (pf_requests s)" unfolding reqs by simp
    show "distinct (map er_id (pf_requests s'))" unfolding ids by (rule platform_okD(2) [OF ok])
    show "one_active s'"
      using platform_okD(3) [OF ok] active_users_update(2) [of "\<lambda>q. q\<lparr>er_state := Complete, er_completed := Some (pf_now s)\<rparr>"
          "\<lambda>q. er_state q = Ready \<or> er_state q = Executing" ?g i "pf_requests s"]
      unfolding one_active_def reqs by (simp add: active_request_def)
    show "request_ok g s' q'" if "q' \<in> set (pf_requests s')" for q'
    proof -
      have "q' \<in> ?g ` set (pf_requests s)" using that unfolding reqs by simp
      then obtain q where q: "q \<in> set (pf_requests s)" "q' = ?g q" by blast
      note qok = platform_okD(4) [OF ok q(1)]
      show ?thesis
      proof (cases "er_id q = i")
        case True
        then have "q = r" using one q(1) by simp
        moreover have "er_user r \<notin> ac_id ` set (pf_users s')" unfolding users by auto
        ultimately show ?thesis using q(2) 2(4-6,9) qok by (simp add: request_ok_def acks)
      next
        case False
        moreover have "pf_now s' = pf_now s" by (simp add: 2(12))
        ultimately show ?thesis using q(2) qok users by (auto simp: request_ok_def acks)
      qed
    qed
    show "j \<in> er_id ` set (pf_requests s')" if "pf_acks s' (j, d') = Some v" for j d' v
    proof -
      have "j \<in> er_id ` set (pf_requests s)" using that platform_okD(5) [OF ok] by (simp add: 2(12))
      then show ?thesis using arg_cong [OF ids, of set] by (simp only: set_map)
    qed
  qed
qed (use ok in simp)


section \<open>The capabilities as a transition system\<close>

text \<open>
  Any client may call any capability with any arguments, in any order and as any database role;
  besides, time passes and accounts are created under fresh identifiers. A call that raises is a
  step that changes nothing.
\<close>

datatype capability =
    Create_Account int pystr account_role
  | Request_Erasure int nat
  | Begin_Destructive nat
  | Record_Ack nat erasure_domain receipt
  | Transition nat erasure_state erasure_state
  | Record_Retry nat erasure_state
  | Resume nat
  | Set_Deleted int
  | Restore int
  | Finalize nat
  | Time_Passes nat

definition committed :: "platform_db \<Rightarrow> 'e + ('a \<times> platform_db) \<Rightarrow> platform_db" where
  "committed s res = (case res of Inl e \<Rightarrow> s | Inr (v, s') \<Rightarrow> s')"

fun capability_call :: "db_role \<Rightarrow> capability \<Rightarrow> platform_db \<Rightarrow> platform_db" where
  "capability_call c (Create_Account u em ro) s =
     (if u \<in> ac_id ` set (pf_users s) \<or> u \<in> er_user ` set (pf_requests s) then s
      else s\<lparr>pf_users := pf_users s @ [\<lparr>ac_id = u, ac_email = em, ac_role = ro, ac_deleted = None\<rparr>]\<rparr>)"
| "capability_call c (Request_Erasure u i) s = committed s (request_erasure_v1 c u i s)"
| "capability_call c (Begin_Destructive i) s = committed s (begin_erasure_destructive_v1 c i s)"
| "capability_call c (Record_Ack i d rc) s = (case record_erasure_ack_v1 c i d rc s of Inl e \<Rightarrow> s | Inr s' \<Rightarrow> s')"
| "capability_call c (Transition i target expected) s = committed s (transition_erasure_v1 c i target expected s)"
| "capability_call c (Record_Retry i p) s = committed s (record_erasure_retry_v1 c i p s)"
| "capability_call c (Resume i) s = committed s (resume_erasure_v1 c i s)"
| "capability_call c (Set_Deleted u) s = committed s (set_account_deleted_v1 c u s)"
| "capability_call c (Restore u) s = committed s (restore_account_v1 c u s)"
| "capability_call c (Finalize i) s = committed s (finalize_erasure c i s)"
| "capability_call c (Time_Passes n) s = s\<lparr>pf_now := pf_now s + int n\<rparr>"

definition capability_step :: "platform_db \<Rightarrow> db_role \<times> capability \<Rightarrow> platform_db option" where
  "capability_step s e = Some (capability_call (fst e) (snd e) s)"

text \<open>The services never ask the state graph for the step out of the request phase.\<close>

fun uses_begin :: "platform_db \<Rightarrow> db_role \<times> capability \<Rightarrow> bool" where
  "uses_begin s (c, Transition i target expected) = (expected \<noteq> Requested)"
| "uses_begin s e = True"

lemma committedE:
  assumes "platform_ok g s" "\<And>v s'. res = Inr (v, s') \<Longrightarrow> platform_ok g s'"
  shows "platform_ok g (committed s res)"
  using assms by (auto simp: committed_def split: sum.split)

lemma create_ok:
  assumes ok: "platform_ok g s" and new: "u \<notin> ac_id ` set (pf_users s)" "u \<notin> er_user ` set (pf_requests s)"
  shows "platform_ok g (s\<lparr>pf_users := pf_users s @ [\<lparr>ac_id = u, ac_email = em, ac_role = ro, ac_deleted = None\<rparr>]\<rparr>)" (is "platform_ok g ?s")
proof (rule platform_okI)
  show "request_ok g ?s r" if "r \<in> set (pf_requests ?s)" for r
  proof -
    have r: "r \<in> set (pf_requests s)" "er_user r \<noteq> u" using that new(2) by auto
    then show ?thesis using platform_okD(4) [OF ok r(1)] by (auto simp: request_ok_def acks_complete_def)
  qed
qed (use ok new in \<open>auto simp: one_active_def dest: platform_okD\<close>)

lemma time_ok: "platform_ok g s \<Longrightarrow> platform_ok g (s\<lparr>pf_now := pf_now s + int n\<rparr>)"
  unfolding platform_ok_def one_active_def request_ok_def acks_complete_def by auto

lemma capability_call_ok:
  assumes ok: "platform_ok g s" and g: "g \<Longrightarrow> uses_begin s (c, cap)"
  shows "platform_ok g (capability_call c cap s)"
proof (cases cap)
  case (Transition i t e)
  then show ?thesis using g by (auto intro!: committedE [OF ok] transition_ok [OF ok])
next
  case (Record_Ack i d rc)
  then show ?thesis using ok ack_ok [OF ok] by (simp split: sum.split)
qed (use ok in \<open>auto intro!: committedE create_ok time_ok intro: request_erasure_ok begin_ok retry_ok resume_ok
       set_deleted_ok restore_ok finalize_ok\<close>)

interpretation erasure: guarded_steps capability_step uses_begin "platform_ok True"
proof
  fix s s' :: platform_db and e :: "db_role \<times> capability"
  assume "platform_ok True s" "uses_begin s e" "capability_step s e = Some s'"
  then show "platform_ok True s'" using capability_call_ok [of True s "fst e" "snd e"] by (simp add: capability_step_def)
qed

interpretation any_caller: guarded_steps capability_step "\<lambda>s e. True" "platform_ok False"
proof
  fix s s' :: platform_db and e :: "db_role \<times> capability"
  assume "platform_ok False s" "capability_step s e = Some s'"
  then show "platform_ok False s'" using capability_call_ok [of False s "fst e" "snd e"] by (simp add: capability_step_def)
qed


section \<open>What any sequence of calls can and cannot do\<close>

text \<open>Finished requests are history, and only finalization removes accounts.\<close>

lemma update_requests_other:
  "r \<in> set (pf_requests s) \<Longrightarrow> \<not> P r \<Longrightarrow> r \<in> set (pf_requests (update_requests i P f s))"
  by (force simp: update_requests_def)

definition history_kept :: "platform_db \<Rightarrow> platform_db \<Rightarrow> bool" where
  "history_kept s s' \<longleftrightarrow>
     (\<forall>r \<in> set (pf_requests s). er_state r = Complete \<longrightarrow> r \<in> set (pf_requests s')) \<and>
     (\<forall>u \<in> ac_id ` set (pf_users s). u \<in> ac_id ` set (pf_users s') \<or>
        (\<exists>r \<in> set (pf_requests s'). er_user r = u \<and> er_state r = Complete))"

lemma history_keptI:
  assumes "\<And>r. r \<in> set (pf_requests s) \<Longrightarrow> er_state r = Complete \<Longrightarrow> r \<in> set (pf_requests s')"
    and "ac_id ` set (pf_users s) \<subseteq> ac_id ` set (pf_users s')"
  shows "history_kept s s'"
  using assms by (auto simp: history_kept_def)

lemma history_refl: "history_kept s s"
  by (simp add: history_kept_def)

lemma committed_history:
  assumes "\<And>v s'. res = Inr (v, s') \<Longrightarrow> history_kept s s'"
  shows "history_kept s (committed s res)"
  using assms history_refl by (auto simp: committed_def split: sum.split)

lemma update_history:
  assumes "\<And>r. P r \<Longrightarrow> er_state r \<noteq> Complete"
  shows "history_kept s (update_requests i P f s)"
proof (rule history_keptI)
  show "r \<in> set (pf_requests (update_requests i P f s))" if "r \<in> set (pf_requests s)" "er_state r = Complete" for r
    using that(1) assms [of r] that(2) by (auto intro: update_requests_other)
qed simp

lemma returning_state_history:
  assumes "returning_state i P f s = Inr (v, s')" "\<And>r. P r \<Longrightarrow> er_state r \<noteq> Complete"
  shows "history_kept s s'"
  using assms(1) by (rule returning_stateE) (use update_history [OF assms(2)] history_refl in simp_all)

lemma transition_history:
  assumes "transition_erasure_v1 c i target expected s = Inr (v, s')"
  shows "history_kept s s'"
proof -
  from assms have "expected \<noteq> Complete"
    by (auto simp: transition_erasure_v1_def erasure_transition_allowed_v1_def transition_edges_def split: if_splits)
  with assms show ?thesis
    by (simp add: transition_erasure_v1_def split: if_split_asm) (erule returning_state_history, simp)
qed

lemma retry_history:
  assumes "record_erasure_retry_v1 c i p s = Inr (v, s')"
  shows "history_kept s s'"
proof -
  from assms have "p \<noteq> Complete" by (auto simp: record_erasure_retry_v1_def split: if_split_asm)
  with assms show ?thesis
    by (simp add: record_erasure_retry_v1_def split: if_split_asm) (erule returning_state_history, simp)+
qed

lemma resume_history:
  assumes "resume_erasure_v1 c i s = Inr (v, s')"
  shows "history_kept s s'"
  using assms
  by (simp add: resume_erasure_v1_def split: if_split_asm option.split_asm) (erule returning_state_history, simp)

lemma request_history: "request_erasure_v1 c u i s = Inr (v, s') \<Longrightarrow> history_kept s s'"
  by (erule request_erasure_cases) (auto intro!: history_keptI)

lemma begin_history:
  assumes "begin_erasure_destructive_v1 c i s = Inr (v, s')"
  shows "history_kept s s'"
  using assms
proof (cases rule: begin_cases)
  case (2 q d)
  show ?thesis unfolding 2(7) by (rule update_history) simp
qed (simp add: history_refl)

lemma ack_history: "record_erasure_ack_v1 c i d rc s = Inr s' \<Longrightarrow> history_kept s s'"
  by (auto simp: record_erasure_ack_v1_def Let_def history_kept_def split: if_split_asm)

lemma map_users_history:
  assumes "pf_users s' = map f (pf_users s)" "\<And>a. ac_id (f a) = ac_id a"
    and "\<And>r. r \<in> set (pf_requests s) \<Longrightarrow> er_state r = Complete \<Longrightarrow> r \<in> set (pf_requests s')"
  shows "history_kept s s'"
proof (rule history_keptI)
  have "map ac_id (pf_users s') = map ac_id (pf_users s)" by (simp add: assms(1,2))
  then show "ac_id ` set (pf_users s) \<subseteq> ac_id ` set (pf_users s')" using arg_cong [of _ _ set] by (simp only: set_map [symmetric])
qed (rule assms(3))

lemma set_deleted_history:
  assumes "set_account_deleted_v1 c u s = Inr (v, s')"
  shows "history_kept s s'"
  by (rule map_users_history [where f = "\<lambda>a. if ac_id a = u \<and> ac_deleted a = None
        then a\<lparr>ac_deleted := Some (pf_now s)\<rparr> else a"])
     (use assms in \<open>auto simp: set_account_deleted_v1_def split: if_split_asm\<close>)

lemma restore_history:
  assumes "restore_account_v1 c u s = Inr (v, s')"
  shows "history_kept s s'"
proof (rule map_users_history)
  show "pf_users s' = map (\<lambda>a. if ac_id a = u \<and> (case ac_deleted a of None \<Rightarrow> False | Some d \<Rightarrow> d \<ge> pf_now s - grace)
      then a\<lparr>ac_deleted := None\<rparr> else a) (pf_users s)"
    using restore_cases(3) [OF assms] by simp
qed (use restore_cases(3) [OF assms] in \<open>simp_all add: delete_requests_def\<close>)

lemma finalize_history:
  assumes "finalize_erasure c i s = Inr (v, s')"
  shows "history_kept s s'"
  using assms
proof (cases rule: finalize_cases)
  case (2 r d)
  let ?r = "r\<lparr>er_state := Complete, er_completed := Some (pf_now s)\<rparr>"
  have "?r \<in> set (pf_requests s')" using 2(3-5) by (force simp: 2(12))
  moreover have "q \<in> set (pf_requests s')" if "q \<in> set (pf_requests s)" "er_state q = Complete" for q
    using that by (force simp: 2(12))
  moreover have "u \<in> ac_id ` set (pf_users s')" if "u \<in> ac_id ` set (pf_users s)" "u \<noteq> er_user r" for u
    using that by (auto simp: 2(12))
  ultimately show ?thesis unfolding history_kept_def by (metis erasure_request.select_convs(2,3) erasure_request.surjective erasure_request.update_convs(3,10))
qed (simp add: history_refl)

lemma capability_history: "history_kept s (capability_call c cap s)"
proof (cases cap)
  case (Record_Ack i d rc)
  then show ?thesis by (simp add: history_refl ack_history split: sum.split)
next
  case (Create_Account u ro)
  then show ?thesis by (auto simp: history_refl intro: history_keptI)
next
  case (Time_Passes n)
  have "history_kept s (s\<lparr>pf_now := t\<rparr>)" for t by (rule history_keptI) simp_all
  then show ?thesis using Time_Passes by simp
qed (simp_all add: committed_history [OF transition_history] committed_history [OF retry_history]
      committed_history [OF resume_history] committed_history [OF request_history]
      committed_history [OF begin_history] committed_history [OF set_deleted_history]
      committed_history [OF restore_history] committed_history [OF finalize_history])

lemma history_trans:
  assumes 1: "history_kept s s'" and 2: "history_kept s' s''"
  shows "history_kept s s''"
proof -
  have keep: "r \<in> set (pf_requests s'')" if "r \<in> set (pf_requests s')" "er_state r = Complete" for r
    using 2 that by (simp add: history_kept_def)
  have "u \<in> ac_id ` set (pf_users s'') \<or> (\<exists>r \<in> set (pf_requests s''). er_user r = u \<and> er_state r = Complete)"
    if "u \<in> ac_id ` set (pf_users s)" for u
  proof -
    from 1 that consider "u \<in> ac_id ` set (pf_users s')"
      | r where "r \<in> set (pf_requests s')" "er_user r = u" "er_state r = Complete"
      unfolding history_kept_def by blast
    then show ?thesis
    proof cases
      case 1
      with 2 show ?thesis unfolding history_kept_def by blast
    next
      case (2 r)
      then show ?thesis using keep by blast
    qed
  qed
  moreover have "r \<in> set (pf_requests s'')" if "r \<in> set (pf_requests s)" "er_state r = Complete" for r
    using 1 that keep by (simp add: history_kept_def)
  ultimately show ?thesis unfolding history_kept_def by blast
qed

lemma trace_history: "exec_steps capability_step s es = Some s' \<Longrightarrow> history_kept s s'"
proof (induction es arbitrary: s)
  case (Cons e es)
  then have "history_kept (capability_call (fst e) (snd e) s) s'" by (simp add: capability_step_def)
  with capability_history show ?case by (rule history_trans)
qed (simp add: history_refl)


lemma exec_total: "exec_steps capability_step s es \<noteq> None"
  by (induction es arbitrary: s) (auto simp: capability_step_def)

lemma steps_ok_True: "steps_ok step (\<lambda>s e. True) s es"
  by (induction es arbitrary: s) (auto split: option.split)

lemmas platform_ok_eval = platform_ok_def one_active_def active_request_def request_ok_def acks_complete_def grace_def
lemmas capability_eval = capability_step_def committed_def returning_state_def update_requests_def one_active_def
  active_request_def user_row_def request_row_def request_erasure_v1_def begin_erasure_destructive_v1_def
  record_erasure_ack_v1_def transition_erasure_v1_def erasure_transition_allowed_v1_def transition_edges_def
  record_erasure_retry_v1_def resume_erasure_v1_def set_account_deleted_v1_def restore_account_v1_def
  delete_requests_def finalize_erasure_def redact_erased_user_jobs_v1_def grace_over_def acks_complete_def
  reached_phase_def grace_def py_sort_desc_def

definition new_platform :: "account list \<Rightarrow> int \<Rightarrow> platform_db" where
  "new_platform us t = \<lparr>pf_users = us, pf_sessions = [], pf_requests = [], pf_acks = (\<lambda>_. None), pf_jobs = [],
     pf_deliveries = [], pf_subjects = [], pf_audit = [], pf_now = t\<rparr>"

lemma new_platform_ok: "distinct (map ac_id us) \<Longrightarrow> platform_ok g (new_platform us t)"
  by (simp add: platform_ok_eval new_platform_def)

text \<open>
  C4: whatever capabilities are called, with whatever arguments, in whatever order and by whatever
  clients, an account row disappears only through an erasure request that finished: its restore
  grace was over by then, the Research and the Learning service had acknowledged the removal of
  their rows, and the receipt of the vector store reported no residual point.
\<close>

theorem account_removed_only_after_proof:
  assumes "platform_ok False s" and "exec_steps capability_step s es = Some s'"
    and "u \<in> ac_id ` set (pf_users s)" and "u \<notin> ac_id ` set (pf_users s')"
  shows "\<exists>r c. r \<in> set (pf_requests s') \<and> er_user r = u \<and> er_state r = Complete
    \<and> er_completed r = Some c \<and> er_eligible r \<le> c
    \<and> pf_acks s' (er_id r, Research) \<noteq> None \<and> pf_acks s' (er_id r, Learning) \<noteq> None
    \<and> pf_acks s' (er_id r, Qdrant) = Some (Some 0)"
proof -
  have ok: "platform_ok False s'" using assms(1) steps_ok_True assms(2) by (rule any_caller.steps_keep)
  obtain r where r: "r \<in> set (pf_requests s')" "er_user r = u" "er_state r = Complete"
    using trace_history [OF assms(2)] assms(3,4) by (auto simp: history_kept_def)
  with platform_okD(4) [OF ok r(1)] show ?thesis
    by (auto simp: request_ok_def acks_complete_def split: option.splits)
qed

definition erasure_script :: "(db_role \<times> capability) list" where
  "erasure_script =
     [(Platform_Runtime, Set_Deleted 7), (Platform_Runtime, Request_Erasure 7 1), (Platform_Runtime, Time_Passes 2592000),
      (Platform_Runtime, Begin_Destructive 1), (Platform_Runtime, Record_Ack 1 Qdrant (Some 0)),
      (Platform_Runtime, Transition 1 Research_Pending Qdrant_Pending), (Platform_Runtime, Record_Ack 1 Research None),
      (Platform_Runtime, Transition 1 Learning_Pending Research_Pending), (Platform_Runtime, Record_Ack 1 Learning None),
      (Platform_Runtime, Transition 1 Ready Learning_Pending), (Erasure_Executor, Finalize 1)]"

definition demo_platform :: platform_db where
  "demo_platform = new_platform [\<lparr>ac_id = 7, ac_email = codes ''u7'', ac_role = User_Role, ac_deleted = None\<rparr>,
     \<lparr>ac_id = 8, ac_email = codes ''u8'', ac_role = Admin_Role, ac_deleted = None\<rparr>] 100"

lemma demo_platform_ok: "platform_ok g demo_platform"
  unfolding demo_platform_def by (rule new_platform_ok) simp

theorem account_removed_only_after_proof_witness:
  "\<exists>s'. exec_steps capability_step demo_platform erasure_script = Some s' \<and> map ac_id (pf_users s') = [8] \<and>
    (\<exists>r c. r \<in> set (pf_requests s') \<and> er_user r = 7 \<and> er_state r = Complete
      \<and> er_completed r = Some c \<and> er_eligible r \<le> c
      \<and> pf_acks s' (er_id r, Research) \<noteq> None \<and> pf_acks s' (er_id r, Learning) \<noteq> None
      \<and> pf_acks s' (er_id r, Qdrant) = Some (Some 0))"
proof -
  obtain s' where run: "exec_steps capability_step demo_platform erasure_script = Some s'" using exec_total by blast
  have "map_option (\<lambda>s. map ac_id (pf_users s)) (exec_steps capability_step demo_platform erasure_script) = Some [8]"
    by (simp add: demo_platform_def new_platform_def erasure_script_def capability_eval)
  then have u: "map ac_id (pf_users s') = [8]" using run by simp
  then have "7 \<notin> ac_id ` set (pf_users s')" unfolding set_map [symmetric] by simp
  moreover have "7 \<in> ac_id ` set (pf_users demo_platform)" by (simp add: demo_platform_def new_platform_def)
  ultimately have "\<exists>r c. r \<in> set (pf_requests s') \<and> er_user r = 7 \<and> er_state r = Complete
      \<and> er_completed r = Some c \<and> er_eligible r \<le> c
      \<and> pf_acks s' (er_id r, Research) \<noteq> None \<and> pf_acks s' (er_id r, Learning) \<noteq> None
      \<and> pf_acks s' (er_id r, Qdrant) = Some (Some 0)"
    by (intro account_removed_only_after_proof [OF demo_platform_ok run])
  with run u show ?thesis by (intro exI [of _ s'] conjI)
qed

text \<open>
  C7: as long as the request phase is left through its own capability, destruction never touches an
  account in use: after any sequence of calls, a request past the request phase belongs to an account
  that is gone or has been disabled for the whole restore grace, and no account has two live requests.
\<close>

theorem destruction_spares_live_accounts:
  assumes "platform_ok True s" and "steps_ok capability_step uses_begin s es"
    and "exec_steps capability_step s es = Some s'"
    and "r \<in> set (pf_requests s')" and "er_state r \<noteq> Complete"
  shows "(\<forall>a \<in> set (pf_users s'). ac_id a = er_user r \<longrightarrow>
        (\<exists>d. ac_deleted a = Some d \<and> (er_state r = Requested \<or> d + grace \<le> pf_now s')))
    \<and> (active_request r \<longrightarrow> filter (\<lambda>q. active_request q \<and> er_user q = er_user r) (pf_requests s') = [r])"
proof (intro conjI impI ballI)
  have ok: "platform_ok True s'" using assms(1-3) by (rule erasure.steps_keep)
  show "\<exists>d. ac_deleted a = Some d \<and> (er_state r = Requested \<or> d + grace \<le> pf_now s')"
    if "a \<in> set (pf_users s')" "ac_id a = er_user r" for a
    using disabledD(1) [OF platform_okD(4) [OF ok assms(4)] assms(5) that]
      disabledD(2) [OF platform_okD(4) [OF ok assms(4)] assms(5) that TrueI] by simp
  assume "active_request r"
  then have "r \<in> set (filter active_request (pf_requests s'))" using assms(4) by simp
  then have "filter (\<lambda>q. er_user q = er_user r) (filter active_request (pf_requests s')) = [r]"
    using platform_okD(3) [OF ok] unfolding one_active_def by (rule filter_unique_key [rotated])
  then show "filter (\<lambda>q. active_request q \<and> er_user q = er_user r) (pf_requests s') = [r]"
    by (simp add: conj_commute)
qed

theorem destruction_spares_live_accounts_witness:
  "\<exists>s' r. exec_steps capability_step demo_platform (take 4 erasure_script) = Some s'
     \<and> pf_requests s' = [r] \<and> er_state r = Qdrant_Pending
     \<and> (\<exists>a d. user_row s' 7 = Some a \<and> ac_deleted a = Some d \<and> d + grace \<le> pf_now s')"
proof -
  let ?es = "take 4 erasure_script"
  obtain s' where run: "exec_steps capability_step demo_platform ?es = Some s'" using exec_total by blast
  have g: "steps_ok capability_step uses_begin demo_platform ?es"
    by (simp add: erasure_script_def capability_step_def)
  have "map_option (\<lambda>s. (map er_state (pf_requests s), map er_user (pf_requests s), map_option ac_id (user_row s 7)))
      (exec_steps capability_step demo_platform ?es) = Some ([Qdrant_Pending], [7], Some 7)"
    by (simp add: demo_platform_def new_platform_def erasure_script_def capability_eval)
  then obtain r a where r: "pf_requests s' = [r]" "er_state r = Qdrant_Pending" "er_user r = 7"
    and a: "user_row s' 7 = Some a" using run by auto
  show ?thesis
    using destruction_spares_live_accounts [OF demo_platform_ok g run, of r] run r a user_row_SomeD [OF a] by auto
qed


text \<open>
  The state graph, unlike the capability made for it, leads out of the request phase at any time: a
  client may start the destructive phases of a fresh request inside the restore grace, and from then
  on the account cannot be restored.
\<close>

lemma transition_skips_grace:
  "\<exists>s'. exec_steps capability_step demo_platform
       [(Platform_Runtime, Set_Deleted 7), (Platform_Runtime, Request_Erasure 7 1),
        (Platform_Runtime, Transition 1 Qdrant_Pending Requested)] = Some s'
     \<and> map er_state (pf_requests s') = [Qdrant_Pending]
     \<and> map er_eligible (pf_requests s') = [pf_now s' + grace]
     \<and> begin_erasure_destructive_v1 Platform_Runtime 1
          (the (exec_steps capability_step demo_platform
             [(Platform_Runtime, Set_Deleted 7), (Platform_Runtime, Request_Erasure 7 1)])) = Inl Inside_Grace
     \<and> restore_account_v1 Platform_Runtime 7 s' = Inl Already_Started"
  by (simp add: demo_platform_def new_platform_def capability_eval)

end
