(* ===== verification/Erasure_Coordinator.thy ===== *)
theory Erasure_Coordinator
  imports Erasure_Store
begin

text \<open>
  The Platform service's side of account erasure: the repository functions that call the capabilities
  of Erasure\_Store and translate their errors (\<open>platform_api/repos/erasure.py\<close>), the coordinator
  that takes a request through its three owner phases (\<open>platform_api/services/erasure.py\<close>), and the
  executor that finalizes what is ready (\<open>platform_api/erasure_executor.py\<close>). The owner services are a
  parameter here: a command carries a world to a new world and a reply.
\<close>

section \<open>Repository\<close>

datatype py_error = Lookup_Error | Value_Error | Runtime_Error | Not_Eligible | Http_Failure | Db_Raise db_error

definition create_or_get_request :: "int \<Rightarrow> nat \<Rightarrow> platform_db \<Rightarrow> py_error + (nat \<times> platform_db)" where
  "create_or_get_request u fresh s =
     (case request_erasure_v1 Platform_Runtime u fresh s of
        Inl e \<Rightarrow> Inl (Db_Raise e)
      | Inr (None, s') \<Rightarrow> Inl Lookup_Error
      | Inr (Some i, s') \<Rightarrow> Inr (i, s'))"

text \<open>A snapshot is the request and \<open>deleted_at\<close> of its account (a left join).\<close>

definition get_request :: "nat \<Rightarrow> platform_db \<Rightarrow> (erasure_request \<times> int option) option" where
  "get_request i s = map_option (\<lambda>r. (r, Option.bind (user_row s (er_user r)) ac_deleted)) (request_row s i)"

definition begin_destructive_phases :: "nat \<Rightarrow> platform_db \<Rightarrow> py_error + (erasure_request \<times> platform_db)" where
  "begin_destructive_phases i s =
     (case begin_erasure_destructive_v1 Platform_Runtime i s of
        Inl Request_Missing \<Rightarrow> Inl Lookup_Error
      | Inl Inside_Grace \<Rightarrow> Inl Value_Error
      | Inl e \<Rightarrow> Inl Runtime_Error
      | Inr (r, s') \<Rightarrow> Inr (r, s'))"

definition due_request_ids :: "nat \<Rightarrow> platform_db \<Rightarrow> nat list" where
  "due_request_ids limit s =
     take limit (map er_id (sort_key er_next (sort_key er_requested
       (filter (\<lambda>r. er_state r \<in> {Requested, Qdrant_Pending, Research_Pending, Learning_Pending, Retry_Wait}
                    \<and> er_next r \<le> pf_now s \<and> grace_over s r) (pf_requests s)))))"

definition acknowledge :: "nat \<Rightarrow> erasure_domain \<Rightarrow> receipt \<Rightarrow> platform_db \<Rightarrow> py_error + platform_db" where
  "acknowledge i d rc s =
     (case record_erasure_ack_v1 Platform_Runtime i d rc s of Inl e \<Rightarrow> Inl (Db_Raise e) | Inr s' \<Rightarrow> Inr s')"

definition transition :: "nat \<Rightarrow> erasure_state \<Rightarrow> platform_db \<Rightarrow> py_error + (erasure_state \<times> platform_db)" where
  "transition i target s =
     (case request_row s i of
        None \<Rightarrow> Inl Lookup_Error
      | Some r \<Rightarrow>
          if er_state r = target then Inr (target, s)
          else if er_state r \<in> {Retry_Wait, Attention_Required} \<and> target \<noteq> er_resume r \<and> target \<noteq> Attention_Required
          then Inl Value_Error
          else (case transition_erasure_v1 Platform_Runtime i target (er_state r) s of
                  Inl Graph_Refused \<Rightarrow> Inl Value_Error
                | Inl e \<Rightarrow> Inl (Db_Raise e)
                | Inr (None, s') \<Rightarrow> Inl Runtime_Error
                | Inr (Some st, s') \<Rightarrow> Inr (st, s')))"

definition acknowledged_domains :: "nat \<Rightarrow> platform_db \<Rightarrow> erasure_domain \<Rightarrow> bool" where
  "acknowledged_domains i s d \<longleftrightarrow> pf_acks s (i, d) \<noteq> None"

definition record_retry :: "nat \<Rightarrow> erasure_state \<Rightarrow> platform_db \<Rightarrow> py_error + (erasure_state \<times> platform_db)" where
  "record_retry i p s =
     (case record_erasure_retry_v1 Platform_Runtime i p s of
        Inl e \<Rightarrow> Inl (Db_Raise e)
      | Inr (None, s') \<Rightarrow> Inl Runtime_Error
      | Inr (Some st, s') \<Rightarrow> Inr (st, s'))"

definition resume_request :: "nat \<Rightarrow> platform_db \<Rightarrow> py_error + (erasure_state \<times> platform_db)" where
  "resume_request i s =
     (case resume_erasure_v1 Platform_Runtime i s of
        Inl Request_Missing \<Rightarrow> Inl Lookup_Error
      | Inl Not_Allowed \<Rightarrow> Inl Runtime_Error
      | Inl Unique_Violation \<Rightarrow> Inl (Db_Raise Unique_Violation)
      | Inl e \<Rightarrow> Inl Value_Error
      | Inr (None, s') \<Rightarrow> Inl Runtime_Error
      | Inr (Some st, s') \<Rightarrow> Inr (st, s'))"

section \<open>Owner commands\<close>

record owner_target =
  ot_audience :: string
  ot_scope :: string
  ot_request :: nat
  ot_suffix :: string
  ot_user :: int

text \<open>
  A reply is a transport or status error, a body that is not an object, or an object, of which the
  fields \<open>receipt\<close> (with its \<open>residual_points\<close>) and \<open>acknowledged\<close> are read.
\<close>

datatype owner_reply = Http_Error | Not_Object | Reply "int option option" bool

record erasure_phase =
  ph_domain :: erasure_domain
  ph_state :: erasure_state
  ph_next :: erasure_state
  ph_audience :: string
  ph_suffix :: string

definition phases :: "erasure_phase list" where
  "phases =
     [\<lparr>ph_domain = Qdrant, ph_state = Qdrant_Pending, ph_next = Research_Pending,
       ph_audience = ''research'', ph_suffix = ''/qdrant''\<rparr>,
      \<lparr>ph_domain = Research, ph_state = Research_Pending, ph_next = Learning_Pending,
       ph_audience = ''research'', ph_suffix = ''/research''\<rparr>,
      \<lparr>ph_domain = Learning, ph_state = Learning_Pending, ph_next = Ready,
       ph_audience = ''learning'', ph_suffix = ''''\<rparr>]"

definition phase_target :: "erasure_phase \<Rightarrow> nat \<Rightarrow> int \<Rightarrow> owner_target" where
  "phase_target ph i u = \<lparr>ot_audience = ph_audience ph, ot_scope = ph_audience ph @ '':erasure:write'',
     ot_request = i, ot_suffix = ph_suffix ph, ot_user = u\<rparr>"

text \<open>\<open>_owner_command\<close>: a status error or a body that is not an object raises.\<close>

definition owner_command ::
  "(owner_target \<Rightarrow> 'w \<Rightarrow> 'w \<times> owner_reply) \<Rightarrow> owner_target \<Rightarrow> 'w
    \<Rightarrow> (py_error + int option option \<times> bool) \<times> 'w" where
  "owner_command owner t w =
     (case owner t w of
        (w', Http_Error) \<Rightarrow> (Inl Http_Failure, w')
      | (w', Not_Object) \<Rightarrow> (Inl Value_Error, w')
      | (w', Reply rc ack) \<Rightarrow> (Inr (rc, ack), w'))"

definition phase_receipt :: "erasure_phase \<Rightarrow> int option option \<times> bool \<Rightarrow> py_error + receipt" where
  "phase_receipt ph payload =
     (if ph_domain ph = Qdrant then
        (case fst payload of
           None \<Rightarrow> Inl Value_Error
         | Some rc \<Rightarrow> if rc \<noteq> Some 0 then Inl Value_Error else Inr rc)
      else if \<not> snd payload then Inl Value_Error
      else Inr None)"

section \<open>The coordinator\<close>

text \<open>The body of the loop of \<open>_advance_phases\<close> for one phase, up to the exception it may raise.\<close>

definition phase_step ::
  "(owner_target \<Rightarrow> 'w \<Rightarrow> 'w \<times> owner_reply) \<Rightarrow> nat \<Rightarrow> int \<Rightarrow> (erasure_domain \<Rightarrow> bool) \<Rightarrow> erasure_phase
    \<Rightarrow> erasure_state \<Rightarrow> platform_db \<Rightarrow> 'w \<Rightarrow> (py_error + erasure_state) \<times> platform_db \<times> 'w" where
  "phase_step owner i u acked ph phase s w =
     (let (res, s1, w1) =
        (if acked (ph_domain ph) then (Inr (), s, w)
         else if phase \<noteq> ph_state ph then (Inl Value_Error, s, w)
         else
           let (answer, w1) = owner_command owner (phase_target ph i u) w
           in case answer of
                Inl e \<Rightarrow> (Inl e, s, w1)
              | Inr payload \<Rightarrow>
                  (case phase_receipt ph payload of
                     Inl e \<Rightarrow> (Inl e, s, w1)
                   | Inr rc \<Rightarrow>
                       (case acknowledge i (ph_domain ph) rc s of
                          Inl e \<Rightarrow> (Inl e, s, w1)
                        | Inr s1 \<Rightarrow> (Inr (), s1, w1))))
      in case res of
           Inl e \<Rightarrow> (Inl e, s1, w1)
         | Inr _ \<Rightarrow>
             if phase = ph_state ph then
               (case transition i (ph_next ph) s1 of
                  Inl e \<Rightarrow> (Inl e, s1, w1)
                | Inr (st, s2) \<Rightarrow> (Inr st, s2, w1))
             else (Inr phase, s1, w1))"

definition caught :: "py_error \<Rightarrow> bool" where
  "caught e \<longleftrightarrow> e \<in> {Http_Failure, Runtime_Error, Value_Error}"

fun advance_phases ::
  "(owner_target \<Rightarrow> 'w \<Rightarrow> 'w \<times> owner_reply) \<Rightarrow> nat \<Rightarrow> int \<Rightarrow> (erasure_domain \<Rightarrow> bool) \<Rightarrow> erasure_phase list
    \<Rightarrow> erasure_state \<Rightarrow> platform_db \<Rightarrow> 'w \<Rightarrow> (py_error + erasure_state) \<times> platform_db \<times> 'w" where
  "advance_phases owner i u acked [] phase s w = (Inr phase, s, w)"
| "advance_phases owner i u acked (ph # phs) phase s w =
     (case phase_step owner i u acked ph phase s w of
        (Inr phase', s', w') \<Rightarrow> advance_phases owner i u acked phs phase' s' w'
      | (Inl e, s', w') \<Rightarrow>
          if caught e then
            (case record_retry i phase s' of
               Inl e' \<Rightarrow> (Inl e', s', w')
             | Inr (st, s'') \<Rightarrow> (Inr st, s'', w'))
          else (Inl e, s', w'))"

text \<open>\<open>_require_grace_elapsed\<close>, on the clock of the service.\<close>

definition grace_elapsed :: "int \<Rightarrow> erasure_request \<times> int option \<Rightarrow> bool" where
  "grace_elapsed clock snap =
     (case snd snap of
        None \<Rightarrow> False
      | Some d \<Rightarrow> \<not> (er_eligible (fst snap) > clock \<or> d + grace > clock))"

definition process_request ::
  "(owner_target \<Rightarrow> 'w \<Rightarrow> 'w \<times> owner_reply) \<Rightarrow> int \<Rightarrow> nat \<Rightarrow> platform_db \<Rightarrow> 'w
    \<Rightarrow> (py_error + erasure_state) \<times> platform_db \<times> 'w" where
  "process_request owner clock i s w =
     (case get_request i s of
        None \<Rightarrow> (Inl Lookup_Error, s, w)
      | Some (r, deleted) \<Rightarrow>
          if er_state r \<in> {Complete, Attention_Required, Ready} then (Inr (er_state r), s, w)
          else if \<not> grace_elapsed clock (r, deleted) then (Inl Not_Eligible, s, w)
          else
            (case (if er_state r = Requested then begin_destructive_phases i s else Inr (r, s)) of
               Inl e \<Rightarrow> (Inl (if e = Value_Error then Not_Eligible else e), s, w)
             | Inr (r1, s1) \<Rightarrow>
                 let acked = acknowledged_domains i s1
                 in if er_state r1 = Retry_Wait then
                      (case transition i (er_resume r1) s1 of
                         Inl e \<Rightarrow> (Inl e, s1, w)
                       | Inr (phase, s2) \<Rightarrow> advance_phases owner i (er_user r1) acked phases phase s2 w)
                    else advance_phases owner i (er_user r1) acked phases (er_state r1) s1 w))"

text \<open>A pass over the due requests; whatever one request raises, the next is processed.\<close>

fun process_each ::
  "(owner_target \<Rightarrow> 'w \<Rightarrow> 'w \<times> owner_reply) \<Rightarrow> int \<Rightarrow> nat list \<Rightarrow> platform_db \<Rightarrow> 'w \<Rightarrow> platform_db \<times> 'w" where
  "process_each owner clock [] s w = (s, w)"
| "process_each owner clock (i # is) s w =
     (case process_request owner clock i s w of (_, s', w') \<Rightarrow> process_each owner clock is s' w')"

definition process_due_requests ::
  "(owner_target \<Rightarrow> 'w \<Rightarrow> 'w \<times> owner_reply) \<Rightarrow> int \<Rightarrow> nat \<Rightarrow> platform_db \<Rightarrow> 'w \<Rightarrow> nat \<times> platform_db \<times> 'w" where
  "process_due_requests owner clock limit s w =
     (let ids = due_request_ids limit s in (length ids, process_each owner clock ids s w))"

text \<open>The two endpoints of the administration; an exception they do not translate is a 500.\<close>

definition process_erasure ::
  "(owner_target \<Rightarrow> 'w \<Rightarrow> 'w \<times> owner_reply) \<Rightarrow> int \<Rightarrow> nat \<Rightarrow> platform_db \<Rightarrow> 'w
    \<Rightarrow> (nat + erasure_state) \<times> platform_db \<times> 'w" where
  "process_erasure owner clock i s w =
     (case process_request owner clock i s w of
        (Inl e, s', w') \<Rightarrow> (Inl (if e = Lookup_Error then 404 else if e = Not_Eligible then 409 else 500), s', w')
      | (Inr st, s', w') \<Rightarrow> (Inr st, s', w'))"

definition resume_erasure :: "nat \<Rightarrow> platform_db \<Rightarrow> (nat + erasure_state) \<times> platform_db" where
  "resume_erasure i s =
     (case resume_request i s of
        Inl e \<Rightarrow> (Inl (if e = Lookup_Error then 404 else if e = Value_Error then 409 else 500), s)
      | Inr (st, s') \<Rightarrow> (Inr st, s'))"

section \<open>The executor\<close>

fun finalize_each :: "nat list \<Rightarrow> nat \<Rightarrow> platform_db \<Rightarrow> nat \<times> platform_db" where
  "finalize_each [] n s = (n, s)"
| "finalize_each (i # is) n s =
     (case finalize_erasure Erasure_Executor i s of
        Inl e \<Rightarrow> finalize_each is n s
      | Inr (completed, s') \<Rightarrow> finalize_each is (if completed then n + 1 else n) s')"

definition finalize_due_requests :: "nat \<Rightarrow> platform_db \<Rightarrow> db_error + (nat \<times> platform_db)" where
  "finalize_due_requests limit s =
     (case due_erasure_request_ids Erasure_Executor limit s of
        Inl e \<Rightarrow> Inl e
      | Inr ids \<Rightarrow> Inr (finalize_each ids 0 s))"


section \<open>One request in the hands of the coordinator\<close>

text \<open>
  What the calls of the services, as opposed to those of an arbitrary client, keep: the
  acknowledgements of a request are those of the phases before the one it has reached, and possibly
  that one's; the vector store's reports no residual point; only a stranded request has used up its
  attempts.
\<close>

abbreviation phase_no :: "erasure_domain \<Rightarrow> nat" where
  "phase_no d \<equiv> phase_position (pending_state d)"

definition coherent :: "platform_db \<Rightarrow> erasure_request \<Rightarrow> bool" where
  "coherent s r \<longleftrightarrow> er_state r \<noteq> Executing \<and>
     (er_state r \<noteq> Complete \<longrightarrow>
        (er_attempts r < 8 \<or> er_state r = Attention_Required) \<and>
        (\<forall>d. phase_no d < phase_position (reached_phase r) \<longrightarrow> pf_acks s (er_id r, d) \<noteq> None) \<and>
        (\<forall>d. pf_acks s (er_id r, d) \<noteq> None \<longrightarrow> phase_no d \<le> phase_position (reached_phase r)) \<and>
        pf_acks s (er_id r, Qdrant) \<in> {None, Some (Some 0)})"

definition owner_order :: "erasure_domain list" where
  "owner_order = [Qdrant, Research, Learning]"

definition pending_domains :: "nat \<Rightarrow> platform_db \<Rightarrow> erasure_domain list" where
  "pending_domains i s = filter (\<lambda>d. pf_acks s (i, d) = None) owner_order"

text \<open>A pass touches nothing but its request and the acknowledgements of it.\<close>

definition only_request :: "nat \<Rightarrow> platform_db \<Rightarrow> platform_db \<Rightarrow> bool" where
  "only_request i s s' \<longleftrightarrow>
     pf_users s' = pf_users s \<and> pf_sessions s' = pf_sessions s \<and> pf_jobs s' = pf_jobs s \<and>
     pf_deliveries s' = pf_deliveries s \<and> pf_subjects s' = pf_subjects s \<and> pf_audit s' = pf_audit s \<and>
     pf_now s' = pf_now s \<and> (\<forall>j. j \<noteq> i \<longrightarrow> request_row s' j = request_row s j) \<and>
     (\<forall>j d. j \<noteq> i \<longrightarrow> pf_acks s' (j, d) = pf_acks s (j, d)) \<and>
     map_option er_user (request_row s' i) = map_option er_user (request_row s i) \<and>
     map_option er_eligible (request_row s' i) = map_option er_eligible (request_row s i)"

lemma only_request_refl [simp]: "only_request i s s"
  by (simp add: only_request_def)

lemma only_request_trans: "only_request i s s' \<Longrightarrow> only_request i s' s'' \<Longrightarrow> only_request i s s''"
  by (simp add: only_request_def)

lemma find_map_other:
  "(\<And>r. er_id (f r) = er_id r) \<Longrightarrow> j \<noteq> i \<Longrightarrow>
   find (\<lambda>r. er_id r = j) (map (\<lambda>r. if er_id r = i \<and> P r then f r else r) rs) = find (\<lambda>r. er_id r = j) rs"
  by (induction rs) auto

lemma find_map_same:
  "(\<And>r. er_id (f r) = er_id r) \<Longrightarrow> find (\<lambda>r. er_id r = i) rs = Some r \<Longrightarrow> P r \<Longrightarrow>
   find (\<lambda>r. er_id r = i) (map (\<lambda>r. if er_id r = i \<and> P r then f r else r) rs) = Some (f r)"
  by (induction rs) (auto split: if_splits)

lemma request_row_update:
  assumes "\<And>r. er_id (f r) = er_id r"
  shows "j \<noteq> i \<Longrightarrow> request_row (update_requests i P f s) j = request_row s j"
    "request_row s i = Some r \<Longrightarrow> P r \<Longrightarrow> request_row (update_requests i P f s) i = Some (f r)"
  using assms by (simp_all add: request_row_def update_requests_def find_map_other find_map_same)

lemma only_request_update:
  assumes "request_row s i = Some r" "P r" "\<And>r. er_id (f r) = er_id r" "er_user (f r) = er_user r" "er_eligible (f r) = er_eligible r"
  shows "only_request i s (update_requests i P f s)"
  using assms request_row_update(1) [where f = f and P = P, OF assms(3)]
    request_row_update(2) [where f = f and P = P, OF assms(3) assms(1,2)]
  by (simp add: only_request_def)

lemma returning_state_row:
  assumes "platform_ok g s" "request_row s i = Some r" "P r" "\<And>r. er_user (f r) = er_user r"
    and "\<And>r. P r \<Longrightarrow> active_request (f r) \<Longrightarrow> active_request r"
  shows "returning_state i P f s = Inr (Some (er_state (f r)), update_requests i P f s)"
proof -
  have r: "r \<in> set (pf_requests s)" "er_id r = i" using request_row_SomeD [OF assms(2)] by simp_all
  have "find (\<lambda>r. er_id r = i \<and> P r) (pf_requests s) = Some r"
    using platform_okD(2) [OF assms(1)] r assms(3) by (intro find_unique [of er_id]) auto
  moreover have "one_active (update_requests i P f s)"
    using platform_okD(3) [OF assms(1)] assms(4,5) by (rule one_active_update)
  ultimately show ?thesis by (simp add: returning_state_def)
qed

lemma transition_succeeds:
  assumes ok: "platform_ok g s" and r: "request_row s i = Some r"
    and edge: "erasure_transition_allowed_v1 (er_state r) t" "er_state r \<notin> {Requested, Attention_Required}" "active_request r"
    and ret: "er_state r = Retry_Wait \<Longrightarrow> t = er_resume r" and t: "t \<notin> {Complete, Retry_Wait, Attention_Required}"
  obtains r' s' where "transition i t s = Inr (t, s')" "platform_ok g s'" "only_request i s s'" "request_row s' i = Some r'"
    "pf_acks s' = pf_acks s" "er_state r' = t" "er_resume r' = er_resume r" "er_attempts r' = er_attempts r"
proof -
  let ?P = "\<lambda>q. er_state q = er_state r"
  let ?f = "\<lambda>q::erasure_request. q\<lparr>er_state := t, er_error := None, er_next := pf_now s\<rparr>"
  have act: "active_request q" if "er_state q = er_state r" for q using that edge(3) by (simp add: active_request_def)
  have ne: "er_state r \<noteq> t"
    using edge(1) by (auto simp: erasure_transition_allowed_v1_def transition_edges_def)
  have v: "transition_erasure_v1 Platform_Runtime i t (er_state r) s = Inr (Some t, update_requests i ?P ?f s)"
    using edge(1) t returning_state_row [OF ok r, of ?P ?f] act by (simp add: transition_erasure_v1_def)
  show ?thesis
  proof (rule that)
    show "transition i t s = Inr (t, update_requests i ?P ?f s)" using v r ne edge(2) ret by (auto simp: transition_def)
    show "platform_ok g (update_requests i ?P ?f s)"
      by (rule transition_ok [OF ok v]) (use edge(2) in simp)
    show "only_request i s (update_requests i ?P ?f s)" by (rule only_request_update [OF r]) simp_all
    show "request_row (update_requests i ?P ?f s) i = Some (?f r)" by (rule request_row_update(2) [OF _ r]) simp_all
  qed simp_all
qed

lemma retry_succeeds:
  assumes ok: "platform_ok g s" and r: "request_row s i = Some r" "coherent s r"
    and p: "er_state r \<in> {Qdrant_Pending, Research_Pending, Learning_Pending}"
  obtains r' s' where "record_retry i (er_state r) s = Inr (er_state r', s')" "platform_ok g s'" "only_request i s s'"
    "request_row s' i = Some r'" "pf_acks s' = pf_acks s" "coherent s' r'"
    "er_state r' = (if er_attempts r + 1 \<ge> 8 then Attention_Required else Retry_Wait)"
    "er_resume r' = er_state r" "er_attempts r' = er_attempts r + 1"
proof -
  let ?P = "\<lambda>q. er_state q = er_state r \<and> er_attempts q < 8"
  let ?f = "\<lambda>q. q\<lparr>er_state := (if er_attempts q + 1 \<ge> 8 then Attention_Required else Retry_Wait),
    er_attempts := er_attempts q + 1, er_resume := er_state r, er_error := Some ''owner command unavailable'',
    er_next := pf_now s + min 3600 (2 ^ er_attempts q * 30)\<rparr>"
  have att: "er_attempts r < 8" using r(2) p by (auto simp: coherent_def)
  have v: "record_erasure_retry_v1 Platform_Runtime i (er_state r) s = Inr (Some (er_state (?f r)), update_requests i ?P ?f s)"
    unfolding record_erasure_retry_v1_def
    using p returning_state_row [OF ok r(1), of ?P ?f] att by (auto simp: active_request_def)
  show ?thesis
  proof (rule that)
    show "record_retry i (er_state r) s = Inr (er_state (?f r), update_requests i ?P ?f s)" using v by (simp add: record_retry_def)
    show "platform_ok g (update_requests i ?P ?f s)" by (rule retry_ok [OF ok v])
    show "only_request i s (update_requests i ?P ?f s)" by (rule only_request_update [OF r(1)]) (use att in simp_all)
    show "request_row (update_requests i ?P ?f s) i = Some (?f r)" by (rule request_row_update(2) [OF _ r(1)]) (use att in simp_all)
    show "coherent (update_requests i ?P ?f s) (?f r)"
      using r(2) p att by (auto simp: coherent_def reached_phase_def)
  qed simp_all
qed


section \<open>The contract of the owner services\<close>

text \<open>
  Whatever is tracked of the owners as "owed to request \<open>i\<close> of account \<open>u\<close>" by a list of domains, a
  command to the first owing domain keeps it owed if the reply is not an acknowledgement, and settles
  it otherwise.
\<close>

definition accepted :: "(owner_target \<Rightarrow> 'w \<Rightarrow> 'w \<times> owner_reply) \<Rightarrow> erasure_phase \<Rightarrow> nat \<Rightarrow> int \<Rightarrow> 'w \<Rightarrow> bool" where
  "accepted owner ph i u w =
     (case fst (owner_command owner (phase_target ph i u) w) of
        Inl e \<Rightarrow> False
      | Inr payload \<Rightarrow> (case phase_receipt ph payload of Inl e \<Rightarrow> False | Inr rc \<Rightarrow> True))"

lemma owner_command_world: "snd (owner_command owner t w) = fst (owner t w)"
  by (auto simp: owner_command_def split: prod.split owner_reply.split)

lemma owner_command_errors: "fst (owner_command owner t w) = Inl e \<Longrightarrow> caught e"
  by (auto simp: owner_command_def caught_def split: prod.splits owner_reply.splits)

lemma phase_receipt_errors: "phase_receipt ph payload = Inl e \<Longrightarrow> caught e"
  by (auto simp: phase_receipt_def caught_def split: if_splits option.splits)

lemma phase_receipt_Inr: "phase_receipt ph payload = Inr rc \<Longrightarrow> ph_domain ph = Qdrant \<Longrightarrow> rc = Some 0"
  by (auto simp: phase_receipt_def split: if_splits option.splits)

lemma phases_cases:
  assumes "ph \<in> set phases"
  obtains "ph_domain ph = Qdrant" "ph_state ph = Qdrant_Pending" "ph_next ph = Research_Pending"
  | "ph_domain ph = Research" "ph_state ph = Research_Pending" "ph_next ph = Learning_Pending"
  | "ph_domain ph = Learning" "ph_state ph = Learning_Pending" "ph_next ph = Ready"
  using assms by (auto simp: phases_def)

lemma all_domains: "(\<forall>d. Q d) \<longleftrightarrow> Q Qdrant \<and> Q Research \<and> Q Learning"
  by (metis erasure_domain.exhaust)

lemma phase_no_domain: "ph \<in> set phases \<Longrightarrow> phase_position (ph_state ph) = phase_no (ph_domain ph)"
  by (erule phases_cases) simp_all

lemma coherentD:
  assumes "coherent s r" "er_state r \<noteq> Complete"
  shows "phase_no d < phase_position (reached_phase r) \<Longrightarrow> pf_acks s (er_id r, d) \<noteq> None"
    "pf_acks s (er_id r, d) \<noteq> None \<Longrightarrow> phase_no d \<le> phase_position (reached_phase r)"
    "er_attempts r < 8 \<or> er_state r = Attention_Required"
    "pf_acks s (er_id r, Qdrant) = Some v \<Longrightarrow> v = Some 0"
  using assms by (auto simp: coherent_def)

text \<open>A phase whose acknowledgement is there: the request is fit for the next.\<close>

lemma coherent_next:
  assumes ph: "ph \<in> set phases" and r: "coherent s r" "er_state r = ph_state ph" "er_id r = i"
    and acks: "\<And>d. d \<noteq> ph_domain ph \<Longrightarrow> pf_acks s' (i, d) = pf_acks s (i, d)"
      "pf_acks s' (i, ph_domain ph) = Some v" "ph_domain ph = Qdrant \<Longrightarrow> v = Some 0"
    and r': "er_id r' = i" "er_state r' = ph_next ph" "er_attempts r' = er_attempts r"
  shows "coherent s' r'"
    "pending_domains i s = (if pf_acks s (i, ph_domain ph) = None then [ph_domain ph] else []) @ pending_domains i s'"
proof -
  note c = r(1) [unfolded coherent_def all_domains reached_phase_def r(2,3)]
  have "coherent s' r' \<and> pending_domains i s = (if pf_acks s (i, ph_domain ph) = None then [ph_domain ph] else []) @ pending_domains i s'"
    using ph
  proof (cases rule: phases_cases)
    case 1
    then show ?thesis using acks(1) [of Research] acks(1) [of Learning] acks(2,3) c r' r(2)
      by (auto simp: coherent_def all_domains reached_phase_def pending_domains_def owner_order_def)
  next
    case 2
    then show ?thesis using acks(1) [of Qdrant] acks(1) [of Learning] acks(2,3) c r' r(2)
      by (auto simp: coherent_def all_domains reached_phase_def pending_domains_def owner_order_def)
  next
    case 3
    then show ?thesis using acks(1) [of Qdrant] acks(1) [of Research] acks(2,3) c r' r(2)
      by (auto simp: coherent_def all_domains reached_phase_def pending_domains_def owner_order_def)
  qed
  then show "coherent s' r'"
    "pending_domains i s = (if pf_acks s (i, ph_domain ph) = None then [ph_domain ph] else []) @ pending_domains i s'"
    by blast+
qed

lemma acknowledge_succeeds:
  assumes ok: "platform_ok g s" and r: "request_row s i = Some r" "er_state r = pending_state d"
  shows "acknowledge i d rc s = Inr (s\<lparr>pf_acks := (pf_acks s)((i, d) \<mapsto> rc)\<rparr>)"
proof -
  have m: "r \<in> set (pf_requests s)" "er_id r = i" using request_row_SomeD [OF r(1)] by simp_all
  have "er_state r \<noteq> Complete" "reached_phase r = pending_state d" using r(2) by (cases d; simp add: reached_phase_def)+
  moreover have "find (\<lambda>r. er_id r = i \<and> er_state r \<noteq> Complete) (pf_requests s) = Some r"
    using platform_okD(2) [OF ok] m calculation(1) by (intro find_unique [of er_id]) auto
  ultimately show ?thesis by (simp add: acknowledge_def record_erasure_ack_v1_def)
qed

locale erasure_owner =
  fixes owner :: "owner_target \<Rightarrow> 'w \<Rightarrow> 'w \<times> owner_reply"
    and owes :: "nat \<Rightarrow> int \<Rightarrow> erasure_domain list \<Rightarrow> 'w \<Rightarrow> bool"
  assumes owed: "ph \<in> set phases \<Longrightarrow> owes i u (ph_domain ph # ds) w \<Longrightarrow>
    owes i u (if accepted owner ph i u w then ds else ph_domain ph # ds) (fst (owner (phase_target ph i u) w))"
begin

text \<open>One phase: nothing left to do, done, or failed at the owner.\<close>

lemma phase_step_cases:
  assumes ok: "platform_ok g s" and r: "request_row s i = Some r" "coherent s r"
    and ph: "ph \<in> set phases" "phase_position (ph_state ph) \<le> phase_position (er_state r)" "phase_position (er_state r) \<le> 4"
    and acked: "acked (ph_domain ph) \<longleftrightarrow> pf_acks s (i, ph_domain ph) \<noteq> None"
    and w: "owes i u (pending_domains i s) w"
  obtains (skip) "phase_position (ph_state ph) < phase_position (er_state r)"
      "phase_step owner i u acked ph (er_state r) s w = (Inr (er_state r), s, w)"
  | (settled) s' r' w' where "er_state r = ph_state ph"
      "phase_step owner i u acked ph (er_state r) s w = (Inr (ph_next ph), s', w')"
      "platform_ok g s'" "only_request i s s'" "request_row s' i = Some r'" "coherent s' r'" "er_state r' = ph_next ph"
      "er_attempts r' = er_attempts r" "\<And>d. d \<noteq> ph_domain ph \<Longrightarrow> pf_acks s' (i, d) = pf_acks s (i, d)"
      "owes i u (pending_domains i s') w'"
  | (failed) e w' where "er_state r = ph_state ph" "\<not> accepted owner ph i u w"
      "phase_step owner i u acked ph (er_state r) s w = (Inl e, s, w')" "caught e" "owes i u (pending_domains i s) w'"
proof -
  have id: "er_id r = i" using request_row_SomeD [OF r(1)] by simp
  have act: "er_state r \<in> {Qdrant_Pending, Research_Pending, Learning_Pending, Ready}"
    using ph by (cases "er_state r"; cases rule: phases_cases [OF ph(1)]) simp_all
  note coh = r(2) [unfolded coherent_def]
  show ?thesis
  proof (cases "er_state r = ph_state ph")
    case False
    have lt: "phase_position (ph_state ph) < phase_position (er_state r)"
      using False ph(2) act by (cases rule: phases_cases [OF ph(1)]) auto
    moreover have "er_state r \<noteq> Complete" "reached_phase r = er_state r" using act by (auto simp: reached_phase_def)
    ultimately have "pf_acks s (i, ph_domain ph) \<noteq> None"
      using coherentD(1) [OF r(2), of "ph_domain ph"] id phase_no_domain [OF ph(1)] by simp
    then have "phase_step owner i u acked ph (er_state r) s w = (Inr (er_state r), s, w)"
      using False acked by (simp add: phase_step_def)
    with lt show ?thesis by (rule skip)
  next
    case True
    have nxt: "erasure_transition_allowed_v1 (er_state r) (ph_next ph)" "er_state r \<notin> {Requested, Attention_Required}"
      "active_request r" "er_state r \<noteq> Retry_Wait" "ph_next ph \<notin> {Complete, Retry_Wait, Attention_Required}"
      "reached_phase r = ph_state ph" "ph_state ph \<in> {Qdrant_Pending, Research_Pending, Learning_Pending}"
      using True by (cases rule: phases_cases [OF ph(1)];
        simp add: erasure_transition_allowed_v1_def transition_edges_def active_request_def reached_phase_def)+
    show ?thesis
    proof (cases "acked (ph_domain ph)")
      case acked': True
      obtain r' s' where t: "transition i (ph_next ph) s = Inr (ph_next ph, s')" "platform_ok g s'" "only_request i s s'"
          "request_row s' i = Some r'" "pf_acks s' = pf_acks s" "er_state r' = ph_next ph"
          "er_resume r' = er_resume r" "er_attempts r' = er_attempts r"
        using transition_succeeds [OF ok r(1) nxt(1-3) _ nxt(5)] nxt(4) by blast
      obtain v where v: "pf_acks s (i, ph_domain ph) = Some v" using acked' acked by auto
      show ?thesis
      proof (rule settled [OF True _ t(2-4) _ t(6,8)])
        show "phase_step owner i u acked ph (er_state r) s w = (Inr (ph_next ph), s', w)"
          using acked' True t(1) by (simp add: phase_step_def)
        have n: "coherent s' r' \<and> pending_domains i s = pending_domains i s'"
        proof -
          have "er_state r \<noteq> Complete" using act by auto
          then have "ph_domain ph = Qdrant \<Longrightarrow> v = Some 0" using coherentD(4) [OF r(2)] v id by simp
          then show ?thesis
            using coherent_next [OF ph(1) r(2) True id, of s' v r'] v t(5,6,8) request_row_SomeD(2) [OF t(4)] by simp
        qed
        show "coherent s' r'" "owes i u (pending_domains i s') w" using n w by simp_all
      qed (simp add: t(5))
    next
      case False
      then have none: "pf_acks s (i, ph_domain ph) = None" using acked by simp
      obtain ans w1 where oc: "owner_command owner (phase_target ph i u) w = (ans, w1)" by fastforce
      have w1: "w1 = fst (owner (phase_target ph i u) w)" using owner_command_world [of owner "phase_target ph i u" w] oc by simp
      define s1 where "s1 rc = s\<lparr>pf_acks := (pf_acks s)((i, ph_domain ph) \<mapsto> rc)\<rparr>" for rc :: receipt
      have pd: "pending_domains i s = ph_domain ph # pending_domains i (s1 rc)" for rc
      proof -
        have "pending_domains i s = [ph_domain ph] @ pending_domains i (s1 (Some 0))"
          using coherent_next(2) [OF ph(1) r(2) True id, of "s1 (Some 0)" "Some 0" "r\<lparr>er_state := ph_next ph\<rparr>"] none id
          by (simp add: s1_def)
        moreover have "pending_domains i (s1 (Some 0)) = pending_domains i (s1 rc)"
          by (simp add: pending_domains_def s1_def)
        ultimately show ?thesis by simp
      qed
      show ?thesis
      proof (cases "accepted owner ph i u w")
        case acc: True
        then obtain payload rc where a: "ans = Inr payload" "phase_receipt ph payload = Inr rc"
          using oc by (auto simp: accepted_def split: sum.splits)
        have st: "er_state r = pending_state (ph_domain ph)" using True by (cases rule: phases_cases [OF ph(1)]) simp_all
        have ack: "acknowledge i (ph_domain ph) rc s = Inr (s1 rc)"
          using acknowledge_succeeds [OF ok r(1) st] by (simp add: s1_def)
        have ok1: "platform_ok g (s1 rc)"
          using ack ack_ok [OF ok] by (simp add: acknowledge_def split: sum.splits)
        have row1: "request_row (s1 rc) i = Some r" using r(1) by (simp add: s1_def request_row_def)
        obtain r' s' where t: "transition i (ph_next ph) (s1 rc) = Inr (ph_next ph, s')" "platform_ok g s'"
            "only_request i (s1 rc) s'" "request_row s' i = Some r'" "pf_acks s' = pf_acks (s1 rc)" "er_state r' = ph_next ph"
            "er_resume r' = er_resume r" "er_attempts r' = er_attempts r"
          using transition_succeeds [OF ok1 row1 nxt(1-3) _ nxt(5)] nxt(4) by blast
        show ?thesis
        proof (rule settled [OF True _ t(2) _ t(4) _ t(6,8)])
          show "phase_step owner i u acked ph (er_state r) s w = (Inr (ph_next ph), s', w1)"
            using False True oc a ack t(1) by (simp add: phase_step_def)
          show "only_request i s s'"
            by (rule only_request_trans [OF _ t(3)]) (simp add: only_request_def s1_def request_row_def)
          show "coherent s' r'"
            by (rule coherent_next(1) [OF ph(1) r(2) True id, of s' rc])
               (use t request_row_SomeD(2) [OF t(4)] phase_receipt_Inr [OF a(2)] in \<open>simp_all add: s1_def\<close>)
          show "pf_acks s' (i, d) = pf_acks s (i, d)" if "d \<noteq> ph_domain ph" for d using that t(5) by (simp add: s1_def)
          have "pending_domains i s' = pending_domains i (s1 rc)" using t(5) by (simp add: pending_domains_def)
          then show "owes i u (pending_domains i s') w1"
            using owed [OF ph(1), of i u "pending_domains i (s1 rc)" w] w pd [of rc] acc w1 by simp
        qed
      next
        case rej: False
        then have "\<exists>e. caught e \<and> phase_step owner i u acked ph (er_state r) s w = (Inl e, s, w1)"
          using False True oc owner_command_errors [of owner "phase_target ph i u" w] phase_receipt_errors [of ph]
          by (auto simp: accepted_def phase_step_def split: sum.splits)
        then obtain e where e: "caught e" "phase_step owner i u acked ph (er_state r) s w = (Inl e, s, w1)" by blast
        have "owes i u (pending_domains i s) w1"
          using owed [OF ph(1), of i u "pending_domains i (s1 None)" w] w pd [of None] rej w1 by simp
        with True rej e show ?thesis by (intro failed)
      qed
    qed
  qed
qed

end


section \<open>A whole pass\<close>

text \<open>How a pass that reached the owners ends: all phases settled, or one more attempt used up.\<close>

definition pass_end :: "erasure_request \<Rightarrow> erasure_request \<Rightarrow> bool \<Rightarrow> bool" where
  "pass_end r r' good \<longleftrightarrow>
     (if good then er_state r' = Ready \<and> er_attempts r' = er_attempts r
      else er_attempts r' = er_attempts r + 1
        \<and> er_state r' = (if er_attempts r + 1 \<ge> 8 then Attention_Required else Retry_Wait))"

lemma drop_phases_Nil: "drop k phases = [] \<Longrightarrow> 3 \<le> k"
  by (simp add: phases_def)

lemma drop_phases_Cons:
  assumes "drop k phases = ph # phs"
  shows "ph \<in> set phases" "phase_position (ph_state ph) = Suc k" "phs = drop (Suc k) phases"
    "phase_position (ph_next ph) = Suc (Suc k)" "phase_position (ph_next ph) \<le> 4"
    "b \<in> set phs \<Longrightarrow> ph_domain b \<noteq> ph_domain ph"
proof -
  have "k < 3" using assms by (cases "k < 3") (simp_all add: phases_def)
  then consider "k = 0" | "k = 1" | "k = 2" by linarith
  then have "ph \<in> set phases \<and> phase_position (ph_state ph) = Suc k \<and> phs = drop (Suc k) phases
    \<and> phase_position (ph_next ph) = Suc (Suc k) \<and> phase_position (ph_next ph) \<le> 4
    \<and> (b \<in> set phs \<longrightarrow> ph_domain b \<noteq> ph_domain ph)"
    by cases (use assms in \<open>auto simp: phases_def\<close>)
  then show "ph \<in> set phases" "phase_position (ph_state ph) = Suc k" "phs = drop (Suc k) phases"
    "phase_position (ph_next ph) = Suc (Suc k)" "phase_position (ph_next ph) \<le> 4"
    "b \<in> set phs \<Longrightarrow> ph_domain b \<noteq> ph_domain ph" by blast+
qed

lemma all_phases: "phases = drop 0 phases"
  by simp

lemma phase_position_4: "phase_position p = 4 \<longleftrightarrow> p = Ready"
  by (cases p) simp_all

context erasure_owner
begin

lemma advance_phases_cases:
  assumes "platform_ok g s" "request_row s i = Some r" "coherent s r" "phase_position (er_state r) \<le> 4"
    and "phs = drop k phases" "k < phase_position (er_state r)"
    and "\<forall>ph \<in> set phs. acked (ph_domain ph) \<longleftrightarrow> pf_acks s (i, ph_domain ph) \<noteq> None"
    and "owes i u (pending_domains i s) w"
  shows "\<exists>s' r' w'. advance_phases owner i u acked phs (er_state r) s w = (Inr (er_state r'), s', w')
      \<and> platform_ok g s' \<and> only_request i s s' \<and> request_row s' i = Some r' \<and> coherent s' r'
      \<and> owes i u (pending_domains i s') w'
      \<and> (pass_end r r' True \<or> pass_end r r' False \<and> (\<exists>ph \<in> set phs. \<exists>w. \<not> accepted owner ph i u w))"
  using assms
proof (induction phs arbitrary: k s r w)
  case Nil
  then have "phase_position (er_state r) = 4" using drop_phases_Nil [of k] by simp
  then have "pass_end r r True" by (simp add: pass_end_def phase_position_4)
  then show ?case using Nil.prems by (intro exI [of _ s] exI [of _ r] exI [of _ w]) simp
next
  case (Cons ph phs)
  note d = drop_phases_Cons [OF Cons.prems(5) [symmetric]]
  have acked: "acked (ph_domain ph) \<longleftrightarrow> pf_acks s (i, ph_domain ph) \<noteq> None" using Cons.prems(7) by simp
  have le: "phase_position (ph_state ph) \<le> phase_position (er_state r)" using d(2) Cons.prems(6) by simp
  from Cons.prems(1-3) d(1) le Cons.prems(4) acked Cons.prems(8) show ?case
  proof (cases rule: phase_step_cases)
    case skip
    have lt: "Suc k < phase_position (er_state r)" using skip(1) d(2) by simp
    have "\<forall>b \<in> set phs. acked (ph_domain b) \<longleftrightarrow> pf_acks s (i, ph_domain b) \<noteq> None" using Cons.prems(7) by simp
    from Cons.IH [OF Cons.prems(1-4) d(3) lt this Cons.prems(8)] show ?thesis using skip(2) by auto
  next
    case (settled s' r' w')
    have pos: "phase_position (er_state r') \<le> 4" "Suc k < phase_position (er_state r')" using settled(7) d(4,5) by simp_all
    have ack: "\<forall>b \<in> set phs. acked (ph_domain b) \<longleftrightarrow> pf_acks s' (i, ph_domain b) \<noteq> None"
      using Cons.prems(7) d(6) settled(9) by simp
    from Cons.IH [OF settled(3,5,6) pos(1) d(3) pos(2) ack settled(10)]
    obtain s2 r2 w2 where 2: "advance_phases owner i u acked phs (er_state r') s' w' = (Inr (er_state r2), s2, w2)"
        "platform_ok g s2" "only_request i s' s2" "request_row s2 i = Some r2" "coherent s2 r2"
        "owes i u (pending_domains i s2) w2"
        "pass_end r' r2 True \<or> pass_end r' r2 False \<and> (\<exists>ph \<in> set phs. \<exists>w. \<not> accepted owner ph i u w)" by blast
    have "only_request i s s2" by (rule only_request_trans [OF settled(4) 2(3)])
    moreover have "pass_end r r2 True \<or> pass_end r r2 False \<and> (\<exists>ph \<in> set (ph # phs). \<exists>w. \<not> accepted owner ph i u w)"
      using 2(7) settled(8) by (auto simp: pass_end_def)
    moreover have "advance_phases owner i u acked (ph # phs) (er_state r) s w = (Inr (er_state r2), s2, w2)"
      using settled(2,7) 2(1) by simp
    ultimately show ?thesis using 2(2,4-6) by blast
  next
    case (failed e w')
    have p: "er_state r \<in> {Qdrant_Pending, Research_Pending, Learning_Pending}"
      using failed(1) by (cases rule: phases_cases [OF d(1)]) simp_all
    obtain r' s' where rt: "record_retry i (er_state r) s = Inr (er_state r', s')" "platform_ok g s'" "only_request i s s'"
        "request_row s' i = Some r'" "pf_acks s' = pf_acks s" "coherent s' r'"
        "er_state r' = (if er_attempts r + 1 \<ge> 8 then Attention_Required else Retry_Wait)"
        "er_resume r' = er_state r" "er_attempts r' = er_attempts r + 1"
      using retry_succeeds [OF Cons.prems(1-3) p] by blast
    have "advance_phases owner i u acked (ph # phs) (er_state r) s w = (Inr (er_state r'), s', w')"
      using failed(3,4) rt(1) by simp
    moreover have "pending_domains i s' = pending_domains i s" using rt(5) by (simp add: pending_domains_def)
    moreover have "pass_end r r' False" using rt(7,9) by (simp add: pass_end_def)
    ultimately show ?thesis using rt(2-4,6) failed(2,5) by auto
  qed
qed

lemma process_request_cases:
  assumes ok: "platform_ok g s" and r: "request_row s i = Some r" "coherent s r"
    and w: "owes i (er_user r) (pending_domains i s) w"
  obtains (idle) res where "process_request owner clock i s w = (res, s, w)"
      "res = (if er_state r \<in> {Complete, Attention_Required, Ready} then Inr (er_state r) else Inl Not_Eligible)"
      "er_state r \<in> {Complete, Attention_Required, Ready} \<or>
        \<not> (grace_elapsed clock (r, Option.bind (user_row s (er_user r)) ac_deleted) \<and> (er_state r = Requested \<longrightarrow> grace_over s r))"
  | (run) s' r' w' where "process_request owner clock i s w = (Inr (er_state r'), s', w')"
      "er_state r \<in> {Requested, Qdrant_Pending, Research_Pending, Learning_Pending, Retry_Wait}"
      "er_state r = Requested \<Longrightarrow> grace_over s r"
      "grace_elapsed clock (r, Option.bind (user_row s (er_user r)) ac_deleted)"
      "platform_ok g s'" "only_request i s s'" "request_row s' i = Some r'" "coherent s' r'"
      "owes i (er_user r) (pending_domains i s') w'"
      "pass_end r r' True \<or> pass_end r r' False \<and> (\<exists>ph \<in> set phases. \<exists>w. \<not> accepted owner ph i (er_user r) w)"
proof -
  let ?del = "Option.bind (user_row s (er_user r)) ac_deleted"
  have snap: "get_request i s = Some (r, ?del)" using r(1) by (simp add: get_request_def)
  have id: "er_id r = i" using request_row_SomeD [OF r(1)] by simp
  show ?thesis
  proof (cases "er_state r \<in> {Complete, Attention_Required, Ready}")
    case True
    then show ?thesis by (intro idle [of "Inr (er_state r)"]) (auto simp: process_request_def snap)
  next
    case open_state: False
    show ?thesis
    proof (cases "grace_elapsed clock (r, ?del)")
      case False
      then show ?thesis using open_state by (intro idle [of "Inl Not_Eligible"]) (auto simp: process_request_def snap)
    next
      case elapsed: True
      then obtain d where d: "?del = Some d" by (auto simp: grace_elapsed_def split: option.splits)
      have ex: "er_state r \<noteq> Executing" using r(2) by (simp add: coherent_def)
      note coh = coherentD [OF r(2)]
      consider (requested) "er_state r = Requested" | (waiting) "er_state r = Retry_Wait"
        | (phase) "er_state r \<in> {Qdrant_Pending, Research_Pending, Learning_Pending}"
        using open_state ex by (cases "er_state r") auto
      then show ?thesis
      proof cases
        case requested
        have over: "grace_over s r \<longleftrightarrow> er_eligible r \<le> pf_now s \<and> d + grace \<le> pf_now s" using d by (simp add: grace_over_def)
        show ?thesis
        proof (cases "grace_over s r")
          case False
          then have "begin_destructive_phases i s = Inl Value_Error"
            using over d r(1) requested by (simp add: begin_destructive_phases_def begin_erasure_destructive_v1_def)
          then show ?thesis using open_state requested elapsed False
            by (intro idle [of "Inl Not_Eligible"]) (simp_all add: process_request_def snap)
        next
          case True
          let ?r = "r\<lparr>er_state := Qdrant_Pending\<rparr>"
          let ?s = "update_requests i (\<lambda>r. er_state r = Requested) (\<lambda>r. r\<lparr>er_state := Qdrant_Pending\<rparr>) s"
          have b: "begin_erasure_destructive_v1 Platform_Runtime i s = Inr (?r, ?s)"
            using True over d r(1) requested by (simp add: begin_erasure_destructive_v1_def)
          have ok1: "platform_ok g ?s" by (rule begin_ok [OF ok b])
          have row1: "request_row ?s i = Some ?r" by (rule request_row_update(2) [OF _ r(1)]) (simp_all add: requested)
          have none: "pf_acks s (i, d) = None" for d
          proof (rule ccontr)
            assume "pf_acks s (i, d) \<noteq> None"
            then show False using coh(2) [of d] requested id by (cases d; simp add: reached_phase_def)
          qed
          have coh1: "coherent ?s ?r" using r(2) requested none id by (simp add: coherent_def reached_phase_def all_domains)
          have acks: "\<forall>ph \<in> set phases. acknowledged_domains i ?s (ph_domain ph) \<longleftrightarrow> pf_acks ?s (i, ph_domain ph) \<noteq> None"
            by (simp add: acknowledged_domains_def)
          have w1: "owes i (er_user r) (pending_domains i ?s) w" using w by (simp add: pending_domains_def)
          have bounds: "phase_position (er_state ?r) \<le> 4" "0 < phase_position (er_state ?r)" by simp_all
          obtain s' r' w' where a: "advance_phases owner i (er_user r) (acknowledged_domains i ?s) phases (er_state ?r) ?s w = (Inr (er_state r'), s', w')"
              "platform_ok g s'" "only_request i ?s s'" "request_row s' i = Some r'" "coherent s' r'"
              "owes i (er_user r) (pending_domains i s') w'"
              "pass_end ?r r' True \<or> pass_end ?r r' False \<and> (\<exists>ph \<in> set phases. \<exists>w. \<not> accepted owner ph i (er_user r) w)"
            using advance_phases_cases [OF ok1 row1 coh1 bounds(1) all_phases bounds(2) acks w1] by blast
          have "only_request i s s'"
            by (rule only_request_trans [OF only_request_update [OF r(1)] a(3)]) (simp_all add: requested)
          moreover have "process_request owner clock i s w = (Inr (er_state r'), s', w')"
            using a(1) b elapsed requested by (simp add: process_request_def snap begin_destructive_phases_def)
          ultimately show ?thesis using a(2,4-7) requested True elapsed by (intro run) (auto simp: pass_end_def)
        qed
      next
        case phase
        then have bounds: "phase_position (er_state r) \<le> 4" "0 < phase_position (er_state r)" by auto
        have acks: "\<forall>ph \<in> set phases. acknowledged_domains i s (ph_domain ph) \<longleftrightarrow> pf_acks s (i, ph_domain ph) \<noteq> None"
          by (simp add: acknowledged_domains_def)
        obtain s' r' w' where a: "advance_phases owner i (er_user r) (acknowledged_domains i s) phases (er_state r) s w = (Inr (er_state r'), s', w')"
            "platform_ok g s'" "only_request i s s'" "request_row s' i = Some r'" "coherent s' r'"
            "owes i (er_user r) (pending_domains i s') w'"
            "pass_end r r' True \<or> pass_end r r' False \<and> (\<exists>ph \<in> set phases. \<exists>w. \<not> accepted owner ph i (er_user r) w)"
          using advance_phases_cases [OF ok r bounds(1) all_phases bounds(2) acks w] by blast
        have "process_request owner clock i s w = (Inr (er_state r'), s', w')"
          using a(1) elapsed phase by (auto simp: process_request_def snap)
        then show ?thesis using a(2-7) phase elapsed by (intro run) auto
      next
        case waiting
        have res: "er_resume r \<in> {Qdrant_Pending, Research_Pending, Learning_Pending}"
          using request_ok_basicD platform_okD(4) [OF ok] request_row_SomeD [OF r(1)] by blast
        have edge: "erasure_transition_allowed_v1 (er_state r) (er_resume r)" "active_request r"
          "er_resume r \<notin> {Complete, Retry_Wait, Attention_Required}"
          using res waiting by (auto simp: erasure_transition_allowed_v1_def transition_edges_def active_request_def)
        obtain r1 s1 where t: "transition i (er_resume r) s = Inr (er_resume r, s1)" "platform_ok g s1" "only_request i s s1"
            "request_row s1 i = Some r1" "pf_acks s1 = pf_acks s" "er_state r1 = er_resume r"
            "er_resume r1 = er_resume r" "er_attempts r1 = er_attempts r"
        proof (rule transition_succeeds [OF ok r(1) edge(1) _ edge(2) refl edge(3)])
          show "er_state r \<notin> {Requested, Attention_Required}" using waiting by simp
        qed
        have u1: "er_user r1 = er_user r" "er_id r1 = i" using t(3,4) r(1) request_row_SomeD [OF t(4)] by (simp_all add: only_request_def)
        have coh1: "coherent s1 r1"
          using r(2) res waiting t(5-8) u1 id by (auto simp: coherent_def reached_phase_def)
        have bounds: "phase_position (er_state r1) \<le> 4" "0 < phase_position (er_state r1)" using res t(6) by auto
        have acks: "\<forall>ph \<in> set phases. acknowledged_domains i s (ph_domain ph) \<longleftrightarrow> pf_acks s1 (i, ph_domain ph) \<noteq> None"
          by (simp add: acknowledged_domains_def t(5))
        have w1: "owes i (er_user r) (pending_domains i s1) w" using w by (simp add: pending_domains_def t(5))
        obtain s' r' w' where a: "advance_phases owner i (er_user r) (acknowledged_domains i s) phases (er_state r1) s1 w = (Inr (er_state r'), s', w')"
            "platform_ok g s'" "only_request i s1 s'" "request_row s' i = Some r'" "coherent s' r'"
            "owes i (er_user r) (pending_domains i s') w'"
            "pass_end r1 r' True \<or> pass_end r1 r' False \<and> (\<exists>ph \<in> set phases. \<exists>w. \<not> accepted owner ph i (er_user r) w)"
          using advance_phases_cases [OF t(2,4) coh1 bounds(1) all_phases bounds(2) acks w1] by blast
        have "only_request i s s'" by (rule only_request_trans [OF t(3) a(3)])
        moreover have "process_request owner clock i s w = (Inr (er_state r'), s', w')"
          using a(1) elapsed waiting t(1,6) by (simp add: process_request_def snap Let_def)
        ultimately show ?thesis using a(2,4-7) waiting elapsed t(8) by (intro run) (auto simp: pass_end_def)
      qed
    qed
  qed
qed

end


section \<open>The life of a request\<close>

text \<open>
  Passes of the coordinator or of an administrator over any requests, on whatever clock, operators
  that resume stranded requests, finalization by the executor, and time.
\<close>

datatype erasure_event = Pass nat int | Waits nat | Operator_Resumes nat | Executor_Finalizes nat

fun erasure_event_step ::
  "(owner_target \<Rightarrow> 'w \<Rightarrow> 'w \<times> owner_reply) \<Rightarrow> platform_db \<times> 'w \<Rightarrow> erasure_event \<Rightarrow> platform_db \<times> 'w" where
  "erasure_event_step owner (s, w) (Pass i clock) = snd (process_request owner clock i s w)"
| "erasure_event_step owner (s, w) (Waits n) = (s\<lparr>pf_now := pf_now s + int n\<rparr>, w)"
| "erasure_event_step owner (s, w) (Operator_Resumes i) =
     (case resume_request i s of Inl e \<Rightarrow> (s, w) | Inr (st, s') \<Rightarrow> (s', w))"
| "erasure_event_step owner (s, w) (Executor_Finalizes i) = (committed s (finalize_erasure Erasure_Executor i s), w)"

definition erasure_run ::
  "(owner_target \<Rightarrow> 'w \<Rightarrow> 'w \<times> owner_reply) \<Rightarrow> platform_db \<times> 'w \<Rightarrow> erasure_event list \<Rightarrow> platform_db \<times> 'w" where
  "erasure_run owner = foldl (erasure_event_step owner)"

definition all_coherent :: "platform_db \<Rightarrow> bool" where
  "all_coherent s \<longleftrightarrow> (\<forall>r \<in> set (pf_requests s). coherent s r)"





text \<open>Each event keeps every request coherent and its account.\<close>

interpretation any_owner: erasure_owner owner "\<lambda>i u ds w. True" for owner :: "owner_target \<Rightarrow> 'w \<Rightarrow> 'w \<times> owner_reply"
  by unfold_locales simp

lemma all_coherentD: "all_coherent s \<Longrightarrow> request_row s i = Some r \<Longrightarrow> coherent s r"
  by (auto simp: all_coherent_def dest: request_row_SomeD)

lemma all_coherentI:
  assumes "platform_ok g s" "\<And>i r. request_row s i = Some r \<Longrightarrow> coherent s r"
  shows "all_coherent s"
  unfolding all_coherent_def using assms(2) request_row_eq [OF assms(1) _ refl] by blast

lemma coherent_cong: "(\<And>d. pf_acks s' (er_id r, d) = pf_acks s (er_id r, d)) \<Longrightarrow> coherent s' r = coherent s r"
  by (simp add: coherent_def)

lemma only_request_coherent:
  assumes "platform_ok g s'" "all_coherent s" "only_request i s s'" "\<And>r. request_row s' i = Some r \<Longrightarrow> coherent s' r"
  shows "all_coherent s'"
proof (rule all_coherentI [OF assms(1)])
  fix j r assume r: "request_row s' j = Some r"
  show "coherent s' r"
  proof (cases "j = i")
    case False
    then have "coherent s r" "er_id r = j"
      using r assms(2,3) request_row_SomeD(2) [OF r] by (auto simp: only_request_def intro: all_coherentD)
    then show ?thesis using coherent_cong [of s' r s] assms(3) False by (simp add: only_request_def)
  qed (use r assms(4) in simp)
qed









section \<open>What the coordinator guarantees\<close>

text \<open>A record of the commands sent and of the replies.\<close>

definition logged ::
  "(owner_target \<Rightarrow> 'w \<Rightarrow> 'w \<times> owner_reply) \<Rightarrow> owner_target \<Rightarrow> (owner_target \<times> owner_reply) list \<times> 'w
    \<Rightarrow> ((owner_target \<times> owner_reply) list \<times> 'w) \<times> owner_reply" where
  "logged owner t lw = (let (w', reply) = owner t (snd lw) in ((fst lw @ [(t, reply)], w'), reply))"



lemma ot_request_target [simp]: "ot_request (phase_target ph i u) = i"
  by (simp add: phase_target_def)




lemma logged_owner [simp]:
  "fst (fst (logged owner t lw)) = fst lw @ [(t, snd (owner t (snd lw)))]"
  "snd (logged owner t lw) = snd (owner t (snd lw))"
  by (auto simp: logged_def split: prod.split)





text \<open>
  C16: inside the restore grace by the clock of the database, or for a restored account, no owner
  receives a command and nothing is changed, whatever the clock of the service says.
\<close>

theorem no_command_inside_grace:
  assumes "platform_ok True s" and "all_coherent s" and "request_row s i = Some r" and "\<not> grace_over s r"
  shows "\<exists>res. process_request owner clock i s w = (res, s, w)"
  using assms(1,3) all_coherentD [OF assms(2,3)] TrueI
proof (cases rule: any_owner.process_request_cases [where owner = owner and clock = clock and w = w])
  case (run s' r' w')
  obtain a d where a: "user_row s (er_user r) = Some a" "ac_deleted a = Some d"
    using run(4) by (auto simp: grace_elapsed_def split: option.splits) (metis Option.bind_eq_Some_conv)
  have m: "a \<in> set (pf_users s)" "ac_id a = er_user r" using user_row_SomeD [OF a(1)] by simp_all
  have r: "request_ok True s r" using platform_okD(4) [OF assms(1)] request_row_SomeD [OF assms(3)] by simp
  have "er_state r \<noteq> Complete" "er_state r = Requested \<Longrightarrow> grace_over s r" using run(2,3) by auto
  then have "grace_over s r"
    using disabledD(1) [OF r _ m] disabledD(2) [OF r _ m TrueI] a by (auto simp: grace_over_def)
  with assms(4) show ?thesis by simp
qed blast



lemma grace_over_elapsed:
  assumes "grace_over s r" "pf_now s \<le> clock"
  shows "grace_elapsed clock (r, Option.bind (user_row s (er_user r)) ac_deleted)"
  using assms by (auto simp: grace_over_def grace_elapsed_def split: option.splits)

lemma only_request_grace:
  assumes "only_request i s s'" "request_row s i = Some r" "request_row s' i = Some r'"
  shows "grace_over s' r' = grace_over s r" "er_user r' = er_user r"
proof -
  have "pf_users s' = pf_users s" "pf_now s' = pf_now s" "er_user r' = er_user r" "er_eligible r' = er_eligible r"
    using assms by (simp_all add: only_request_def)
  then show "grace_over s' r' = grace_over s r" "er_user r' = er_user r" by (simp_all add: grace_over_def user_row_def cong: option.case_cong)
qed

text \<open>What is owed to a request whose owners never answer stays owed.\<close>

interpretation outage: erasure_owner owner "\<lambda>i u ds w. (\<exists>ph \<in> set phases. \<exists>w. accepted owner ph i u w) \<or> ds = D"
  for owner :: "owner_target \<Rightarrow> 'w \<Rightarrow> 'w \<times> owner_reply" and D
  by unfold_locales (auto split: if_splits)

lemma coherent_Ready:
  assumes "coherent s r" "er_state r = Ready"
  shows "acks_complete s (er_id r)" "pending_domains (er_id r) s = []"
  using assms by (auto simp: coherent_def all_domains acks_complete_def pending_domains_def owner_order_def reached_phase_def)

text \<open>A pass over a request that may be advanced: it ends as the owners answer.\<close>

lemma eligible_pass:
  assumes "platform_ok g s" "all_coherent s" "request_row s i = Some r" "grace_over s r" "pf_now s \<le> clock"
    and "er_state r \<notin> {Complete, Attention_Required, Ready}"
  obtains s' r' w' where "process_request owner clock i s w = (Inr (er_state r'), s', w')" "platform_ok g s'" "all_coherent s'"
    "only_request i s s'" "request_row s' i = Some r'" "coherent s' r'"
    "\<forall>ph \<in> set phases. \<forall>w. accepted owner ph i (er_user r) w \<Longrightarrow> pass_end r r' True"
    "\<forall>ph \<in> set phases. \<forall>w. \<not> accepted owner ph i (er_user r) w \<Longrightarrow> pending_domains i s \<noteq> [] \<Longrightarrow>
       pass_end r r' False \<and> pending_domains i s' = pending_domains i s"
proof -
  have el: "grace_elapsed clock (r, Option.bind (user_row s (er_user r)) ac_deleted)" by (rule grace_over_elapsed [OF assms(4,5)])
  have D: "(\<exists>ph \<in> set phases. \<exists>w. accepted owner ph i (er_user r) w) \<or> pending_domains i s = pending_domains i s" by simp
  from assms(1,3) all_coherentD [OF assms(2,3)] D show ?thesis
  proof (cases rule: outage.process_request_cases [where owner = owner and clock = clock and w = w])
    case (idle res)
    then show ?thesis using assms(4,6) el by blast
  next
    case (run s' r' w')
    have "all_coherent s'" by (rule only_request_coherent [OF run(5) assms(2) run(6)]) (use run(7,8) in simp)
    moreover have "pass_end r r' False \<and> pending_domains i s' = pending_domains i s"
      if "\<forall>ph \<in> set phases. \<forall>w. \<not> accepted owner ph i (er_user r) w" "pending_domains i s \<noteq> []"
    proof -
      have same: "pending_domains i s' = pending_domains i s" using run(9) that(1) by blast
      have "er_state r' \<noteq> Ready" using coherent_Ready(2) [OF run(8)] request_row_SomeD(2) [OF run(7)] same that(2) by auto
      then show ?thesis using run(10) same by (auto simp: pass_end_def)
    qed
    ultimately show ?thesis using run(1,5-8,10) that by blast
  qed
qed

definition demo_request :: platform_db where
  "demo_request = (new_platform [\<lparr>ac_id = 7, ac_email = codes ''u7'', ac_role = User_Role, ac_deleted = Some 100\<rparr>,
       \<lparr>ac_id = 8, ac_email = codes ''u8'', ac_role = Admin_Role, ac_deleted = None\<rparr>] 2592100)
     \<lparr>pf_requests := [\<lparr>er_id = 1, er_user = 7, er_state = Requested, er_attempts = 0, er_resume = Qdrant_Pending,
        er_error = None, er_next = 100, er_requested = 100, er_eligible = 2592100, er_completed = None\<rparr>],
      pf_sessions := [\<lparr>se_id = 1, se_user = 7, se_expires = 300, se_revoked = Some 100, se_credential = None\<rparr>,
        \<lparr>se_id = 2, se_user = 8, se_expires = 300, se_revoked = None, se_credential = None\<rparr>]\<rparr>"



theorem no_command_inside_grace_witness:
  "\<exists>res. process_request (\<lambda>t w. (Suc w, Http_Error)) 9999999 1 (demo_request\<lparr>pf_now := 2592099\<rparr>) 0 = (res, demo_request\<lparr>pf_now := 2592099\<rparr>, 0)"
proof -
  let ?s = "demo_request\<lparr>pf_now := 2592099\<rparr>"
  obtain r where r: "request_row ?s 1 = Some r" "\<not> grace_over ?s r"
    by (auto simp: demo_request_def new_platform_def request_row_def grace_over_def)
  have "platform_ok True ?s" "all_coherent ?s"
    by (auto simp: demo_request_def new_platform_def platform_ok_eval all_coherent_def coherent_def reached_phase_def)
  from no_command_inside_grace [OF this r] show ?thesis by simp
qed


text \<open>
  With owners that never acknowledge, every pass uses up one attempt and nothing else changes
  hands; the eighth strands the request for an operator, and further passes leave it there.
\<close>

lemma outage_strands_after_eight:
  assumes "platform_ok g s" and "all_coherent s" and "request_row s i = Some r" and "grace_over s r" and "pf_now s \<le> clock"
    and "er_state r \<in> {Requested, Qdrant_Pending, Research_Pending, Learning_Pending}" and "er_attempts r = 0"
    and "\<forall>ph \<in> set phases. \<forall>w. \<not> accepted owner ph i (er_user r) w" and "pending_domains i s \<noteq> []"
    and "erasure_run owner (s, w) (replicate n (Pass i clock)) = (s', w')"
  shows "\<exists>r'. request_row s' i = Some r' \<and> er_attempts r' = min n 8 \<and> pending_domains i s' = pending_domains i s
    \<and> er_state r' = (if n = 0 then er_state r else if n < 8 then Retry_Wait else Attention_Required)"
proof -
  have "\<exists>r'. request_row s' i = Some r' \<and> er_attempts r' = min n 8 \<and> pending_domains i s' = pending_domains i s
      \<and> er_state r' = (if n = 0 then er_state r else if n < 8 then Retry_Wait else Attention_Required)
      \<and> platform_ok g s' \<and> all_coherent s' \<and> only_request i s s'"
    using assms(10)
  proof (induction n arbitrary: s' w')
    case 0
    then show ?case using assms by (simp add: erasure_run_def)
  next
    case (Suc n)
    obtain s1 w1 where run1: "erasure_run owner (s, w) (replicate n (Pass i clock)) = (s1, w1)" by fastforce
    from Suc.IH [OF this] obtain r1 where 1: "request_row s1 i = Some r1" "er_attempts r1 = min n 8"
        "pending_domains i s1 = pending_domains i s"
        "er_state r1 = (if n = 0 then er_state r else if n < 8 then Retry_Wait else Attention_Required)"
        "platform_ok g s1" "all_coherent s1" "only_request i s s1" by blast
    have step: "(s', w') = snd (process_request owner clock i s1 w1)"
      using Suc.prems run1 unfolding replicate_Suc replicate_append_same [symmetric] by (simp add: erasure_run_def)
    have g: "grace_over s1 r1" "er_user r1 = er_user r" "pf_now s1 \<le> clock"
      using only_request_grace [OF 1(7) assms(3) 1(1)] assms(4,5) 1(7) by (simp_all add: only_request_def)
    show ?case
    proof (cases "n < 8")
      case True
      then have st: "er_state r1 \<notin> {Complete, Attention_Required, Ready}" using 1(4) assms(6) by (auto split: if_splits)
      obtain r2 s2 w2 where p: "process_request owner clock i s1 w1 = (Inr (er_state r2), s2, w2)" "platform_ok g s2" "all_coherent s2"
          "only_request i s1 s2" "request_row s2 i = Some r2" "pass_end r1 r2 False" "pending_domains i s2 = pending_domains i s1"
        using eligible_pass [OF 1(5,6,1) g(1,3) st, of owner w1] assms(8,9) g(2) 1(3) by metis
      have "s' = s2" using step p(1) by simp
      then show ?thesis using p(2-7) 1(2,3) True only_request_trans [OF 1(7) p(4)] by (auto simp: pass_end_def)
    next
      case False
      then have "er_state r1 = Attention_Required" using 1(4) by simp
      then have "s' = s1" using step 1(1) by (simp add: process_request_def get_request_def)
      then show ?thesis using 1 False by auto
    qed
  qed
  then show ?thesis by blast
qed



end
