(* ===== verification/Learning_Commands.thy ===== *)
theory Learning_Commands
  imports Prelude
begin

text \<open>
  The Learning service's inbox of commands from the other domains: the idempotent application of one
  command (\<open>learning_engine/repos/domain_commands.py\<close>), the endpoints that bind a command to its
  signed assertion (\<open>learning_engine/routers/internal_domains.py\<close>), and the erasure capability
  \<open>learning.erase_user_data\<close> of \<open>db/init.sql\<close> over the thirteen tables it clears, with the foreign keys
  of those tables. The lemmas show which deliveries perform work and what an erasure leaves.
\<close>

section \<open>Tables\<close>

text \<open>Of each table the key, the owner and the foreign keys, and the columns a command writes.\<close>

record card_entry =
  ce_id :: int
  ce_deck :: "int option"
  ce_paper :: "int option"
  ce_user :: "int option"

record log_entry =
  le_card :: "int option"
  le_user :: "int option"

record task_entry =
  te_id :: int
  te_project :: "int option"
  te_parent :: "int option"
  te_user :: "int option"

record project_entry =
  pe_id :: int
  pe_user :: "int option"
  pe_collection :: "string option"

record project_child =
  pc_project :: "int option"
  pc_user :: "int option"

record owned_entry =
  oe_id :: int
  oe_user :: "int option"

record day_entry =
  de_user :: "int option"
  de_date :: int
  de_read :: "int option"

record journal_entry =
  je_user :: "int option"
  je_date :: int
  je_prompts :: string

datatype command_type = Paper_Read | Paper_Deleted | Project_Collection | Journal_Upsert | User_Erase

datatype payload = No_Payload | Paper_Payload int | Collection_Payload int string | Journal_Payload int string

record inbox_entry =
  ie_type :: command_type
  ie_request :: nat
  ie_user :: "int option"
  ie_paper :: "int option"
  ie_payload :: payload
  ie_processed :: bool

text \<open>\<open>ld_accounts\<close> are the accounts of the Platform schema that the foreign keys refer to.\<close>

record learning_db =
  ld_today :: int
  ld_accounts :: "int list"
  ld_inbox :: "inbox_entry list"
  ld_logs :: "log_entry list"
  ld_cards :: "card_entry list"
  ld_task_links :: "(int \<times> int) list"
  ld_tasks :: "task_entry list"
  ld_project_links :: "(int \<times> int) list"
  ld_questions :: "project_child list"
  ld_milestones :: "project_child list"
  ld_projects :: "project_entry list"
  ld_decks :: "owned_entry list"
  ld_intents :: "owned_entry list"
  ld_days :: "day_entry list"
  ld_focus :: "owned_entry list"
  ld_journal :: "journal_entry list"

section \<open>Deletes with their cascades\<close>

definition delete_cards :: "(card_entry \<Rightarrow> bool) \<Rightarrow> learning_db \<Rightarrow> learning_db" where
  "delete_cards P db =
     (let gone = map ce_id (filter P (ld_cards db))
      in db\<lparr>ld_cards := filter (\<lambda>c. \<not> P c) (ld_cards db),
            ld_logs := filter (\<lambda>l. le_card l \<notin> Some ` set gone) (ld_logs db)\<rparr>)"

text \<open>Deleting a task deletes its subtasks: the tasks reached in as many rounds as there are tasks.\<close>

fun with_subtasks :: "nat \<Rightarrow> task_entry list \<Rightarrow> int list \<Rightarrow> int list" where
  "with_subtasks 0 ts gone = gone"
| "with_subtasks (Suc n) ts gone =
     with_subtasks n ts (gone @ map te_id (filter (\<lambda>t. te_id t \<notin> set gone \<and> te_parent t \<in> Some ` set gone) ts))"

definition delete_tasks :: "(task_entry \<Rightarrow> bool) \<Rightarrow> learning_db \<Rightarrow> learning_db" where
  "delete_tasks P db =
     (let gone = with_subtasks (length (ld_tasks db)) (ld_tasks db) (map te_id (filter P (ld_tasks db)))
      in db\<lparr>ld_tasks := filter (\<lambda>t. te_id t \<notin> set gone) (ld_tasks db),
            ld_task_links := filter (\<lambda>l. fst l \<notin> set gone) (ld_task_links db)\<rparr>)"

definition delete_projects :: "(project_entry \<Rightarrow> bool) \<Rightarrow> learning_db \<Rightarrow> learning_db" where
  "delete_projects P db =
     (let gone = map pe_id (filter P (ld_projects db));
          db = delete_tasks (\<lambda>t. te_project t \<in> Some ` set gone) db
      in db\<lparr>ld_projects := filter (\<lambda>p. \<not> P p) (ld_projects db),
            ld_project_links := filter (\<lambda>l. fst l \<notin> set gone) (ld_project_links db),
            ld_questions := filter (\<lambda>q. pc_project q \<notin> Some ` set gone) (ld_questions db),
            ld_milestones := filter (\<lambda>m. pc_project m \<notin> Some ` set gone) (ld_milestones db)\<rparr>)"

definition delete_decks :: "(owned_entry \<Rightarrow> bool) \<Rightarrow> learning_db \<Rightarrow> learning_db" where
  "delete_decks P db =
     (let gone = map oe_id (filter P (ld_decks db));
          db = delete_cards (\<lambda>c. ce_deck c \<in> Some ` set gone) db
      in db\<lparr>ld_decks := filter (\<lambda>d. \<not> P d) (ld_decks db)\<rparr>)"

text \<open>The rows of the erased account's tasks and projects, found by the join with the parent.\<close>

definition task_ids_of :: "int \<Rightarrow> learning_db \<Rightarrow> int set" where
  "task_ids_of u db = te_id ` set (filter (\<lambda>t. te_user t = Some u) (ld_tasks db))"

definition project_ids_of :: "int \<Rightarrow> learning_db \<Rightarrow> int set" where
  "project_ids_of u db = pe_id ` set (filter (\<lambda>p. pe_user p = Some u) (ld_projects db))"

section \<open>The erasure capability\<close>

definition clear_study :: "int \<Rightarrow> learning_db \<Rightarrow> learning_db" where
  "clear_study u db =
     (let db = db\<lparr>ld_logs := filter (\<lambda>l. le_user l \<noteq> Some u) (ld_logs db)\<rparr>;
          db = delete_cards (\<lambda>c. ce_user c = Some u) db;
          db = db\<lparr>ld_task_links := filter (\<lambda>l. fst l \<notin> task_ids_of u db) (ld_task_links db)\<rparr>;
          db = delete_tasks (\<lambda>t. te_user t = Some u) db;
          db = db\<lparr>ld_project_links := filter (\<lambda>l. fst l \<notin> project_ids_of u db) (ld_project_links db)\<rparr>;
          db = db\<lparr>ld_questions := filter (\<lambda>q. pc_user q \<noteq> Some u) (ld_questions db)\<rparr>;
          db = db\<lparr>ld_milestones := filter (\<lambda>m. pc_user m \<noteq> Some u) (ld_milestones db)\<rparr>;
          db = delete_projects (\<lambda>p. pe_user p = Some u) db
      in delete_decks (\<lambda>d. oe_user d = Some u) db)"

definition clear_activity :: "int \<Rightarrow> learning_db \<Rightarrow> learning_db" where
  "clear_activity u db =
     db\<lparr>ld_intents := filter (\<lambda>r. oe_user r \<noteq> Some u) (ld_intents db),
        ld_days := filter (\<lambda>r. de_user r \<noteq> Some u) (ld_days db),
        ld_focus := filter (\<lambda>r. oe_user r \<noteq> Some u) (ld_focus db),
        ld_journal := filter (\<lambda>r. je_user r \<noteq> Some u) (ld_journal db)\<rparr>"

definition scrub :: "int \<Rightarrow> nat \<Rightarrow> inbox_entry \<Rightarrow> inbox_entry" where
  "scrub u rq ie =
     (if ie_type ie = User_Erase \<and> ie_request ie = rq \<and> ie_user ie = Some u
      then ie\<lparr>ie_user := None, ie_paper := None, ie_payload := No_Payload\<rparr> else ie)"

definition clear_inbox :: "int \<Rightarrow> nat \<Rightarrow> learning_db \<Rightarrow> learning_db" where
  "clear_inbox u rq db =
     db\<lparr>ld_inbox := map (scrub u rq)
          (filter (\<lambda>ie. \<not> (ie_user ie = Some u \<and> ie_request ie \<noteq> rq)) (ld_inbox db))\<rparr>"

definition erase_user_data :: "int \<Rightarrow> nat \<Rightarrow> learning_db \<Rightarrow> learning_db" where
  "erase_user_data u rq db = clear_inbox u rq (clear_activity u (clear_study u db))"

section \<open>Applying a command\<close>

record command =
  cm_type :: command_type
  cm_request :: nat
  cm_user :: int
  cm_payload :: payload

datatype command_error = Key_Reused | Project_Unavailable | Bad_Payload | Foreign_Key

fun payload_paper :: "payload \<Rightarrow> int option" where
  "payload_paper (Paper_Payload p) = Some p"
| "payload_paper _ = None"

definition inbox_row :: "command_type \<Rightarrow> nat \<Rightarrow> learning_db \<Rightarrow> inbox_entry option" where
  "inbox_row ct rq db = find (\<lambda>ie. ie_type ie = ct \<and> ie_request ie = rq) (ld_inbox db)"

definition count_read :: "int \<Rightarrow> learning_db \<Rightarrow> command_error + learning_db" where
  "count_read u db =
     (if u \<notin> set (ld_accounts db) then Inl Foreign_Key
      else if \<exists>r \<in> set (ld_days db). de_user r = Some u \<and> de_date r = ld_today db
      then Inr (db\<lparr>ld_days := map (\<lambda>r. if de_user r = Some u \<and> de_date r = ld_today db
                   then r\<lparr>de_read := Some ((case de_read r of None \<Rightarrow> 0 | Some n \<Rightarrow> n) + 1)\<rparr> else r) (ld_days db)\<rparr>)
      else Inr (db\<lparr>ld_days := ld_days db @ [\<lparr>de_user = Some u, de_date = ld_today db, de_read = Some 1\<rparr>]\<rparr>))"

definition drop_paper :: "int \<Rightarrow> int \<Rightarrow> learning_db \<Rightarrow> learning_db" where
  "drop_paper p u db =
     (let db = delete_cards (\<lambda>c. ce_paper c = Some p \<and> ce_user c = Some u) db;
          db = db\<lparr>ld_task_links := filter (\<lambda>l. \<not> (fst l \<in> task_ids_of u db \<and> snd l = p)) (ld_task_links db)\<rparr>
      in db\<lparr>ld_project_links := filter (\<lambda>l. \<not> (fst l \<in> project_ids_of u db \<and> snd l = p)) (ld_project_links db)\<rparr>)"

definition set_collection :: "int \<Rightarrow> string \<Rightarrow> int \<Rightarrow> learning_db \<Rightarrow> command_error + learning_db" where
  "set_collection pid key u db =
     (if \<exists>p \<in> set (ld_projects db). pe_id p = pid \<and> pe_user p = Some u
      then Inr (db\<lparr>ld_projects := map (\<lambda>p. if pe_id p = pid \<and> pe_user p = Some u
                   then p\<lparr>pe_collection := Some key\<rparr> else p) (ld_projects db)\<rparr>)
      else Inl Project_Unavailable)"

definition put_journal :: "int \<Rightarrow> int \<Rightarrow> string \<Rightarrow> learning_db \<Rightarrow> command_error + learning_db" where
  "put_journal u day prompts db =
     (if u \<notin> set (ld_accounts db) then Inl Foreign_Key
      else if \<exists>r \<in> set (ld_journal db). je_user r = Some u \<and> je_date r = day
      then Inr (db\<lparr>ld_journal := map (\<lambda>r. if je_user r = Some u \<and> je_date r = day
                   then r\<lparr>je_prompts := prompts\<rparr> else r) (ld_journal db)\<rparr>)
      else Inr (db\<lparr>ld_journal := ld_journal db @ [\<lparr>je_user = Some u, je_date = day, je_prompts = prompts\<rparr>]\<rparr>))"

definition command_effect :: "command \<Rightarrow> learning_db \<Rightarrow> command_error + learning_db" where
  "command_effect cm db =
     (case cm_type cm of
        Paper_Read \<Rightarrow> count_read (cm_user cm) db
      | Paper_Deleted \<Rightarrow>
          (case payload_paper (cm_payload cm) of
             None \<Rightarrow> Inl Bad_Payload
           | Some p \<Rightarrow> Inr (drop_paper p (cm_user cm) db))
      | Project_Collection \<Rightarrow>
          (case cm_payload cm of
             Collection_Payload pid key \<Rightarrow> set_collection pid key (cm_user cm) db
           | _ \<Rightarrow> Inl Bad_Payload)
      | Journal_Upsert \<Rightarrow>
          (case cm_payload cm of
             Journal_Payload day prompts \<Rightarrow> put_journal (cm_user cm) day prompts db
           | _ \<Rightarrow> Inl Bad_Payload)
      | User_Erase \<Rightarrow> Inr (erase_user_data (cm_user cm) (cm_request cm) db))"

definition new_entry :: "command \<Rightarrow> inbox_entry" where
  "new_entry cm = \<lparr>ie_type = cm_type cm, ie_request = cm_request cm, ie_user = Some (cm_user cm),
     ie_paper = payload_paper (cm_payload cm), ie_payload = cm_payload cm, ie_processed = False\<rparr>"

definition mark_processed :: "command \<Rightarrow> learning_db \<Rightarrow> learning_db" where
  "mark_processed cm db =
     db\<lparr>ld_inbox := map (\<lambda>ie. if ie_type ie = cm_type cm \<and> ie_request ie = cm_request cm
          then ie\<lparr>ie_processed := True\<rparr> else ie) (ld_inbox db)\<rparr>"

text \<open>One transaction: an exception leaves the database as it was.\<close>

definition apply_command :: "command \<Rightarrow> learning_db \<Rightarrow> (command_error + bool) \<times> learning_db" where
  "apply_command cm db =
     (case inbox_row (cm_type cm) (cm_request cm) db of
        Some ie \<Rightarrow>
          if cm_type cm = User_Erase then (Inr False, db)
          else if ie_user ie \<noteq> Some (cm_user cm) \<or> ie_paper ie \<noteq> payload_paper (cm_payload cm)
                  \<or> ie_payload ie \<noteq> cm_payload cm
          then (Inl Key_Reused, db)
          else (Inr False, db)
      | None \<Rightarrow>
          (case command_effect cm (db\<lparr>ld_inbox := ld_inbox db @ [new_entry cm]\<rparr>) of
             Inl e \<Rightarrow> (Inl e, db)
           | Inr db' \<Rightarrow> (Inr True, mark_processed cm db')))"

section \<open>Endpoints\<close>

record signed_request =
  sr_principal :: "string option"
  sr_user :: "int option"
  sr_id :: "nat option"

datatype domain_reply = Raised nat | Done bool "journal_entry option"

definition allowed :: "string \<Rightarrow> signed_request \<Rightarrow> int \<Rightarrow> nat \<Rightarrow> bool" where
  "allowed who rq u i \<longleftrightarrow> sr_principal rq = Some who \<and> sr_user rq = Some u \<and> sr_id rq = Some i"

text \<open>A body outside its field bounds is a 422, a failed guard a 403, an exception of the store a 500.\<close>

definition command_endpoint ::
  "string \<Rightarrow> bool \<Rightarrow> command \<Rightarrow> signed_request \<Rightarrow> learning_db \<Rightarrow> domain_reply \<times> learning_db" where
  "command_endpoint who valid cm rq db =
     (if \<not> valid then (Raised 422, db)
      else if \<not> allowed who rq (cm_user cm) (cm_request cm) then (Raised 403, db)
      else (case apply_command cm db of
              (Inl e, db') \<Rightarrow> (Raised 500, db')
            | (Inr applied, db') \<Rightarrow> (Done applied None, db')))"

definition project_paper_read :: "nat \<Rightarrow> int \<Rightarrow> int \<Rightarrow> signed_request \<Rightarrow> learning_db \<Rightarrow> domain_reply \<times> learning_db" where
  "project_paper_read i u p = command_endpoint ''research'' (0 < u \<and> 0 < p)
     \<lparr>cm_type = Paper_Read, cm_request = i, cm_user = u, cm_payload = Paper_Payload p\<rparr>"

definition clean_deleted_paper :: "nat \<Rightarrow> int \<Rightarrow> int \<Rightarrow> signed_request \<Rightarrow> learning_db \<Rightarrow> domain_reply \<times> learning_db" where
  "clean_deleted_paper i u p = command_endpoint ''research'' (0 < u \<and> 0 < p)
     \<lparr>cm_type = Paper_Deleted, cm_request = i, cm_user = u, cm_payload = Paper_Payload p\<rparr>"

definition set_project_collection ::
  "int \<Rightarrow> nat \<Rightarrow> int \<Rightarrow> string \<Rightarrow> signed_request \<Rightarrow> learning_db \<Rightarrow> domain_reply \<times> learning_db" where
  "set_project_collection pid i u key = command_endpoint ''research'' (0 < u \<and> 1 \<le> length key \<and> length key \<le> 128)
     \<lparr>cm_type = Project_Collection, cm_request = i, cm_user = u, cm_payload = Collection_Payload pid key\<rparr>"

definition upsert_journal ::
  "nat \<Rightarrow> int \<Rightarrow> int \<Rightarrow> string \<Rightarrow> signed_request \<Rightarrow> learning_db \<Rightarrow> domain_reply \<times> learning_db" where
  "upsert_journal i u day prompts rq db =
     (case command_endpoint ''research'' (0 < u)
             \<lparr>cm_type = Journal_Upsert, cm_request = i, cm_user = u, cm_payload = Journal_Payload day prompts\<rparr> rq db of
        (Raised n, db') \<Rightarrow> (Raised n, db')
      | (Done applied _, db') \<Rightarrow>
          (case find (\<lambda>r. je_user r = Some u \<and> je_date r = day) (ld_journal db') of
             None \<Rightarrow> (Raised 503, db')
           | Some r \<Rightarrow> (Done applied (Some r), db')))"

definition erase_user :: "nat \<Rightarrow> int \<Rightarrow> signed_request \<Rightarrow> learning_db \<Rightarrow> domain_reply \<times> learning_db" where
  "erase_user i u = command_endpoint ''platform'' (0 < u)
     \<lparr>cm_type = User_Erase, cm_request = i, cm_user = u, cm_payload = No_Payload\<rparr>"

section \<open>What a delivery does\<close>

abbreviation command_key :: "command \<Rightarrow> command_type \<times> nat" where
  "command_key cm \<equiv> (cm_type cm, cm_request cm)"

definition inbox_keys :: "learning_db \<Rightarrow> (command_type \<times> nat) set" where
  "inbox_keys db = (\<lambda>ie. (ie_type ie, ie_request ie)) ` set (ld_inbox db)"

lemma inbox_row_None [simp]: "inbox_row ct rq db = None \<longleftrightarrow> (ct, rq) \<notin> inbox_keys db"
  by (auto simp: inbox_row_def inbox_keys_def find_None_iff)

text \<open>A key of the inbox performs nothing and changes nothing.\<close>

lemma apply_known:
  assumes "command_key cm \<in> inbox_keys db"
  shows "snd (apply_command cm db) = db" "fst (apply_command cm db) \<noteq> Inr True"
proof -
  obtain ie where "inbox_row (cm_type cm) (cm_request cm) db = Some ie"
    using assms by (cases "inbox_row (cm_type cm) (cm_request cm) db") auto
  then show "snd (apply_command cm db) = db" "fst (apply_command cm db) \<noteq> Inr True"
    by (auto simp: apply_command_def)
qed

lemma apply_new:
  assumes "command_key cm \<notin> inbox_keys db"
  shows "apply_command cm db =
    (case command_effect cm (db\<lparr>ld_inbox := ld_inbox db @ [new_entry cm]\<rparr>) of
       Inl e \<Rightarrow> (Inl e, db) | Inr db' \<Rightarrow> (Inr True, mark_processed cm db'))"
proof -
  have "inbox_row (cm_type cm) (cm_request cm) db = None" using assms by simp
  then show ?thesis by (simp add: apply_command_def del: inbox_row_None)
qed

text \<open>A command other than an erasure neither reads nor writes the inbox.\<close>

definition data :: "learning_db \<Rightarrow> learning_db" where
  "data db = db\<lparr>ld_inbox := []\<rparr>"

lemma data_simps [simp]:
  "data (db\<lparr>ld_inbox := xs\<rparr>) = data db" "data (mark_processed cm db) = data db" "data (data db) = data db"
  "data (db\<lparr>ld_today := t\<rparr>) = (data db)\<lparr>ld_today := t\<rparr>" "ld_today (data db) = ld_today db"
  by (simp_all add: data_def mark_processed_def)

lemma count_read_inbox:
  "count_read u (db\<lparr>ld_inbox := xs\<rparr>) = map_sum id (\<lambda>d. d\<lparr>ld_inbox := xs\<rparr>) (count_read u db)"
  "count_read u db = Inr db' \<Longrightarrow> ld_inbox db' = ld_inbox db"
  by (auto simp: count_read_def split: if_splits)

lemma delete_cards_inbox:
  "delete_cards P (db\<lparr>ld_inbox := xs\<rparr>) = (delete_cards P db)\<lparr>ld_inbox := xs\<rparr>" "ld_inbox (delete_cards P db) = ld_inbox db"
  by (simp_all add: delete_cards_def Let_def)

lemma owner_ids_inbox:
  "task_ids_of u (db\<lparr>ld_inbox := xs\<rparr>) = task_ids_of u db" "project_ids_of u (db\<lparr>ld_inbox := xs\<rparr>) = project_ids_of u db"
  "project_ids_of u (db\<lparr>ld_task_links := ls\<rparr>) = project_ids_of u db"
  by (simp_all add: task_ids_of_def project_ids_of_def)

lemma drop_paper_inbox:
  "drop_paper p u (db\<lparr>ld_inbox := xs\<rparr>) = (drop_paper p u db)\<lparr>ld_inbox := xs\<rparr>" "ld_inbox (drop_paper p u db) = ld_inbox db"
  by (simp_all add: drop_paper_def delete_cards_inbox Let_def owner_ids_inbox)

lemma set_collection_inbox:
  "set_collection pid key u (db\<lparr>ld_inbox := xs\<rparr>) = map_sum id (\<lambda>d. d\<lparr>ld_inbox := xs\<rparr>) (set_collection pid key u db)"
  "set_collection pid key u db = Inr db' \<Longrightarrow> ld_inbox db' = ld_inbox db"
  by (auto simp: set_collection_def split: if_splits)

lemma put_journal_inbox:
  "put_journal u day pr (db\<lparr>ld_inbox := xs\<rparr>) = map_sum id (\<lambda>d. d\<lparr>ld_inbox := xs\<rparr>) (put_journal u day pr db)"
  "put_journal u day pr db = Inr db' \<Longrightarrow> ld_inbox db' = ld_inbox db"
  by (auto simp: put_journal_def split: if_splits)

lemmas step_inbox = count_read_inbox drop_paper_inbox set_collection_inbox put_journal_inbox

lemma effect_inbox:
  assumes "cm_type cm \<noteq> User_Erase"
  shows "command_effect cm (db\<lparr>ld_inbox := xs\<rparr>) = map_sum id (\<lambda>d. d\<lparr>ld_inbox := xs\<rparr>) (command_effect cm db)"
    "command_effect cm db = Inr db' \<Longrightarrow> ld_inbox db' = ld_inbox db"
  using assms
  by (simp add: command_effect_def step_inbox(1,3,5,7) split: command_type.split option.split payload.split)
    (use assms in \<open>auto simp: command_effect_def step_inbox split: command_type.splits option.splits payload.splits dest: step_inbox(2,6,8)\<close>)

lemma mark_processed_keys [simp]: "inbox_keys (mark_processed cm db) = inbox_keys db"
proof -
  have "map (\<lambda>ie. (ie_type ie, ie_request ie)) (ld_inbox (mark_processed cm db)) = map (\<lambda>ie. (ie_type ie, ie_request ie)) (ld_inbox db)"
    by (simp add: mark_processed_def)
  then have "set (map (\<lambda>ie. (ie_type ie, ie_request ie)) (ld_inbox (mark_processed cm db))) = set (map (\<lambda>ie. (ie_type ie, ie_request ie)) (ld_inbox db))"
    by (rule arg_cong)
  then show ?thesis unfolding inbox_keys_def by simp
qed

lemma apply_performed:
  assumes "cm_type cm \<noteq> User_Erase" "apply_command cm db = (Inr True, db')"
  shows "command_key cm \<notin> inbox_keys db" "inbox_keys db' = insert (command_key cm) (inbox_keys db)"
    "command_effect cm (data db) = Inr (data db')"
proof -
  show new: "command_key cm \<notin> inbox_keys db" using apply_known(2) [of cm db] assms(2) by auto
  obtain d where d: "command_effect cm (db\<lparr>ld_inbox := ld_inbox db @ [new_entry cm]\<rparr>) = Inr d" "db' = mark_processed cm d"
    using assms(2) unfolding apply_new [OF new] by (auto split: sum.splits)
  have "ld_inbox d = ld_inbox db @ [new_entry cm]" using effect_inbox(2) [OF assms(1) d(1)] by simp
  then show "inbox_keys db' = insert (command_key cm) (inbox_keys db)"
    unfolding d(2) mark_processed_keys by (simp add: inbox_keys_def new_entry_def)
  show "command_effect cm (data db) = Inr (data db')"
    using d effect_inbox(1) [OF assms(1), where db = db]
    by (cases "command_effect cm db") (auto simp: data_def mark_processed_def)
qed

lemma apply_not_performed:
  assumes "apply_command cm db = (r, db')" "r \<noteq> Inr True"
  shows "db' = db" "r = Inr b \<Longrightarrow> command_key cm \<in> inbox_keys db"
proof -
  have "db' = db \<and> (r = Inr b \<longrightarrow> command_key cm \<in> inbox_keys db)"
  proof (cases "command_key cm \<in> inbox_keys db")
    case True
    then show ?thesis using apply_known(1) [of cm db] assms(1) by auto
  next
    case False
    then show ?thesis using assms by (auto simp: apply_new split: sum.splits)
  qed
  then show "db' = db" "r = Inr b \<Longrightarrow> command_key cm \<in> inbox_keys db" by simp_all
qed

text \<open>Deliveries in any order and number, each on its day.\<close>

fun deliver_all :: "(int \<times> command) list \<Rightarrow> learning_db \<Rightarrow> (command_error + bool) list \<times> learning_db" where
  "deliver_all [] db = ([], db)"
| "deliver_all ((day, cm) # es) db =
     (let (r, db1) = apply_command cm (db\<lparr>ld_today := day\<rparr>); (rs, db2) = deliver_all es db1 in (r # rs, db2))"

fun performed :: "(int \<times> command) list \<Rightarrow> (command_error + bool) list \<Rightarrow> (int \<times> command) list" where
  "performed (e # es) (r # rs) = (if r = Inr True then e # performed es rs else performed es rs)"
| "performed _ _ = []"

fun effects :: "(int \<times> command) list \<Rightarrow> learning_db \<Rightarrow> command_error + learning_db" where
  "effects [] db = Inr db"
| "effects ((day, cm) # es) db = res_bind (command_effect cm (db\<lparr>ld_today := day\<rparr>)) (effects es)"

definition undated :: "learning_db \<Rightarrow> learning_db" where
  "undated db = db\<lparr>ld_inbox := [], ld_today := 0\<rparr>"

lemma effect_undated:
  assumes "cm_type cm \<noteq> User_Erase" "undated db = undated db'"
  shows "map_sum (\<lambda>e. e) undated (command_effect cm (db\<lparr>ld_today := day\<rparr>)) = map_sum (\<lambda>e. e) undated (command_effect cm (db'\<lparr>ld_today := day\<rparr>))"
proof -
  have eq: "db'\<lparr>ld_today := day\<rparr> = (db\<lparr>ld_today := day\<rparr>)\<lparr>ld_inbox := ld_inbox db'\<rparr>"
    using assms(2) by (cases db; cases db') (simp add: undated_def)
  show ?thesis unfolding eq effect_inbox(1) [OF assms(1)]
    by (cases "command_effect cm (db\<lparr>ld_today := day\<rparr>)") (simp_all add: undated_def)
qed

lemma effects_undated:
  "\<forall>e \<in> set es. cm_type (snd e) \<noteq> User_Erase \<Longrightarrow> undated db = undated db'
    \<Longrightarrow> map_sum (\<lambda>e. e) undated (effects es db) = map_sum (\<lambda>e. e) undated (effects es db')"
proof (induction es arbitrary: db db')
  case (Cons e es)
  obtain day cm where e: "e = (day, cm)" by (rule prod.exhaust)
  have eq: "map_sum (\<lambda>e. e) undated (command_effect cm (db\<lparr>ld_today := day\<rparr>)) = map_sum (\<lambda>e. e) undated (command_effect cm (db'\<lparr>ld_today := day\<rparr>))"
    by (rule effect_undated) (use Cons.prems e in simp_all)
  show ?case
  proof (cases "command_effect cm (db\<lparr>ld_today := day\<rparr>)")
    case (Inl x)
    then show ?thesis using eq by (cases "command_effect cm (db'\<lparr>ld_today := day\<rparr>)") (simp_all add: e)
  next
    case (Inr d)
    then obtain d' where d': "command_effect cm (db'\<lparr>ld_today := day\<rparr>) = Inr d'" "undated d = undated d'"
      using eq by (cases "command_effect cm (db'\<lparr>ld_today := day\<rparr>)") simp_all
    have "map_sum (\<lambda>e. e) undated (effects es d) = map_sum (\<lambda>e. e) undated (effects es d')"
      by (rule Cons.IH) (use Cons.prems d' in simp_all)
    then show ?thesis using Inr d'(1) by (simp add: e)
  qed
qed simp

lemma undated_simps [simp]: "undated (db\<lparr>ld_today := t\<rparr>) = undated db" "undated (data db) = undated db"
  by (simp_all add: undated_def data_def)

lemma inbox_keys_today [simp]: "inbox_keys (db\<lparr>ld_today := t\<rparr>) = inbox_keys db"
  by (simp add: inbox_keys_def)

lemma performed_subset: "set (performed es rs) \<subseteq> set es"
  by (induction es rs rule: performed.induct) auto

text \<open>
  C11: a command of the inbox is performed once. In any sequence of deliveries without an erasure, in
  any order, with any repetition and on any days, the deliveries that report work done have different
  keys and none that the inbox knew, what the sequence does to the tables is what these deliveries
  alone do, one after the other, and every delivery that is acknowledged has its key in the inbox.
\<close>

theorem commands_performed_once:
  assumes "\<forall>e \<in> set es. cm_type (snd e) \<noteq> User_Erase" "deliver_all es db = (rs, db')"
  shows "distinct (map (command_key \<circ> snd) (performed es rs)) \<and>
    (command_key \<circ> snd) ` set (performed es rs) \<inter> inbox_keys db = {} \<and>
    inbox_keys db' = inbox_keys db \<union> (command_key \<circ> snd) ` set (performed es rs) \<and>
    map_sum (\<lambda>e. e) undated (effects (performed es rs) db) = Inr (undated db') \<and> length rs = length es \<and>
    (\<forall>j b. rs ! j = Inr b \<and> j < length es \<longrightarrow> command_key (snd (es ! j)) \<in> inbox_keys db')"
  using assms
proof (induction es arbitrary: db rs)
  case (Cons e es)
  obtain day cm where e: "e = (day, cm)" by (rule prod.exhaust)
  obtain r db1 where a: "apply_command cm (db\<lparr>ld_today := day\<rparr>) = (r, db1)" by (rule prod.exhaust)
  obtain rs' db2 where d: "deliver_all es db1 = (rs', db2)" by (rule prod.exhaust)
  have rs: "rs = r # rs'" "db2 = db'" using Cons.prems(2) a d by (simp_all add: e)
  have ne: "cm_type cm \<noteq> User_Erase" "\<forall>e \<in> set es. cm_type (snd e) \<noteq> User_Erase" using Cons.prems(1) e by auto
  note IH = Cons.IH [OF ne(2) d [unfolded rs(2)]]
  show ?case
  proof (cases "r = Inr True")
    case False
    note np = apply_not_performed [OF a False]
    have eff: "map_sum (\<lambda>e. e) undated (effects (performed es rs') db) = map_sum (\<lambda>e. e) undated (effects (performed es rs') db1)"
      by (rule effects_undated) (use ne(2) np(1) performed_subset in auto)
    show ?thesis using IH np False eff by (auto simp: rs e nth_Cons split: nat.splits)
  next
    case True
    note pf = apply_performed [OF ne(1) a [unfolded True]]
    obtain d1 where d1: "command_effect cm (db\<lparr>ld_today := day\<rparr>) = Inr d1" "undated d1 = undated db1"
      using effect_undated [OF ne(1), of db "data db" day] pf(3)
      by (cases "command_effect cm (db\<lparr>ld_today := day\<rparr>)") simp_all
    have eff: "map_sum (\<lambda>e. e) undated (effects (performed es rs') d1) = map_sum (\<lambda>e. e) undated (effects (performed es rs') db1)"
      by (rule effects_undated) (use ne(2) d1(2) performed_subset in auto)
    show ?thesis using IH pf(1,2) True eff d1(1) by (auto simp: rs e nth_Cons split: nat.splits)
  qed
qed simp

section \<open>What an erasure leaves\<close>

text \<open>
  Nothing of an account: in the tables of \<open>learning.erase_user_data\<close>, and in the inbox among the
  commands with another request id.
\<close>

datatype learning_table =
  Review_Logs | Cards | Tasks | Project_Questions | Milestones | Projects | Decks | Daily_Intent | Daily_Log
  | Focus_Sessions | Journal_Entries

definition owners :: "learning_db \<Rightarrow> (learning_table \<times> int option) set" where
  "owners db =
     Pair Review_Logs ` le_user ` set (ld_logs db) \<union> Pair Cards ` ce_user ` set (ld_cards db) \<union>
     Pair Tasks ` te_user ` set (ld_tasks db) \<union> Pair Project_Questions ` pc_user ` set (ld_questions db) \<union>
     Pair Milestones ` pc_user ` set (ld_milestones db) \<union> Pair Projects ` pe_user ` set (ld_projects db) \<union>
     Pair Decks ` oe_user ` set (ld_decks db) \<union> Pair Daily_Intent ` oe_user ` set (ld_intents db) \<union>
     Pair Daily_Log ` de_user ` set (ld_days db) \<union> Pair Focus_Sessions ` oe_user ` set (ld_focus db) \<union>
     Pair Journal_Entries ` je_user ` set (ld_journal db)"

definition tables_free_of :: "int \<Rightarrow> learning_db \<Rightarrow> bool" where
  "tables_free_of u db \<longleftrightarrow> Some u \<notin> snd ` owners db"

definition inbox_free_of :: "int \<Rightarrow> learning_db \<Rightarrow> bool" where
  "inbox_free_of u db \<longleftrightarrow> (\<forall>ie \<in> set (ld_inbox db). ie_user ie \<noteq> Some u)"

lemma with_subtasks_extends: "set gone \<subseteq> set (with_subtasks n ts gone)"
  by (induction n ts gone rule: with_subtasks.induct) auto

text \<open>Each statement on the tables, by what it leaves.\<close>

lemma delete_cards_subsets:
  "set (ld_logs (delete_cards P db)) \<subseteq> set (ld_logs db)" "set (ld_cards (delete_cards P db)) = {c \<in> set (ld_cards db). \<not> P c}"
  by (auto simp: delete_cards_def)

lemma delete_tasks_subsets:
  "set (ld_task_links (delete_tasks P db)) \<subseteq> set (ld_task_links db)"
  "set (ld_tasks (delete_tasks P db)) \<subseteq> {t \<in> set (ld_tasks db). \<not> P t}"
  using with_subtasks_extends [of "map te_id (filter P (ld_tasks db))" "length (ld_tasks db)" "ld_tasks db"]
  by (auto simp: delete_tasks_def Let_def)

text \<open>What a cascade does not touch.\<close>

definition rest_of_cards :: "learning_db \<Rightarrow> learning_db" where
  "rest_of_cards db = db\<lparr>ld_cards := [], ld_logs := []\<rparr>"

definition rest_of_tasks :: "learning_db \<Rightarrow> learning_db" where
  "rest_of_tasks db = db\<lparr>ld_tasks := [], ld_task_links := []\<rparr>"

text \<open>
  The rows that hang off rows of an account are rows of that account, and tasks have keys of their
  own: what the application's ownership checks keep.
\<close>

definition tidy :: "int \<Rightarrow> learning_db \<Rightarrow> bool" where
  "tidy u db \<longleftrightarrow>
     (\<forall>l \<in> set (ld_logs db). \<forall>c \<in> set (ld_cards db). ce_user c = Some u \<longrightarrow> le_card l = Some (ce_id c) \<longrightarrow> le_user l = Some u) \<and>
     (\<forall>c \<in> set (ld_cards db). \<forall>d \<in> set (ld_decks db). oe_user d = Some u \<longrightarrow> ce_deck c = Some (oe_id d) \<longrightarrow> ce_user c = Some u) \<and>
     (\<forall>t \<in> set (ld_tasks db). \<forall>t' \<in> set (ld_tasks db). te_user t' = Some u \<longrightarrow>
        te_parent t = Some (te_id t') \<or> te_id t = te_id t' \<longrightarrow> te_user t = Some u) \<and>
     (\<forall>t \<in> set (ld_tasks db). \<forall>p \<in> set (ld_projects db). pe_user p = Some u \<longrightarrow> te_project t = Some (pe_id p) \<longrightarrow> te_user t = Some u) \<and>
     (\<forall>q \<in> set (ld_questions db) \<union> set (ld_milestones db). \<forall>p \<in> set (ld_projects db).
        pe_user p = Some u \<longrightarrow> pc_project q = Some (pe_id p) \<longrightarrow> pc_user q = Some u)"

text \<open>The specification: each table without the rows of the account.\<close>

definition without_account :: "int \<Rightarrow> learning_db \<Rightarrow> learning_db" where
  "without_account u db =
     db\<lparr>ld_logs := filter (\<lambda>l. le_user l \<noteq> Some u) (ld_logs db),
        ld_cards := filter (\<lambda>c. ce_user c \<noteq> Some u) (ld_cards db),
        ld_task_links := filter (\<lambda>l. fst l \<notin> task_ids_of u db) (ld_task_links db),
        ld_tasks := filter (\<lambda>t. te_user t \<noteq> Some u) (ld_tasks db),
        ld_project_links := filter (\<lambda>l. fst l \<notin> project_ids_of u db) (ld_project_links db),
        ld_questions := filter (\<lambda>q. pc_user q \<noteq> Some u) (ld_questions db),
        ld_milestones := filter (\<lambda>m. pc_user m \<noteq> Some u) (ld_milestones db),
        ld_projects := filter (\<lambda>p. pe_user p \<noteq> Some u) (ld_projects db),
        ld_decks := filter (\<lambda>d. oe_user d \<noteq> Some u) (ld_decks db),
        ld_intents := filter (\<lambda>r. oe_user r \<noteq> Some u) (ld_intents db),
        ld_days := filter (\<lambda>r. de_user r \<noteq> Some u) (ld_days db),
        ld_focus := filter (\<lambda>r. oe_user r \<noteq> Some u) (ld_focus db),
        ld_journal := filter (\<lambda>r. je_user r \<noteq> Some u) (ld_journal db)\<rparr>"













lemma tidy_inbox [simp]: "tidy u (db\<lparr>ld_inbox := xs\<rparr>) = tidy u db"
  by (simp add: tidy_def)

lemma without_account_inbox [simp]:
  "without_account u (db\<lparr>ld_inbox := xs\<rparr>) = (without_account u db)\<lparr>ld_inbox := xs\<rparr>" "ld_inbox (without_account u db) = ld_inbox db"
  by (simp_all add: without_account_def task_ids_of_def project_ids_of_def)



lemma replayed_erasure:
  assumes "command_key cm \<in> inbox_keys db" "cm_type cm = User_Erase"
  shows "apply_command cm db = (Inr False, db)"
proof -
  obtain ie where "inbox_row (cm_type cm) (cm_request cm) db = Some ie"
    using assms(1) by (cases "inbox_row (cm_type cm) (cm_request cm) db") auto
  then show ?thesis using assms(2) by (simp add: apply_command_def)
qed




section \<open>Erasure without the assumption of tidiness, and against late deliveries\<close>

text \<open>Whatever hangs where, the account's rows go, and nobody's rows come.\<close>

lemma owners_steps:
  "owners (delete_cards P db) \<subseteq> owners db" "owners (delete_tasks Q db) \<subseteq> owners db"
  "owners (db\<lparr>ld_logs := filter (\<lambda>l. le_user l \<noteq> Some u) (ld_logs db)\<rparr>) \<subseteq> owners db - {(Review_Logs, Some u)}"
  "owners (db\<lparr>ld_questions := filter (\<lambda>q. pc_user q \<noteq> Some u) (ld_questions db)\<rparr>) \<subseteq> owners db - {(Project_Questions, Some u)}"
  "owners (db\<lparr>ld_milestones := filter (\<lambda>q. pc_user q \<noteq> Some u) (ld_milestones db)\<rparr>) \<subseteq> owners db - {(Milestones, Some u)}"
  "owners (clear_activity u db) \<subseteq> owners db - {Daily_Intent, Daily_Log, Focus_Sessions, Journal_Entries} \<times> {Some u}"
  "owners (db\<lparr>ld_task_links := tls\<rparr>) = owners db" "owners (db\<lparr>ld_project_links := pls\<rparr>) = owners db"
  "owners (clear_inbox u rq db) = owners db" "owners (db\<lparr>ld_inbox := xs\<rparr>) = owners db" "owners (mark_processed cm db) = owners db"
  by (auto simp: owners_def delete_cards_def delete_tasks_def Let_def clear_activity_def clear_inbox_def mark_processed_def)

lemma owners_Tasks: "(Tasks, x) \<in> owners db \<longleftrightarrow> x \<in> te_user ` set (ld_tasks db)"
  by (auto simp: owners_def)

lemma owners_deleted:
  "owners (delete_cards (\<lambda>c. ce_user c = Some u) db) \<subseteq> owners db - {(Cards, Some u)}"
  "owners (delete_tasks (\<lambda>t. te_user t = Some u) db) \<subseteq> owners db - {(Tasks, Some u)}"
  "owners (delete_projects (\<lambda>p. pe_user p = Some u) db) \<subseteq> owners db - {(Projects, Some u)}"
  "owners (delete_decks (\<lambda>d. oe_user d = Some u) db) \<subseteq> owners db - {(Decks, Some u)}"
proof -
  show "owners (delete_cards (\<lambda>c. ce_user c = Some u) db) \<subseteq> owners db - {(Cards, Some u)}"
    by (auto simp: owners_def delete_cards_def Let_def)
  show "owners (delete_tasks (\<lambda>t. te_user t = Some u) db) \<subseteq> owners db - {(Tasks, Some u)}"
  proof -
    have "(Tasks, Some u) \<notin> owners (delete_tasks (\<lambda>t. te_user t = Some u) db)"
      unfolding owners_Tasks using delete_tasks_subsets(2) [of "\<lambda>t. te_user t = Some u" db] by auto
    with owners_steps(2) [where db = db and Q = "\<lambda>t. te_user t = Some u"] show ?thesis by blast
  qed
  have 1: "owners (d\<lparr>ld_projects := filter (\<lambda>p. \<not> pe_user p = Some u) (ld_projects d), ld_project_links := ls,
      ld_questions := filter A (ld_questions d), ld_milestones := filter B (ld_milestones d)\<rparr>) \<subseteq> owners d - {(Projects, Some u)}" for d ls A B
    by (auto simp: owners_def)
  show "owners (delete_projects (\<lambda>p. pe_user p = Some u) db) \<subseteq> owners db - {(Projects, Some u)}"
    unfolding delete_projects_def Let_def by (rule order_trans [OF 1 Diff_mono [OF owners_steps(2) order_refl]])
  have 2: "owners (d\<lparr>ld_decks := filter (\<lambda>p. \<not> oe_user p = Some u) (ld_decks d)\<rparr>) \<subseteq> owners d - {(Decks, Some u)}" for d
    by (auto simp: owners_def)
  show "owners (delete_decks (\<lambda>d. oe_user d = Some u) db) \<subseteq> owners db - {(Decks, Some u)}"
    unfolding delete_decks_def Let_def by (rule order_trans [OF 2 Diff_mono [OF owners_steps(1) order_refl]])
qed

lemma owners_cleared: "owners (clear_study u db) \<subseteq>
    owners db - {Review_Logs, Cards, Tasks, Project_Questions, Milestones, Projects, Decks} \<times> {Some u}"
proof -
  have mono: "owners d' \<subseteq> owners d - {(t, Some u)} \<Longrightarrow> owners d \<subseteq> X - T \<times> {Some u} \<Longrightarrow> owners d' \<subseteq> X - insert t T \<times> {Some u}" for d d' t T X
    by blast
  have start: "owners db \<subseteq> owners db - {} \<times> {Some u}" by simp
  note 1 = mono [OF owners_steps(3) start]
  note 2 = mono [OF owners_deleted(1) 1]
  note 3 = mono [OF owners_deleted(2) ord_eq_le_trans [OF owners_steps(7) 2]]
  note 4 = mono [OF owners_steps(4) ord_eq_le_trans [OF owners_steps(8) 3]]
  note 5 = mono [OF owners_steps(5) 4]
  note 6 = mono [OF owners_deleted(3) 5]
  note 7 = mono [OF owners_deleted(4) 6]
  show ?thesis unfolding clear_study_def Let_def by (rule order_trans [OF 7]) auto
qed

lemma erase_user_data_frees:
  "tables_free_of u (erase_user_data u rq db)" "tables_free_of v db \<Longrightarrow> tables_free_of v (erase_user_data u rq db)"
proof -
  have "owners (erase_user_data u rq db) \<subseteq> owners db - UNIV \<times> {Some u}"
    unfolding erase_user_data_def owners_steps(9)
    by (rule order_trans [OF owners_steps(6)], use owners_cleared [of u db] in \<open>auto, case_tac a, auto\<close>)
  then show "tables_free_of u (erase_user_data u rq db)" "tables_free_of v db \<Longrightarrow> tables_free_of v (erase_user_data u rq db)"
    by (auto simp: tables_free_of_def)
qed

text \<open>What a coordinator of erasures can rely on.\<close>

definition learning_gone :: "int \<Rightarrow> learning_db \<Rightarrow> bool" where
  "learning_gone u db \<longleftrightarrow> tables_free_of u db \<and> inbox_free_of u db"

text \<open>Request id \<open>i\<close> names the erasure of \<open>u\<close> and nothing else, and if it was performed it holds.\<close>

definition erasure_reserved :: "nat \<Rightarrow> int \<Rightarrow> learning_db \<Rightarrow> bool" where
  "erasure_reserved i u db \<longleftrightarrow>
     (\<forall>ie \<in> set (ld_inbox db). ie_request ie = i \<longrightarrow> ie_type ie = User_Erase) \<and>
     ((User_Erase, i) \<in> inbox_keys db \<longrightarrow> learning_gone u db)"

definition erasure_command :: "nat \<Rightarrow> int \<Rightarrow> command" where
  "erasure_command j v = \<lparr>cm_type = User_Erase, cm_request = j, cm_user = v, cm_payload = No_Payload\<rparr>"

lemma erasure_command_simps [simp]:
  "cm_type (erasure_command j v) = User_Erase" "cm_request (erasure_command j v) = j" "cm_user (erasure_command j v) = v"
  "cm_payload (erasure_command j v) = No_Payload"
  by (simp_all add: erasure_command_def)

definition erasure_performed :: "nat \<Rightarrow> int \<Rightarrow> learning_db \<Rightarrow> learning_db" where
  "erasure_performed j v db = mark_processed (erasure_command j v)
     (erase_user_data v j (db\<lparr>ld_inbox := ld_inbox db @ [new_entry (erasure_command j v)]\<rparr>))"

lemma erase_user_cases:
  obtains (refused) n where "erase_user j v rq db = (Raised n, db)"
  | (replayed) "erase_user j v rq db = (Done False None, db)" "(User_Erase, j) \<in> inbox_keys db"
  | (erased) "erase_user j v rq db = (Done True None, erasure_performed j v db)" "(User_Erase, j) \<notin> inbox_keys db"
proof -
  define cm where "cm = erasure_command j v"
  consider (no) "\<not> (0 < v \<and> allowed ''platform'' rq v j)"
    | (old) "0 < v" "allowed ''platform'' rq v j" "command_key cm \<in> inbox_keys db"
    | (new) "0 < v" "allowed ''platform'' rq v j" "command_key cm \<notin> inbox_keys db" by blast
  then show ?thesis
  proof cases
    case no
    then show ?thesis using refused by (cases "0 < v") (simp_all add: erase_user_def command_endpoint_def)
  next
    case old
    have "erase_user j v rq db = (Done False None, db)"
      using old replayed_erasure [OF old(3)] by (simp add: erase_user_def command_endpoint_def cm_def erasure_command_def)
    moreover have "(User_Erase, j) \<in> inbox_keys db" using old(3) by (simp add: cm_def)
    ultimately show ?thesis by (rule replayed)
  next
    case new
    have "erase_user j v rq db = (Done True None, erasure_performed j v db)"
      using new(1,2) apply_new [OF new(3)] by (simp add: erase_user_def command_endpoint_def cm_def command_effect_def erasure_performed_def erasure_command_def)
    moreover have "(User_Erase, j) \<notin> inbox_keys db" using new(3) by (simp add: cm_def)
    ultimately show ?thesis by (rule erased)
  qed
qed

lemma erasure_performed_inbox:
  assumes "ie \<in> set (ld_inbox (erasure_performed j v db))"
  obtains ie0 where "ie0 \<in> set (ld_inbox db)" "ie_type ie = ie_type ie0" "ie_request ie = ie_request ie0"
      "ie_user ie = None \<or> ie_user ie = ie_user ie0" "ie_user ie0 = Some v \<Longrightarrow> ie_request ie0 = j"
      "ie_user ie0 = Some v \<Longrightarrow> ie_type ie0 = User_Erase \<Longrightarrow> ie_user ie = None"
  | "ie_type ie = User_Erase" "ie_request ie = j" "ie_user ie = None"
proof -
  define cm where "cm = erasure_command j v"
  define cleared where "cleared = map (scrub v j) (filter (\<lambda>ie. \<not> (ie_user ie = Some v \<and> ie_request ie \<noteq> j)) (ld_inbox db @ [new_entry cm]))"
  have "ld_inbox (clear_study v d) = ld_inbox d" for d
    by (simp add: clear_study_def Let_def delete_decks_def delete_projects_def delete_cards_def delete_tasks_def)
  then have "ld_inbox (erasure_performed j v db) = map (\<lambda>ie. if ie_type ie = User_Erase \<and> ie_request ie = j then ie\<lparr>ie_processed := True\<rparr> else ie) cleared"
    by (simp add: erasure_performed_def cm_def cleared_def mark_processed_def erase_user_data_def clear_inbox_def clear_activity_def)
  with assms obtain ie1 where 1: "ie1 \<in> set cleared" "ie_type ie = ie_type ie1" "ie_request ie = ie_request ie1" "ie_user ie = ie_user ie1"
    by (auto split: if_splits)
  from 1(1) obtain ie0 where 0: "ie0 \<in> set (ld_inbox db) \<or> ie0 = new_entry cm" "\<not> (ie_user ie0 = Some v \<and> ie_request ie0 \<noteq> j)" "ie1 = scrub v j ie0"
    by (auto simp: cleared_def split: if_splits)
  show ?thesis
  proof (cases "ie0 = new_entry cm")
    case True
    then show ?thesis using that(2) 1 0(3) by (simp add: scrub_def new_entry_def cm_def)
  next
    case False
    then show ?thesis using that(1) [of ie0] 1 0 by (auto simp: scrub_def split: if_splits)
  qed
qed

lemma erasure_performed_free:
  "tables_free_of v (erasure_performed j v db)" "tables_free_of u db \<Longrightarrow> tables_free_of u (erasure_performed j v db)"
  using erase_user_data_frees
  by (simp_all add: erasure_performed_def tables_free_of_def owners_steps(10,11))

lemma erasure_performed_inbox_free:
  assumes "inbox_free_of u db"
  shows "inbox_free_of u (erasure_performed j v db)"
proof -
  have "ie_user ie \<noteq> Some u" if "ie \<in> set (ld_inbox (erasure_performed j v db))" for ie
    using that assms by (cases rule: erasure_performed_inbox) (auto simp: inbox_free_of_def)
  then show ?thesis by (auto simp: inbox_free_of_def)
qed

lemma erasure_performed_gone:
  assumes "erasure_reserved j v db"
  shows "learning_gone v (erasure_performed j v db)"
proof -
  have "ie_user ie \<noteq> Some v" if "ie \<in> set (ld_inbox (erasure_performed j v db))" for ie
    using that assms by (cases rule: erasure_performed_inbox) (auto simp: erasure_reserved_def)
  then show ?thesis using erasure_performed_free(1) by (auto simp: learning_gone_def inbox_free_of_def)
qed

lemma erasure_reserved_performed:
  assumes "erasure_reserved i u db" "j = i \<Longrightarrow> v = u"
  shows "erasure_reserved i u (erasure_performed j v db)"
proof -
  have only: "\<forall>ie \<in> set (ld_inbox (erasure_performed j v db)). ie_request ie = i \<longrightarrow> ie_type ie = User_Erase"
  proof (intro ballI impI)
    fix ie
    assume "ie \<in> set (ld_inbox (erasure_performed j v db))" "ie_request ie = i"
    then show "ie_type ie = User_Erase"
      using assms(1) by (cases rule: erasure_performed_inbox) (auto simp: erasure_reserved_def)
  qed
  have "learning_gone u (erasure_performed j v db)" if "(User_Erase, i) \<in> inbox_keys (erasure_performed j v db)" "j \<noteq> i"
  proof -
    from that(1) obtain ie where ie: "ie \<in> set (ld_inbox (erasure_performed j v db))" "ie_type ie = User_Erase" "ie_request ie = i"
      by (auto simp: inbox_keys_def)
    from ie(1) have "(User_Erase, i) \<in> inbox_keys db"
      using ie(2,3) that(2) by (cases rule: erasure_performed_inbox) (auto simp: inbox_keys_def image_iff intro!: bexI)
    then have "learning_gone u db" using assms(1) by (simp add: erasure_reserved_def)
    then show ?thesis using erasure_performed_free(2) erasure_performed_inbox_free by (simp add: learning_gone_def)
  qed
  then show ?thesis using only erasure_performed_gone [of j v db] assms by (auto simp: erasure_reserved_def)
qed

text \<open>The contract of the endpoint: an acknowledged erasure holds, and no erasure brings rows back.\<close>

lemma erase_user_contract:
  assumes "erasure_reserved i u db"
  shows "erase_user i u rq db = (Done applied e, db') \<Longrightarrow> learning_gone u db'"
    and "erasure_reserved i u (snd (erase_user i u rq db))"
    and "j \<noteq> i \<Longrightarrow> erasure_reserved i u (snd (erase_user j v rq db))"
proof -
  show "learning_gone u db'" if "erase_user i u rq db = (Done applied e, db')"
    using that assms erasure_performed_gone [OF assms]
    by (cases rule: erase_user_cases [of i u rq db]) (auto simp: erasure_reserved_def)
  show "erasure_reserved i u (snd (erase_user i u rq db))"
    using assms erasure_reserved_performed [OF assms] by (cases rule: erase_user_cases [of i u rq db]) auto
  show "erasure_reserved i u (snd (erase_user j v rq db))" if "j \<noteq> i"
    using that assms erasure_reserved_performed [OF assms, of j v] by (cases rule: erase_user_cases [of j v rq db]) auto
qed

lemma erase_user_brings_nothing: "learning_gone u db \<Longrightarrow> learning_gone u (snd (erase_user j v rq db))"
  using erasure_performed_free(2) erasure_performed_inbox_free
  by (cases rule: erase_user_cases [of j v rq db]) (auto simp: learning_gone_def)

text \<open>
  An event that Research sent before the erasure and that arrives after it is applied: until Platform
  removes the account, activity and an inbox row of the erased account come back.
\<close>

lemma late_read_returns:
  assumes "allowed ''research'' rq u i" "0 < u" "0 < p" "u \<in> set (ld_accounts db)" "(Paper_Read, i) \<notin> inbox_keys db"
  shows "fst (project_paper_read i u p rq db) = Done True None"
    and "\<not> tables_free_of u (snd (project_paper_read i u p rq db))" "\<not> inbox_free_of u (snd (project_paper_read i u p rq db))"
proof -
  define cm where "cm = \<lparr>cm_type = Paper_Read, cm_request = i, cm_user = u, cm_payload = Paper_Payload p\<rparr>"
  obtain db' where c: "count_read u db = Inr db'" using assms(4) by (cases "count_read u db") (auto simp: count_read_def split: if_splits)
  have d: "Some u \<in> de_user ` set (ld_days db')" 
  proof (cases "\<exists>r \<in> set (ld_days db). de_user r = Some u \<and> de_date r = ld_today db")
    case True
    then have "Some u \<in> de_user ` set (ld_days db)" by (metis imageI)
    moreover have "ld_days db' = map (\<lambda>r. if de_user r = Some u \<and> de_date r = ld_today db
        then r\<lparr>de_read := Some ((case de_read r of None \<Rightarrow> 0 | Some n \<Rightarrow> n) + 1)\<rparr> else r) (ld_days db)"
      using c assms(4) True by (auto simp: count_read_def)
    then have "map de_user (ld_days db') = map de_user (ld_days db)" by simp
    then have "de_user ` set (ld_days db') = de_user ` set (ld_days db)" by (metis set_map)
    ultimately show ?thesis by simp
  next
    case False
    then show ?thesis using c assms(4) by (auto simp: count_read_def split: if_splits)
  qed
  have new: "command_key cm \<notin> inbox_keys db" using assms(5) by (simp add: cm_def)
  have run: "project_paper_read i u p rq db = (Done True None, mark_processed cm (db'\<lparr>ld_inbox := ld_inbox db @ [new_entry cm]\<rparr>))"
    using assms apply_new [OF new] c
    by (simp add: project_paper_read_def command_endpoint_def cm_def command_effect_def count_read_inbox(1))
  then show "fst (project_paper_read i u p rq db) = Done True None" by simp
  have "(Daily_Log, Some u) \<in> owners db'" using d by (auto simp: owners_def)
  then show "\<not> tables_free_of u (snd (project_paper_read i u p rq db))"
    using run by (force simp: tables_free_of_def owners_steps(10,11))
  show "\<not> inbox_free_of u (snd (project_paper_read i u p rq db))"
    using run by (auto simp: inbox_free_of_def mark_processed_def cm_def new_entry_def)
qed

section \<open>Witnesses\<close>

definition demo_learning :: learning_db where
  "demo_learning = \<lparr>ld_today = 10, ld_accounts = [1, 2], ld_inbox = [],
     ld_logs = [\<lparr>le_card = Some 1, le_user = Some 1\<rparr>],
     ld_cards = [\<lparr>ce_id = 1, ce_deck = Some 5, ce_paper = Some 7, ce_user = Some 1\<rparr>,
                 \<lparr>ce_id = 2, ce_deck = None, ce_paper = Some 7, ce_user = Some 2\<rparr>],
     ld_task_links = [(3, 7)], ld_tasks = [\<lparr>te_id = 3, te_project = Some 4, te_parent = None, te_user = Some 1\<rparr>],
     ld_project_links = [(4, 7)], ld_questions = [], ld_milestones = [\<lparr>pc_project = Some 4, pc_user = Some 1\<rparr>],
     ld_projects = [\<lparr>pe_id = 4, pe_user = Some 1, pe_collection = None\<rparr>],
     ld_decks = [\<lparr>oe_id = 5, oe_user = Some 1\<rparr>], ld_intents = [], ld_days = [], ld_focus = [], ld_journal = []\<rparr>"

definition demo_deliveries :: "(int \<times> command) list" where
  "demo_deliveries =
     [(10, \<lparr>cm_type = Paper_Read, cm_request = 1, cm_user = 1, cm_payload = Paper_Payload 7\<rparr>),
      (10, \<lparr>cm_type = Journal_Upsert, cm_request = 2, cm_user = 9, cm_payload = Journal_Payload 10 ''x''\<rparr>),
      (11, \<lparr>cm_type = Paper_Read, cm_request = 1, cm_user = 1, cm_payload = Paper_Payload 7\<rparr>),
      (11, \<lparr>cm_type = Paper_Read, cm_request = 1, cm_user = 2, cm_payload = Paper_Payload 7\<rparr>),
      (11, \<lparr>cm_type = Paper_Deleted, cm_request = 1, cm_user = 1, cm_payload = Paper_Payload 7\<rparr>)]"

lemma demo_results: "fst (deliver_all demo_deliveries demo_learning) = [Inr True, Inl Foreign_Key, Inr False, Inl Key_Reused, Inr True]"
  by (simp add: demo_deliveries_def demo_learning_def apply_command_def inbox_row_def command_effect_def count_read_def new_entry_def
      mark_processed_def put_journal_def drop_paper_def delete_cards_def task_ids_of_def project_ids_of_def)

theorem commands_performed_once_witness:
  "map (command_key \<circ> snd) (performed demo_deliveries [Inr True, Inl Foreign_Key, Inr False, Inl Key_Reused, Inr True])
     = [(Paper_Read, 1), (Paper_Deleted, 1)] \<and>
   inbox_keys (snd (deliver_all demo_deliveries demo_learning)) = {(Paper_Read, 1), (Paper_Deleted, 1)}"
proof -
  have "\<forall>e \<in> set demo_deliveries. cm_type (snd e) \<noteq> User_Erase" by (simp add: demo_deliveries_def)
  from commands_performed_once [OF this, where db = demo_learning and rs = "fst (deliver_all demo_deliveries demo_learning)"
      and db' = "snd (deliver_all demo_deliveries demo_learning)"]
  have "inbox_keys (snd (deliver_all demo_deliveries demo_learning)) = inbox_keys demo_learning \<union>
    (command_key \<circ> snd) ` set (performed demo_deliveries (fst (deliver_all demo_deliveries demo_learning)))" by simp
  also have "\<dots> = {(Paper_Read, 1), (Paper_Deleted, 1)}"
    unfolding demo_results by (simp add: demo_deliveries_def demo_learning_def inbox_keys_def)
  finally show ?thesis by (simp add: demo_deliveries_def)
qed



end
