(* ===== verification/Research_Erasure.thy ===== *)
theory Research_Erasure
  imports Learning_Commands
begin

text \<open>
  The Research service's side of account erasure: the purge of the vector store
  (\<open>paper_ingestion/jobs/data_purge.py\<close>), the removal of the papers that only the account holds, with
  their files (\<open>paper_ingestion/services/paper_content_reclaim.py\<close>), the capability
  \<open>research.erase_user_data\<close> of \<open>db/init.sql\<close>, and the two endpoints of
  \<open>paper_ingestion/routers/internal_domains.py\<close>. The vector store is not part of the source: its client
  is a parameter, and the locale \<open>vector_store\<close> states what its documentation promises.
\<close>

section \<open>Tables\<close>

datatype research_table =
  Pending_Paper_Deletions | Domain_Events | Zotero_Push_Claims | Author_Alert_Log | Paper_Contradictions
  | Paper_Entities | Paper_Extractions | Paper_Highlights | Paper_Notes | Paper_Recommendations | Paper_Summaries
  | Paper_User_State | Paper_User_Zotero_Links | Pulse_Cards | Pulse_Decks | Pulse_Models | Recommendation_Feedback
  | Source_Health | Source_Run_History | Thread | Tracked_Authors | User_Library | User_Topic_Subscriptions
  | Paper_Chunks | Paper_Citations | Paper_Topics | Entity_Relationships

text \<open>Of a row the key, the owner, the papers it names, and the parent row of a cascading foreign key.\<close>

record research_row =
  rr_table :: research_table
  rr_key :: nat
  rr_user :: "int option"
  rr_papers :: "int list"
  rr_parent :: "nat option"

record paper_entry =
  pp_id :: int
  pp_public :: bool

record 'q research_world =
  rw_papers :: "paper_entry list"
  rw_rows :: "research_row list"
  rw_pdfs :: "int set"
  rw_images :: "int set"
  rw_learning :: learning_db
  rw_vectors :: 'q

text \<open>The tables of which a row goes with a paper it names, and the parent table of a child table.\<close>

definition goes_with_paper :: "research_table \<Rightarrow> bool" where
  "goes_with_paper t \<longleftrightarrow> t \<in> {Author_Alert_Log, Paper_Chunks, Paper_Citations, Paper_Contradictions, Paper_Entities,
     Paper_Extractions, Paper_Highlights, Paper_Notes, Paper_Recommendations, Paper_Summaries, Paper_Topics,
     Paper_User_State, Paper_User_Zotero_Links, Pulse_Cards, Recommendation_Feedback, User_Library}"

fun parent_table :: "research_table \<Rightarrow> research_table option" where
  "parent_table Pending_Paper_Deletions = Some Domain_Events"
| "parent_table Author_Alert_Log = Some Tracked_Authors"
| "parent_table Pulse_Cards = Some Pulse_Decks"
| "parent_table _ = None"

text \<open>
  A paper goes with every row of a cascading foreign key, in Research and in Learning; the other
  references become null.
\<close>

definition named_row_survives :: "int list \<Rightarrow> research_row \<Rightarrow> bool" where
  "named_row_survives ps r \<longleftrightarrow> \<not> (goes_with_paper (rr_table r) \<and> set (rr_papers r) \<inter> set ps \<noteq> {})"

definition unname :: "int list \<Rightarrow> research_row \<Rightarrow> research_row" where
  "unname ps r = (if rr_table r = Entity_Relationships then r\<lparr>rr_papers := filter (\<lambda>p. p \<notin> set ps) (rr_papers r)\<rparr> else r)"

definition learning_without_papers :: "int list \<Rightarrow> learning_db \<Rightarrow> learning_db" where
  "learning_without_papers ps db =
     db\<lparr>ld_cards := map (\<lambda>c. if ce_paper c \<in> Some ` set ps then c\<lparr>ce_paper := None\<rparr> else c) (ld_cards db),
        ld_task_links := filter (\<lambda>l. snd l \<notin> set ps) (ld_task_links db),
        ld_project_links := filter (\<lambda>l. snd l \<notin> set ps) (ld_project_links db)\<rparr>"

definition delete_papers :: "int list \<Rightarrow> 'q research_world \<Rightarrow> 'q research_world" where
  "delete_papers ps w =
     w\<lparr>rw_papers := filter (\<lambda>p. pp_id p \<notin> set ps) (rw_papers w),
       rw_rows := map (unname ps) (filter (named_row_survives ps) (rw_rows w)),
       rw_learning := learning_without_papers ps (rw_learning w)\<rparr>"

section \<open>The vector purge\<close>

text \<open>A point of the collection: its paper, the payload's \<open>user_id\<close>, and the vector.\<close>

record point =
  pt_id :: nat
  pt_paper :: int
  pt_user :: "int option"
  pt_vector :: nat

datatype condition = User_Is int | Paper_In "int list"

record qfilter =
  qf_must :: "condition list"
  qf_must_not :: "condition list"

text \<open>The three calls of the client; a call that raises has no count, or is not done.\<close>

record 'q qdrant_client =
  qc_count :: "qfilter \<Rightarrow> 'q \<Rightarrow> nat option \<times> 'q"
  qc_set_user_none :: "qfilter \<Rightarrow> 'q \<Rightarrow> bool \<times> 'q"
  qc_delete :: "qfilter \<Rightarrow> 'q \<Rightarrow> bool \<times> 'q"

record purge_counts =
  pu_deleted :: nat
  pu_redacted :: nat
  pu_residual :: nat

definition delete_filter :: "int \<Rightarrow> int list \<Rightarrow> qfilter" where
  "delete_filter u protected = \<lparr>qf_must = [User_Is u], qf_must_not = (if protected = [] then [] else [Paper_In protected])\<rparr>"

definition redact_filter :: "int \<Rightarrow> int list \<Rightarrow> qfilter" where
  "redact_filter u protected = \<lparr>qf_must = [User_Is u, Paper_In protected], qf_must_not = []\<rparr>"

definition residual_filter :: "int \<Rightarrow> qfilter" where
  "residual_filter u = \<lparr>qf_must = [User_Is u], qf_must_not = []\<rparr>"

text \<open>The redaction of the protected points; \<open>None\<close> is the exception of a call.\<close>

definition redact_protected :: "'q qdrant_client \<Rightarrow> int \<Rightarrow> int list \<Rightarrow> 'q \<Rightarrow> nat option \<times> 'q" where
  "redact_protected c u protected q =
     (if protected = [] then (Some 0, q)
      else (case qc_count c (redact_filter u protected) q of
              (None, q1) \<Rightarrow> (None, q1)
            | (Some n, q1) \<Rightarrow>
                (case qc_set_user_none c (redact_filter u protected) q1 of
                   (done, q2) \<Rightarrow> (if done then Some n else None, q2))))"

definition purge_qdrant_for_user :: "'q qdrant_client \<Rightarrow> int \<Rightarrow> int list \<Rightarrow> 'q \<Rightarrow> purge_counts option \<times> 'q" where
  "purge_qdrant_for_user c u protected q =
     (case qc_count c (delete_filter u protected) q of
        (None, q1) \<Rightarrow> (None, q1)
      | (Some deleted, q1) \<Rightarrow>
          (case redact_protected c u protected q1 of
             (None, q2) \<Rightarrow> (None, q2)
           | (Some redacted, q2) \<Rightarrow>
               if qf_must (delete_filter u protected) = [] then (None, q2)
               else (case qc_delete c (delete_filter u protected) q2 of
                       (done, q3) \<Rightarrow>
                         if \<not> done then (None, q3)
                         else (case qc_count c (residual_filter u) q3 of
                                 (None, q4) \<Rightarrow> (None, q4)
                               | (Some residual, q4) \<Rightarrow>
                                   (Some \<lparr>pu_deleted = deleted, pu_redacted = redacted, pu_residual = residual\<rparr>, q4)))))"

section \<open>Papers only the account holds\<close>

definition held_by_other :: "int \<Rightarrow> 'q research_world \<Rightarrow> int \<Rightarrow> bool" where
  "held_by_other u w p \<longleftrightarrow>
     (\<exists>r \<in> set (rw_rows w). rr_table r = User_Library \<and> p \<in> set (rr_papers r) \<and> rr_user r \<noteq> None \<and> rr_user r \<noteq> Some u)"

definition awaited_by_other :: "int \<Rightarrow> 'q research_world \<Rightarrow> int \<Rightarrow> bool" where
  "awaited_by_other u w p \<longleftrightarrow>
     (\<exists>r \<in> set (rw_rows w). rr_table r = Pending_Paper_Deletions \<and> p \<in> set (rr_papers r) \<and> rr_user r \<noteq> None \<and> rr_user r \<noteq> Some u)"

definition orphan_rule :: "int \<Rightarrow> 'q research_world \<Rightarrow> paper_entry \<Rightarrow> bool" where
  "orphan_rule u w p \<longleftrightarrow> \<not> pp_public p \<and> \<not> held_by_other u w (pp_id p) \<and> \<not> awaited_by_other u w (pp_id p)"

definition orphaned_papers :: "int \<Rightarrow> 'q research_world \<Rightarrow> int list" where
  "orphaned_papers u w = map pp_id (filter (\<lambda>p. orphan_rule u w p \<and>
     (\<exists>r \<in> set (rw_rows w). rr_table r = User_Library \<and> pp_id p \<in> set (rr_papers r) \<and> rr_user r = Some u)) (rw_papers w))"

definition deletable_papers :: "int \<Rightarrow> int list \<Rightarrow> 'q research_world \<Rightarrow> int list" where
  "deletable_papers u candidates w =
     map pp_id (filter (\<lambda>p. pp_id p \<in> set candidates \<and> orphan_rule u w p) (rw_papers w))"

text \<open>
  The environment of one call: what other sessions commit between the selection and the lock, whether
  a restore refuses publications, and the files whose removal raises.
\<close>

record 'q reclaim_env =
  re_meanwhile :: "'q research_world \<Rightarrow> 'q research_world"
  re_refused :: bool
  re_unlink_fails :: "int \<Rightarrow> bool"
  re_rmtree_fails :: "int \<Rightarrow> bool"

fun remove_stored_paper_files :: "'q reclaim_env \<Rightarrow> int list \<Rightarrow> 'q research_world \<Rightarrow> bool \<times> 'q research_world" where
  "remove_stored_paper_files env [] w = (True, w)"
| "remove_stored_paper_files env (p # ps) w =
     (if re_unlink_fails env p then (False, w)
      else let w = w\<lparr>rw_pdfs := rw_pdfs w - {p}\<rparr>
           in if p \<in> rw_images w \<and> re_rmtree_fails env p then (False, w)
              else remove_stored_paper_files env ps (w\<lparr>rw_images := rw_images w - {p}\<rparr>))"

text \<open>An exception rolls the rows back; a file that is gone stays gone.\<close>

definition erase_orphaned_user_papers :: "'q reclaim_env \<Rightarrow> int \<Rightarrow> 'q research_world \<Rightarrow> int list option \<times> 'q research_world" where
  "erase_orphaned_user_papers env u w =
     (let candidates = orphaned_papers u w
      in if candidates = [] then (Some [], w)
         else let w1 = re_meanwhile env w
              in if re_refused env then (None, w1)
                 else let removed = deletable_papers u candidates w1;
                          (done, w2) = remove_stored_paper_files env removed (delete_papers removed w1)
                      in if done then (Some removed, w2)
                         else (None, w1\<lparr>rw_pdfs := rw_pdfs w2, rw_images := rw_images w2\<rparr>))"

section \<open>The relational capability\<close>

definition erased_tables :: "research_table set" where
  "erased_tables = {Pending_Paper_Deletions, Domain_Events, Zotero_Push_Claims, Author_Alert_Log, Paper_Contradictions,
     Paper_Entities, Paper_Extractions, Paper_Highlights, Paper_Notes, Paper_Recommendations, Paper_Summaries,
     Paper_User_State, Paper_User_Zotero_Links, Pulse_Cards, Pulse_Decks, Pulse_Models, Recommendation_Feedback,
     Source_Health, Source_Run_History, Thread, Tracked_Authors, User_Library, User_Topic_Subscriptions}"

definition row_erased :: "int \<Rightarrow> research_row \<Rightarrow> bool" where
  "row_erased u r \<longleftrightarrow> rr_table r \<in> erased_tables \<and> rr_user r = Some u"

definition parent_erased :: "int \<Rightarrow> 'q research_world \<Rightarrow> research_row \<Rightarrow> bool" where
  "parent_erased u w r \<longleftrightarrow>
     (\<exists>r' \<in> set (rw_rows w). row_erased u r' \<and> parent_table (rr_table r) = Some (rr_table r') \<and> rr_parent r = Some (rr_key r'))"

definition research_erase_user_data :: "int \<Rightarrow> 'q research_world \<Rightarrow> 'q research_world option" where
  "research_erase_user_data u w =
     (if u \<le> 0 then None
      else Some (w\<lparr>rw_rows := filter (\<lambda>r. \<not> row_erased u r \<and> \<not> parent_erased u w r) (rw_rows w)\<rparr>))"

section \<open>Endpoints\<close>

datatype research_reply = Refused nat | Vectors_Erased purge_counts | Research_Erased

definition erasure_subject :: "signed_request \<Rightarrow> int \<Rightarrow> bool" where
  "erasure_subject rq u \<longleftrightarrow> sr_principal rq = Some ''platform'' \<and> sr_user rq = Some u"

definition protected_papers :: "int \<Rightarrow> 'q research_world \<Rightarrow> int list" where
  "protected_papers u w = map pp_id (filter (\<lambda>p. pp_public p \<or> held_by_other u w (pp_id p)) (rw_papers w))"

definition erase_user_vectors ::
  "'q qdrant_client option \<Rightarrow> int \<Rightarrow> signed_request \<Rightarrow> 'q research_world \<Rightarrow> research_reply \<times> 'q research_world" where
  "erase_user_vectors client u rq w =
     (if u \<le> 0 then (Refused 422, w)
      else if \<not> erasure_subject rq u then (Refused 403, w)
      else (case client of
              None \<Rightarrow> (Refused 503, w)
            | Some c \<Rightarrow>
                (case purge_qdrant_for_user c u (protected_papers u w) (rw_vectors w) of
                   (None, q) \<Rightarrow> (Refused 500, w\<lparr>rw_vectors := q\<rparr>)
                 | (Some counts, q) \<Rightarrow>
                     (if pu_residual counts \<noteq> 0 then Refused 503 else Vectors_Erased counts, w\<lparr>rw_vectors := q\<rparr>))))"

definition erase_user_research_data ::
  "'q reclaim_env \<Rightarrow> int \<Rightarrow> signed_request \<Rightarrow> 'q research_world \<Rightarrow> research_reply \<times> 'q research_world" where
  "erase_user_research_data env u rq w =
     (if u \<le> 0 then (Refused 422, w)
      else if \<not> erasure_subject rq u then (Refused 403, w)
      else (case erase_orphaned_user_papers env u w of
              (None, w1) \<Rightarrow> (Refused 500, w1)
            | (Some removed, w1) \<Rightarrow>
                (case research_erase_user_data u w1 of
                   None \<Rightarrow> (Refused 500, w1)
                 | Some w2 \<Rightarrow> (Research_Erased, w2))))"

section \<open>What the vector store promises\<close>

fun holds :: "condition \<Rightarrow> point \<Rightarrow> bool" where
  "holds (User_Is u) p = (pt_user p = Some u)"
| "holds (Paper_In ps) p = (pt_paper p \<in> set ps)"

definition matches :: "qfilter \<Rightarrow> point \<Rightarrow> bool" where
  "matches f p \<longleftrightarrow> (\<forall>c \<in> set (qf_must f). holds c p) \<and> (\<forall>c \<in> set (qf_must_not f). \<not> holds c p)"

lemma matches_simps [simp]:
  "matches (delete_filter u prot) p \<longleftrightarrow> pt_user p = Some u \<and> pt_paper p \<notin> set prot"
  "matches (redact_filter u prot) p \<longleftrightarrow> pt_user p = Some u \<and> pt_paper p \<in> set prot"
  "matches (residual_filter u) p \<longleftrightarrow> pt_user p = Some u"
  by (auto simp: matches_def delete_filter_def redact_filter_def residual_filter_def)

text \<open>
  \<open>points\<close> is the content of the collection and \<open>moves\<close> what other writers may do to it before a call
  takes effect. An exact count counts the matching points, a write reaches matching points only, and
  with \<open>wait\<close> a write that returns has reached all of them; one that raises may have reached some.
\<close>

locale vector_store =
  fixes c :: "'q qdrant_client" and points :: "'q \<Rightarrow> point list" and moves :: "point list \<Rightarrow> point list \<Rightarrow> bool"
  assumes count_moves: "qc_count c f q = (ans, q') \<Longrightarrow> moves (points q) (points q')"
    and count_exact: "qc_count c f q = (Some n, q') \<Longrightarrow> n = length (filter (matches f) (points q'))"
    and set_none: "qc_set_user_none c f q = (done, q') \<Longrightarrow>
      \<exists>ps D. moves (points q) ps \<and> D \<subseteq> Collect (matches f) \<and> (done \<longrightarrow> D = Collect (matches f)) \<and>
        points q' = map (\<lambda>p. if p \<in> D then p\<lparr>pt_user := None\<rparr> else p) ps"
    and deletes: "qc_delete c f q = (done, q') \<Longrightarrow>
      \<exists>ps D. moves (points q) ps \<and> D \<subseteq> Collect (matches f) \<and> (done \<longrightarrow> D = Collect (matches f)) \<and>
        points q' = filter (\<lambda>p. p \<notin> D) ps"
begin

text \<open>A purge that reports its counts has seen every point that still carries the account.\<close>

lemma residual_seen:
  assumes "purge_qdrant_for_user c u prot q = (Some counts, q')"
  shows "pu_residual counts = length (filter (\<lambda>p. pt_user p = Some u) (points q'))"
proof -
  obtain q3 n where "qc_count c (residual_filter u) q3 = (Some n, q')" "pu_residual counts = n"
    using assms by (auto simp: purge_qdrant_for_user_def split: prod.splits option.splits if_splits)
  moreover have "matches (residual_filter u) = (\<lambda>p. pt_user p = Some u)" by (rule ext) simp
  ultimately show ?thesis using count_exact [of "residual_filter u" q3 n q'] by simp
qed

text \<open>What holds of the points whatever others write, and what a purge may do to a point, holds after it.\<close>

lemma purge_keeps:
  assumes "\<And>ps ps'. moves ps ps' \<Longrightarrow> Q ps \<Longrightarrow> Q ps'"
    and "\<And>ps D. D \<subseteq> {p. pt_user p = Some u} \<Longrightarrow> Q ps \<Longrightarrow> Q (map (\<lambda>p. if p \<in> D then p\<lparr>pt_user := None\<rparr> else p) ps)"
    and "\<And>ps D. D \<subseteq> {p. pt_user p = Some u} \<Longrightarrow> Q ps \<Longrightarrow> Q (filter (\<lambda>p. p \<notin> D) ps)"
    and "Q (points q)"
  shows "Q (points (snd (purge_qdrant_for_user c u prot q)))"
proof -
  have n: "Q (points q')" if "qc_count c f q = (ans, q')" "Q (points q)" for f q q' ans
    using count_moves [OF that(1)] assms(1) that(2) by blast
  have s: "Q (points q')" if r: "qc_set_user_none c (redact_filter u prot) q = (ok, q')" and "Q (points q)" for q q' ok
  proof -
    from set_none [OF r] obtain ps D where "moves (points q) ps" "D \<subseteq> Collect (matches (redact_filter u prot))"
      "points q' = map (\<lambda>p. if p \<in> D then p\<lparr>pt_user := None\<rparr> else p) ps" by blast
    moreover from this(2) have "D \<subseteq> {p. pt_user p = Some u}" by auto
    ultimately show ?thesis using assms(1) [of "points q" ps] assms(2) [of D ps] that by simp
  qed
  have d: "Q (points q')" if r: "qc_delete c (delete_filter u prot) q = (ok, q')" and "Q (points q)" for q q' ok
  proof -
    from deletes [OF r] obtain ps D where "moves (points q) ps" "D \<subseteq> Collect (matches (delete_filter u prot))"
      "points q' = filter (\<lambda>p. p \<notin> D) ps" by blast
    moreover from this(2) have "D \<subseteq> {p. pt_user p = Some u}" by auto
    ultimately show ?thesis using assms(1) [of "points q" ps] assms(3) [of D ps] that by simp
  qed
  have r: "Q (points q')" if "redact_protected c u prot q = (ans, q')" "Q (points q)" for q q' ans
    using that by (auto simp: redact_protected_def split: prod.splits option.splits if_splits dest: n s)
  show ?thesis
    using assms(4) by (auto simp: purge_qdrant_for_user_def split: prod.split option.split dest: n r d)
qed

end

text \<open>What the purge makes of one point.\<close>

definition purged :: "int \<Rightarrow> int list \<Rightarrow> point \<Rightarrow> point option" where
  "purged u prot p =
     (if pt_user p \<noteq> Some u then Some p
      else if pt_paper p \<in> set prot then Some (p\<lparr>pt_user := None\<rparr>) else None)"

definition partly_purged :: "int \<Rightarrow> int list \<Rightarrow> (point \<Rightarrow> point option) \<Rightarrow> bool" where
  "partly_purged u prot h \<longleftrightarrow> (\<forall>p. h p = Some p \<or> h p = purged u prot p)"

lemma map_filter_comp: "List.map_filter g (List.map_filter h ps) = List.map_filter (\<lambda>p. Option.bind (h p) g) ps"
  by (induction ps) (auto simp: List.map_filter_simps split: option.split)

lemma map_filter_step:
  "map (\<lambda>p. if p \<in> D then p\<lparr>pt_user := None\<rparr> else p) ps = List.map_filter (\<lambda>p. Some (if p \<in> D then p\<lparr>pt_user := None\<rparr> else p)) ps"
  "filter (\<lambda>p. p \<notin> D) ps = List.map_filter (\<lambda>p. if p \<in> D then None else Some p) ps"
  by (induction ps) (auto simp: List.map_filter_simps)

text \<open>With no other writer between the calls.\<close>

locale quiet_vector_store = vector_store c points "(=)" for c :: "'q qdrant_client" and points
begin

lemma redact_done:
  assumes "redact_protected c u prot q = (ans, q')"
  obtains D where "D \<subseteq> Collect (matches (redact_filter u prot))" "ans \<noteq> None \<longrightarrow> D = Collect (matches (redact_filter u prot))"
    "points q' = List.map_filter (\<lambda>p. Some (if p \<in> D then p\<lparr>pt_user := None\<rparr> else p)) (points q)"
    "ans \<noteq> None \<longrightarrow> the ans = length (filter (matches (redact_filter u prot)) (points q))"
proof -
  have idm: "points q = List.map_filter (\<lambda>p. Some (if p \<in> {} then p\<lparr>pt_user := None\<rparr> else p)) (points q)" for q
    by (simp add: List.map_filter_def)
  show ?thesis
  proof (cases "prot = []")
    case True
    have e: "matches (redact_filter u prot) = (\<lambda>p. False)" by (rule ext) (simp add: True)
    show ?thesis by (rule that [of "{}"]) (use assms idm in \<open>auto simp: redact_protected_def True e [unfolded True]\<close>)
  next
    case False
    obtain a q1 where n: "qc_count c (redact_filter u prot) q = (a, q1)" by (rule prod.exhaust)
    have p1: "points q1 = points q" using count_moves [OF n] by simp
    show ?thesis
    proof (cases a)
      case None
      then show ?thesis using assms that [of "{}"] idm False n p1 by (simp add: redact_protected_def)
    next
      case (Some k)
      obtain ok q2 where s: "qc_set_user_none c (redact_filter u prot) q1 = (ok, q2)" by (rule prod.exhaust)
      from set_none [OF s] obtain D where D: "D \<subseteq> Collect (matches (redact_filter u prot))" "ok \<longrightarrow> D = Collect (matches (redact_filter u prot))"
        "points q2 = map (\<lambda>p. if p \<in> D then p\<lparr>pt_user := None\<rparr> else p) (points q1)" by blast
      have k: "k = length (filter (matches (redact_filter u prot)) (points q))" using count_exact [OF n [unfolded Some]] p1 by simp
      have "ans = (if ok then Some k else None)" "q' = q2" using assms False n Some s by (simp_all add: redact_protected_def)
      then show ?thesis using that [of D] D p1 k by (simp add: map_filter_step(1) split: if_splits)
    qed
  qed
qed

lemma purge_effect:
  assumes "purge_qdrant_for_user c u prot q = (ans, q')"
  shows "\<exists>h. partly_purged u prot h \<and> points q' = List.map_filter h (points q) \<and> (ans \<noteq> None \<longrightarrow> h = purged u prot)"
    and "ans = Some counts \<Longrightarrow> pu_deleted counts = length (filter (matches (delete_filter u prot)) (points q))"
    and "ans = Some counts \<Longrightarrow> pu_redacted counts = length (filter (matches (redact_filter u prot)) (points q))"
    and "ans = Some counts \<Longrightarrow> pu_residual counts = 0"
proof -
  have part: "partly_purged u prot (\<lambda>p. Option.bind (Some (if p \<in> D1 then p\<lparr>pt_user := None\<rparr> else p)) (\<lambda>p. if p \<in> D2 then None else Some p))"
    if "D1 \<subseteq> Collect (matches (redact_filter u prot))" "D2 \<subseteq> Collect (matches (delete_filter u prot))" for D1 D2
  proof -
    have D: "p \<in> D1 \<Longrightarrow> pt_user p = Some u \<and> pt_paper p \<in> set prot" "p \<in> D2 \<Longrightarrow> pt_user p = Some u \<and> pt_paper p \<notin> set prot" for p
      using that by auto
    then have "p\<lparr>pt_user := None\<rparr> \<notin> D2" for p by force
    then show ?thesis using D by (simp add: partly_purged_def purged_def)
  qed
  have all: "(\<lambda>p. Option.bind (Some (if p \<in> Collect (matches (redact_filter u prot)) then p\<lparr>pt_user := None\<rparr> else p))
      (\<lambda>p. if p \<in> Collect (matches (delete_filter u prot)) then None else Some p)) = purged u prot"
    by (rule ext) (simp add: purged_def)
  obtain n1 q1 where c1: "qc_count c (delete_filter u prot) q = (n1, q1)" by (rule prod.exhaust)
  have p1: "points q1 = points q" using count_moves [OF c1] by simp
  have keep: "\<exists>h. partly_purged u prot h \<and> points q = List.map_filter h (points q)"
    by (rule exI [of _ Some]) (simp add: partly_purged_def List.map_filter_def)
  let ?S = "(\<exists>h. partly_purged u prot h \<and> points q' = List.map_filter h (points q) \<and> (ans \<noteq> None \<longrightarrow> h = purged u prot)) \<and>
    (ans = Some counts \<longrightarrow> pu_deleted counts = length (filter (matches (delete_filter u prot)) (points q)) \<and>
       pu_redacted counts = length (filter (matches (redact_filter u prot)) (points q)) \<and> pu_residual counts = 0)"
  have ?S
  proof (cases n1)
    case None
    then have "ans = None" "q' = q1" using assms c1 by (simp_all add: purge_qdrant_for_user_def)
    then show ?thesis using keep p1 by simp
  next
    case (Some deleted)
    have deleted: "deleted = length (filter (matches (delete_filter u prot)) (points q))" using count_exact [OF c1 [unfolded Some]] p1 by simp
    obtain a q2 where r: "redact_protected c u prot q1 = (a, q2)" by (rule prod.exhaust)
    from redact_done [OF r] obtain D1 where D1: "D1 \<subseteq> Collect (matches (redact_filter u prot))"
      "a \<noteq> None \<longrightarrow> D1 = Collect (matches (redact_filter u prot))"
      "points q2 = List.map_filter (\<lambda>p. Some (if p \<in> D1 then p\<lparr>pt_user := None\<rparr> else p)) (points q)"
      "a \<noteq> None \<longrightarrow> the a = length (filter (matches (redact_filter u prot)) (points q))" unfolding p1 .
    show ?thesis
    proof (cases a)
      case None
      then have "ans = None" "q' = q2" using assms c1 Some r by (simp_all add: purge_qdrant_for_user_def)
      moreover have "points q2 = List.map_filter (\<lambda>p. Option.bind (Some (if p \<in> D1 then p\<lparr>pt_user := None\<rparr> else p)) (\<lambda>p. if p \<in> {} then None else Some p)) (points q)"
        using D1(3) by simp
      ultimately show ?thesis using part [OF D1(1) empty_subsetI] by blast
    next
      case a: (Some redacted)
      obtain ok q3 where d: "qc_delete c (delete_filter u prot) q2 = (ok, q3)" by (rule prod.exhaust)
      from deletes [OF d] obtain D2 where D2: "D2 \<subseteq> Collect (matches (delete_filter u prot))"
        "ok \<longrightarrow> D2 = Collect (matches (delete_filter u prot))" "points q3 = filter (\<lambda>p. p \<notin> D2) (points q2)" by blast
      define h where "h = (\<lambda>p. Option.bind (Some (if p \<in> D1 then p\<lparr>pt_user := None\<rparr> else p)) (\<lambda>p. if p \<in> D2 then None else Some p))"
      have h: "partly_purged u prot h" "points q3 = List.map_filter h (points q)"
        using part [OF D1(1) D2(1)] D2(3) D1(3) by (simp_all add: h_def map_filter_step(2) map_filter_comp)
      show ?thesis
      proof (cases "ans = None")
        case True
        have "points q' = points q3"
          using assms True c1 Some r a d count_moves
          by (auto simp: purge_qdrant_for_user_def delete_filter_def split: if_splits prod.splits option.splits)
        then show ?thesis using h True by auto
      next
        case False
        then obtain residual where q4: "ok" "qc_count c (residual_filter u) q3 = (Some residual, q')"
          "ans = Some \<lparr>pu_deleted = deleted, pu_redacted = redacted, pu_residual = residual\<rparr>"
          using assms c1 Some r a d
          by (auto simp: purge_qdrant_for_user_def split: if_splits prod.splits option.splits)
        have hp: "h = purged u prot" using all D1(2) D2(2) a q4(1) by (simp add: h_def)
        have p4: "points q' = List.map_filter (purged u prot) (points q)" using count_moves [OF q4(2)] h(2) hp by simp
        have "\<forall>p \<in> set (points q'). pt_user p \<noteq> Some u" unfolding p4
          by (auto simp: List.map_filter_def purged_def split: if_splits)
        then have "residual = 0" using residual_seen [OF assms [unfolded q4(3)]] by (simp add: filter_empty_conv)
        then show ?thesis using p4 h(1) hp q4(3) deleted D1(4) a by auto
      qed
    qed
  qed
  then show "\<exists>h. partly_purged u prot h \<and> points q' = List.map_filter h (points q) \<and> (ans \<noteq> None \<longrightarrow> h = purged u prot)"
    "ans = Some counts \<Longrightarrow> pu_deleted counts = length (filter (matches (delete_filter u prot)) (points q))"
    "ans = Some counts \<Longrightarrow> pu_redacted counts = length (filter (matches (redact_filter u prot)) (points q))"
    "ans = Some counts \<Longrightarrow> pu_residual counts = 0" by blast+
qed

end

lemma purged_absorbs:
  assumes "partly_purged u prot h"
  shows "List.map_filter (purged u prot) (List.map_filter h ps) = List.map_filter (purged u prot) ps"
proof -
  have e: "purged u prot (p\<lparr>pt_user := None\<rparr>) = Some (p\<lparr>pt_user := None\<rparr>)" for p by (simp add: purged_def)
  have "Option.bind (h p) (purged u prot) = purged u prot p" for p
    using assms [unfolded partly_purged_def, rule_format, of p] e [of p] by (auto simp: purged_def split: if_splits)
  then show ?thesis by (simp add: map_filter_comp)
qed

text \<open>
  A collection in memory that keeps the promises: before each call other writers act, and a script
  says for each call whether it raises, and then which of the points that it was to reach it reached.
\<close>

record memory_store =
  ms_points :: "point list"
  ms_script :: "nat list option list"

definition memory_call :: "(point list \<Rightarrow> point list) \<Rightarrow> memory_store \<Rightarrow> nat list option \<times> memory_store" where
  "memory_call others q =
     (case ms_script q of
        [] \<Rightarrow> (None, q\<lparr>ms_points := others (ms_points q)\<rparr>)
      | f # fs \<Rightarrow> (f, \<lparr>ms_points = others (ms_points q), ms_script = fs\<rparr>))"

definition memory_reaches :: "nat list option \<Rightarrow> qfilter \<Rightarrow> point \<Rightarrow> bool" where
  "memory_reaches fate f p \<longleftrightarrow> matches f p \<and> (case fate of None \<Rightarrow> True | Some ids \<Rightarrow> pt_id p \<in> set ids)"

definition memory_client :: "(point list \<Rightarrow> point list) \<Rightarrow> memory_store qdrant_client" where
  "memory_client others = \<lparr>
     qc_count = (\<lambda>f q. let (fate, q) = memory_call others q
                      in (if fate = None then Some (length (filter (matches f) (ms_points q))) else None, q)),
     qc_set_user_none = (\<lambda>f q. let (fate, q) = memory_call others q
                      in (fate = None, q\<lparr>ms_points := map (\<lambda>p. if memory_reaches fate f p
                             then p\<lparr>pt_user := None\<rparr> else p) (ms_points q)\<rparr>)),
     qc_delete = (\<lambda>f q. let (fate, q) = memory_call others q
                      in (fate = None, q\<lparr>ms_points := filter (\<lambda>p. \<not> memory_reaches fate f p) (ms_points q)\<rparr>))\<rparr>"

lemma memory_call_points [simp]: "memory_call others q = (fate, q') \<Longrightarrow> ms_points q' = others (ms_points q)"
  by (auto simp: memory_call_def split: list.splits)

lemma memory_reaches_matches: "Collect (memory_reaches fate f) \<subseteq> Collect (matches f)" "Collect (memory_reaches None f) = Collect (matches f)"
  by (auto simp: memory_reaches_def)

lemma memory_writes:
  "qc_set_user_none (memory_client others) f q = (ok, q') \<Longrightarrow> \<exists>fate. ok = (fate = None) \<and>
     ms_points q' = map (\<lambda>p. if memory_reaches fate f p then p\<lparr>pt_user := None\<rparr> else p) (others (ms_points q))"
  "qc_delete (memory_client others) f q = (ok, q') \<Longrightarrow> \<exists>fate. ok = (fate = None) \<and>
     ms_points q' = filter (\<lambda>p. \<not> memory_reaches fate f p) (others (ms_points q))"
proof -
  obtain fate q1 where m: "memory_call others q = (fate, q1)" by (rule prod.exhaust)
  show "qc_set_user_none (memory_client others) f q = (ok, q') \<Longrightarrow> \<exists>fate. ok = (fate = None) \<and>
     ms_points q' = map (\<lambda>p. if memory_reaches fate f p then p\<lparr>pt_user := None\<rparr> else p) (others (ms_points q))"
    using m by (intro exI [of _ fate]) (auto simp: memory_client_def)
  show "qc_delete (memory_client others) f q = (ok, q') \<Longrightarrow> \<exists>fate. ok = (fate = None) \<and>
     ms_points q' = filter (\<lambda>p. \<not> memory_reaches fate f p) (others (ms_points q))"
    using m by (intro exI [of _ fate]) (auto simp: memory_client_def)
qed

interpretation memory: vector_store "memory_client others" ms_points "\<lambda>ps ps'. ps' = others ps" for others
proof unfold_locales
  fix f q ans q' n ok
  show "qc_count (memory_client others) f q = (ans, q') \<Longrightarrow> ms_points q' = others (ms_points q)"
    "qc_count (memory_client others) f q = (Some n, q') \<Longrightarrow> n = length (filter (matches f) (ms_points q'))"
    by (auto simp: memory_client_def split: prod.splits if_splits)
  show "\<exists>ps D. ps = others (ms_points q) \<and> D \<subseteq> Collect (matches f) \<and> (ok \<longrightarrow> D = Collect (matches f)) \<and>
        ms_points q' = map (\<lambda>p. if p \<in> D then p\<lparr>pt_user := None\<rparr> else p) ps"
    if "qc_set_user_none (memory_client others) f q = (ok, q')"
  proof -
    from memory_writes(1) [OF that] obtain fate where "ok = (fate = None)"
      "ms_points q' = map (\<lambda>p. if memory_reaches fate f p then p\<lparr>pt_user := None\<rparr> else p) (others (ms_points q))" by blast
    then show ?thesis using memory_reaches_matches
      by (intro exI [of _ "others (ms_points q)"] exI [of _ "Collect (memory_reaches fate f)"]) simp
  qed
  show "\<exists>ps D. ps = others (ms_points q) \<and> D \<subseteq> Collect (matches f) \<and> (ok \<longrightarrow> D = Collect (matches f)) \<and>
        ms_points q' = filter (\<lambda>p. p \<notin> D) ps"
    if "qc_delete (memory_client others) f q = (ok, q')"
  proof -
    from memory_writes(2) [OF that] obtain fate where "ok = (fate = None)"
      "ms_points q' = filter (\<lambda>p. \<not> memory_reaches fate f p) (others (ms_points q))" by blast
    then show ?thesis using memory_reaches_matches
      by (intro exI [of _ "others (ms_points q)"] exI [of _ "Collect (memory_reaches fate f)"]) simp
  qed
qed

interpretation quiet_memory: quiet_vector_store "memory_client id" ms_points
proof -
  have "(\<lambda>ps ps'. ps' = id ps) = ((=) :: point list \<Rightarrow> _)" by (auto simp: fun_eq_iff)
  then show "quiet_vector_store (memory_client id) ms_points"
    using memory.vector_store_axioms [of id] by (simp add: quiet_vector_store_def)
qed

text \<open>
  C12: with no writer between its calls, a purge that ends has deleted exactly the unprotected points of
  the account and taken the account off the protected ones, kept every vector and every other point, and
  counted both; one that fails at any call has made of each point either nothing or what the purge
  makes of it, so that a later one that ends leaves what a first one would have left.
\<close>

theorem vector_purge_exact:
  assumes "quiet_vector_store c points" "purge_qdrant_for_user c u prot q = (ans, q')"
  shows "(\<exists>h. partly_purged u prot h \<and> points q' = List.map_filter h (points q) \<and> (ans \<noteq> None \<longrightarrow> h = purged u prot)) \<and>
    (\<forall>counts. ans = Some counts \<longrightarrow>
      pu_deleted counts = length (filter (\<lambda>p. pt_user p = Some u \<and> pt_paper p \<notin> set prot) (points q)) \<and>
      pu_redacted counts = length (filter (\<lambda>p. pt_user p = Some u \<and> pt_paper p \<in> set prot) (points q)) \<and>
      pu_residual counts = 0) \<and>
    (\<forall>counts' q''. purge_qdrant_for_user c u prot q' = (Some counts', q'') \<longrightarrow>
      points q'' = List.map_filter (purged u prot) (points q))"
proof -
  note effect = quiet_vector_store.purge_effect [OF assms(1)]
  have m: "matches (delete_filter u prot) = (\<lambda>p. pt_user p = Some u \<and> pt_paper p \<notin> set prot)"
    "matches (redact_filter u prot) = (\<lambda>p. pt_user p = Some u \<and> pt_paper p \<in> set prot)" by (rule ext, simp)+
  have "pu_deleted counts = length (filter (\<lambda>p. pt_user p = Some u \<and> pt_paper p \<notin> set prot) (points q)) \<and>
      pu_redacted counts = length (filter (\<lambda>p. pt_user p = Some u \<and> pt_paper p \<in> set prot) (points q)) \<and>
      pu_residual counts = 0" if "ans = Some counts" for counts
    using effect(2-4) [OF assms(2) that] m by simp
  moreover have "points q'' = List.map_filter (purged u prot) (points q)"
    if "purge_qdrant_for_user c u prot q' = (Some counts', q'')" for counts' q''
    using effect(1) [OF that] effect(1) [OF assms(2)] purged_absorbs by auto
  ultimately show ?thesis using effect(1) [OF assms(2)] by blast
qed

definition demo_points :: "point list" where
  "demo_points = [\<lparr>pt_id = 1, pt_paper = 10, pt_user = Some 1, pt_vector = 7\<rparr>, \<lparr>pt_id = 2, pt_paper = 11, pt_user = Some 1, pt_vector = 8\<rparr>,
     \<lparr>pt_id = 3, pt_paper = 11, pt_user = Some 1, pt_vector = 9\<rparr>, \<lparr>pt_id = 4, pt_paper = 12, pt_user = Some 2, pt_vector = 5\<rparr>]"

text \<open>The delete of the first purge raises after one of its two points.\<close>

definition demo_store :: memory_store where
  "demo_store = \<lparr>ms_points = demo_points, ms_script = [None, None, None, Some [2]]\<rparr>"

theorem vector_purge_exact_witness:
  "fst (purge_qdrant_for_user (memory_client id) 1 [10] demo_store) = None \<and>
   ms_points (snd (purge_qdrant_for_user (memory_client id) 1 [10] (snd (purge_qdrant_for_user (memory_client id) 1 [10] demo_store)))) =
     [\<lparr>pt_id = 1, pt_paper = 10, pt_user = None, pt_vector = 7\<rparr>, \<lparr>pt_id = 4, pt_paper = 12, pt_user = Some 2, pt_vector = 5\<rparr>]"
proof -
  define q1 where "q1 = snd (purge_qdrant_for_user (memory_client id) 1 [10] demo_store)"
  note eval = purge_qdrant_for_user_def redact_protected_def memory_client_def memory_call_def memory_reaches_def
    demo_store_def demo_points_def delete_filter_def redact_filter_def residual_filter_def matches_def
  have f: "fst (purge_qdrant_for_user (memory_client id) 1 [10] demo_store) = None" by (simp add: eval)
  have q1: "q1 = \<lparr>ms_points = [\<lparr>pt_id = 1, pt_paper = 10, pt_user = None, pt_vector = 7\<rparr>,
     \<lparr>pt_id = 3, pt_paper = 11, pt_user = Some 1, pt_vector = 9\<rparr>, \<lparr>pt_id = 4, pt_paper = 12, pt_user = Some 2, pt_vector = 5\<rparr>],
     ms_script = []\<rparr>" by (simp add: q1_def eval)
  have first: "purge_qdrant_for_user (memory_client id) 1 [10] demo_store = (None, q1)" using f by (simp add: q1_def prod_eq_iff)
  have again: "purge_qdrant_for_user (memory_client id) 1 [10] q1 =
      (Some \<lparr>pu_deleted = 1, pu_redacted = 0, pu_residual = 0\<rparr>, snd (purge_qdrant_for_user (memory_client id) 1 [10] q1))"
    by (simp add: q1 eval)
  have "ms_points (snd (purge_qdrant_for_user (memory_client id) 1 [10] q1)) = List.map_filter (purged 1 [10]) (ms_points demo_store)"
    using vector_purge_exact [OF quiet_memory.quiet_vector_store_axioms first] again by blast
  then show ?thesis
    using f by (simp add: q1_def [symmetric]) (simp add: demo_store_def demo_points_def List.map_filter_simps purged_def)
qed

section \<open>What the removal of orphaned papers keeps\<close>

text \<open>Only the file stores change, and only at the papers named.\<close>

lemma remove_files_effect:
  assumes "remove_stored_paper_files env ps w = (ok, w')"
  shows "w' = w\<lparr>rw_pdfs := rw_pdfs w', rw_images := rw_images w'\<rparr>"
    "rw_pdfs w - set ps \<subseteq> rw_pdfs w' \<and> rw_pdfs w' \<subseteq> rw_pdfs w" "rw_images w - set ps \<subseteq> rw_images w' \<and> rw_images w' \<subseteq> rw_images w"
    "ok \<Longrightarrow> rw_pdfs w' = rw_pdfs w - set ps \<and> rw_images w' = rw_images w - set ps"
proof -
  have "w' = w\<lparr>rw_pdfs := rw_pdfs w', rw_images := rw_images w'\<rparr> \<and>
    (rw_pdfs w - set ps \<subseteq> rw_pdfs w' \<and> rw_pdfs w' \<subseteq> rw_pdfs w) \<and> (rw_images w - set ps \<subseteq> rw_images w' \<and> rw_images w' \<subseteq> rw_images w) \<and>
    (ok \<longrightarrow> rw_pdfs w' = rw_pdfs w - set ps \<and> rw_images w' = rw_images w - set ps)"
    using assms
  proof (induction env ps w rule: remove_stored_paper_files.induct)
    case (2 env p ps w)
    let ?w1 = "w\<lparr>rw_pdfs := rw_pdfs w - {p}\<rparr>"
    show ?case
    proof (cases "re_unlink_fails env p \<or> (p \<in> rw_images w \<and> re_rmtree_fails env p)")
      case True
      then have "ok = False" "w' = w \<or> w' = ?w1" using 2(2) by (auto simp: Let_def split: if_splits)
      then show ?thesis by auto
    next
      case False
      then have r: "remove_stored_paper_files env ps (?w1\<lparr>rw_images := rw_images ?w1 - {p}\<rparr>) = (ok, w')"
        using 2(2) by (auto simp: Let_def split: if_splits)
      have "w' = (?w1\<lparr>rw_images := rw_images ?w1 - {p}\<rparr>)\<lparr>rw_pdfs := rw_pdfs w', rw_images := rw_images w'\<rparr> \<and>
        ((rw_pdfs w - {p}) - set ps \<subseteq> rw_pdfs w' \<and> rw_pdfs w' \<subseteq> rw_pdfs w - {p}) \<and>
        ((rw_images w - {p}) - set ps \<subseteq> rw_images w' \<and> rw_images w' \<subseteq> rw_images w - {p}) \<and>
        (ok \<longrightarrow> rw_pdfs w' = rw_pdfs w - {p} - set ps \<and> rw_images w' = rw_images w - {p} - set ps)"
        using 2(1) [OF _ refl _ r] False by auto
      then show ?thesis by auto
    qed
  qed auto
  then show "w' = w\<lparr>rw_pdfs := rw_pdfs w', rw_images := rw_images w'\<rparr>"
    "rw_pdfs w - set ps \<subseteq> rw_pdfs w' \<and> rw_pdfs w' \<subseteq> rw_pdfs w" "rw_images w - set ps \<subseteq> rw_images w' \<and> rw_images w' \<subseteq> rw_images w"
    "ok \<Longrightarrow> rw_pdfs w' = rw_pdfs w - set ps \<and> rw_images w' = rw_images w - set ps" by blast+
qed

lemma delete_papers_files [simp]: "rw_pdfs (delete_papers ps w) = rw_pdfs w" "rw_images (delete_papers ps w) = rw_images w"
  "rw_vectors (delete_papers ps w) = rw_vectors w"
  by (simp_all add: delete_papers_def)

text \<open>A run, by its three ends.\<close>

lemma erase_orphaned_cases:
  assumes "erase_orphaned_user_papers env u w = (ans, w')"
  obtains (none) "orphaned_papers u w = []" "ans = Some []" "w' = w"
  | (failed) "ans = None" "w' = (re_meanwhile env w)\<lparr>rw_pdfs := rw_pdfs w', rw_images := rw_images w'\<rparr>"
      "rw_pdfs (re_meanwhile env w) - set (deletable_papers u (orphaned_papers u w) (re_meanwhile env w)) \<subseteq> rw_pdfs w'"
      "rw_images (re_meanwhile env w) - set (deletable_papers u (orphaned_papers u w) (re_meanwhile env w)) \<subseteq> rw_images w'"
  | (removed) "ans = Some (deletable_papers u (orphaned_papers u w) (re_meanwhile env w))"
      "w' = (delete_papers (deletable_papers u (orphaned_papers u w) (re_meanwhile env w)) (re_meanwhile env w))
         \<lparr>rw_pdfs := rw_pdfs (re_meanwhile env w) - set (deletable_papers u (orphaned_papers u w) (re_meanwhile env w)),
          rw_images := rw_images (re_meanwhile env w) - set (deletable_papers u (orphaned_papers u w) (re_meanwhile env w))\<rparr>"
proof (cases "orphaned_papers u w = []")
  case True
  then show ?thesis using none assms by (simp add: erase_orphaned_user_papers_def)
next
  case False
  define w1 where "w1 = re_meanwhile env w"
  define ps where "ps = deletable_papers u (orphaned_papers u w) w1"
  obtain ok w2 where r: "remove_stored_paper_files env ps (delete_papers ps w1) = (ok, w2)" by (rule prod.exhaust)
  note fx = remove_files_effect [OF r]
  show ?thesis
  proof (cases "re_refused env")
    case True
    then have "ans = None" "w' = w1" using assms False by (simp_all add: erase_orphaned_user_papers_def w1_def)
    then show ?thesis using failed by (auto simp: w1_def)
  next
    case go: False
    have run: "(ans, w') = (if ok then (Some ps, w2) else (None, w1\<lparr>rw_pdfs := rw_pdfs w2, rw_images := rw_images w2\<rparr>))"
      using assms False go r by (auto simp: erase_orphaned_user_papers_def w1_def ps_def Let_def split: if_splits)
    show ?thesis
    proof (cases ok)
      case True
      then show ?thesis using removed run fx(1) fx(4) by (simp add: w1_def ps_def)
    next
      case False
      then show ?thesis using failed run fx(2,3) by (simp add: w1_def ps_def)
    qed
  qed
qed

lemma deletable_rule:
  "p \<in> set (deletable_papers u cs w) \<Longrightarrow> \<exists>e \<in> set (rw_papers w). pp_id e = p \<and> p \<in> set cs \<and> orphan_rule u w e"
  by (auto simp: deletable_papers_def)

text \<open>
  C13: whatever other sessions commit between the selection of the papers and the lock, and whichever
  file cannot be removed, the erasure of an account's orphaned papers keeps every paper that is then
  public, held by another account or awaited by another's pending deletion, with its files, and every
  library row of another account. A run that fails leaves all tables as the others left them, and has
  unlinked only files of papers it may remove; a run that ends has removed exactly the selected papers
  the rule still covers, with the rows that name them and their files.
\<close>

theorem orphan_removal_safe:
  assumes "erase_orphaned_user_papers env u w = (ans, w')" "orphaned_papers u w \<noteq> []"
    and "w1 = re_meanwhile env w" "distinct (map pp_id (rw_papers w1))"
  shows "(\<forall>e \<in> set (rw_papers w1). pp_public e \<or> held_by_other u w1 (pp_id e) \<or> awaited_by_other u w1 (pp_id e) \<longrightarrow>
      e \<in> set (rw_papers w') \<and> (pp_id e \<in> rw_pdfs w1 \<longrightarrow> pp_id e \<in> rw_pdfs w') \<and> (pp_id e \<in> rw_images w1 \<longrightarrow> pp_id e \<in> rw_images w')) \<and>
    (\<forall>r \<in> set (rw_rows w1). rr_table r = User_Library \<and> rr_user r \<noteq> None \<and> rr_user r \<noteq> Some u \<longrightarrow> r \<in> set (rw_rows w')) \<and>
    (ans = None \<longrightarrow> rw_papers w' = rw_papers w1 \<and> rw_rows w' = rw_rows w1 \<and> rw_learning w' = rw_learning w1) \<and>
    (\<forall>ps. ans = Some ps \<longrightarrow> ps = deletable_papers u (orphaned_papers u w) w1 \<and>
      rw_papers w' = filter (\<lambda>e. pp_id e \<notin> set ps) (rw_papers w1) \<and>
      (\<forall>r \<in> set (rw_rows w'). goes_with_paper (rr_table r) \<longrightarrow> set (rr_papers r) \<inter> set ps = {}) \<and>
      rw_pdfs w' = rw_pdfs w1 - set ps \<and> rw_images w' = rw_images w1 - set ps)"
proof -
  define ps' where "ps' = deletable_papers u (orphaned_papers u w) w1"
  have covered: "e \<in> set (rw_papers w1) \<Longrightarrow> pp_id e \<in> set ps' \<Longrightarrow> orphan_rule u w1 e" for e
    using deletable_rule [of "pp_id e" u "orphaned_papers u w" w1] assms(4) unfolding ps'_def
    by (metis distinct_map inj_on_eq_iff)
  have library: "p \<in> set ps' \<Longrightarrow> r \<in> set (rw_rows w1) \<Longrightarrow> rr_table r = User_Library \<Longrightarrow> rr_user r \<noteq> None \<Longrightarrow> rr_user r \<noteq> Some u
      \<Longrightarrow> p \<notin> set (rr_papers r)" for p r
    using deletable_rule [of p u "orphaned_papers u w" w1] unfolding ps'_def by (auto simp: orphan_rule_def held_by_other_def)
  from assms(1) have keeps: "\<forall>e \<in> set (rw_papers w1). pp_public e \<or> held_by_other u w1 (pp_id e) \<or> awaited_by_other u w1 (pp_id e) \<longrightarrow>
      e \<in> set (rw_papers w') \<and> (pp_id e \<in> rw_pdfs w1 \<longrightarrow> pp_id e \<in> rw_pdfs w') \<and> (pp_id e \<in> rw_images w1 \<longrightarrow> pp_id e \<in> rw_images w')"
  proof (cases rule: erase_orphaned_cases)
    case none
    then show ?thesis using assms(2) by simp
  next
    case failed
    have "rw_papers w' = rw_papers w1" using failed(2) assms(3) by (metis research_world.select_convs(1) research_world.surjective research_world.update_convs(3,4))
    then show ?thesis using failed(3,4) covered unfolding assms(3) [symmetric] ps'_def [symmetric] by (auto simp: orphan_rule_def)
  next
    case removed
    then show ?thesis using covered unfolding assms(3) [symmetric] ps'_def [symmetric] by (auto simp: delete_papers_def orphan_rule_def)
  qed
  from assms(1) have rows: "\<forall>r \<in> set (rw_rows w1). rr_table r = User_Library \<and> rr_user r \<noteq> None \<and> rr_user r \<noteq> Some u \<longrightarrow> r \<in> set (rw_rows w')"
  proof (cases rule: erase_orphaned_cases)
    case none
    then show ?thesis using assms(2) by simp
  next
    case failed
    have "rw_rows w' = rw_rows w1" using failed(2) assms(3) by (metis research_world.select_convs(2) research_world.surjective research_world.update_convs(3,4))
    then show ?thesis by simp
  next
    case removed
    have "r \<in> set (rw_rows (delete_papers ps' w1))"
      if r: "r \<in> set (rw_rows w1)" "rr_table r = User_Library" "rr_user r \<noteq> None" "rr_user r \<noteq> Some u" for r
    proof -
      have "named_row_survives ps' r" using library [OF _ r] by (auto simp: named_row_survives_def)
      moreover have "unname ps' r = r" using r(2) by (simp add: unname_def)
      ultimately show ?thesis using r(1) by (force simp: delete_papers_def)
    qed
    then show ?thesis using removed unfolding assms(3) [symmetric] ps'_def [symmetric] by simp
  qed
  from assms(1) have failing: "rw_papers w' = rw_papers w1 \<and> rw_rows w' = rw_rows w1 \<and> rw_learning w' = rw_learning w1" if "ans = None"
  proof (cases rule: erase_orphaned_cases)
    case failed
    then obtain a b where "w' = w1\<lparr>rw_pdfs := a, rw_images := b\<rparr>" unfolding assms(3) by blast
    then show ?thesis by simp
  qed (use that in simp_all)
  from assms(1) have ending: "ps = deletable_papers u (orphaned_papers u w) w1 \<and>
      rw_papers w' = filter (\<lambda>e. pp_id e \<notin> set ps) (rw_papers w1) \<and>
      (\<forall>r \<in> set (rw_rows w'). goes_with_paper (rr_table r) \<longrightarrow> set (rr_papers r) \<inter> set ps = {}) \<and>
      rw_pdfs w' = rw_pdfs w1 - set ps \<and> rw_images w' = rw_images w1 - set ps" if "ans = Some ps" for ps
  proof (cases rule: erase_orphaned_cases)
    case none
    then show ?thesis using assms(2) by simp
  next
    case removed
    have "ps = ps'" using removed(1) that unfolding ps'_def assms(3) by simp
    moreover have "\<forall>r \<in> set (rw_rows (delete_papers ps w1)). goes_with_paper (rr_table r) \<longrightarrow> set (rr_papers r) \<inter> set ps = {}"
      by (auto simp: delete_papers_def named_row_survives_def unname_def)
    ultimately show ?thesis using removed(2) unfolding assms(3) [symmetric] ps'_def [symmetric] by (simp add: delete_papers_def)
  qed (use that in simp_all)
  show ?thesis using keeps rows failing ending by blast
qed

text \<open>
  A run in which another account saves one of two orphaned papers after they were selected, and the
  page images of the other cannot be removed.
\<close>

definition demo_world :: "unit research_world" where
  "demo_world = \<lparr>rw_papers = [\<lparr>pp_id = 10, pp_public = False\<rparr>, \<lparr>pp_id = 11, pp_public = False\<rparr>],
     rw_rows = [\<lparr>rr_table = User_Library, rr_key = 1, rr_user = Some 1, rr_papers = [10], rr_parent = None\<rparr>,
                \<lparr>rr_table = User_Library, rr_key = 2, rr_user = Some 1, rr_papers = [11], rr_parent = None\<rparr>],
     rw_pdfs = {10, 11}, rw_images = {10, 11}, rw_learning = demo_learning, rw_vectors = ()\<rparr>"

definition saved_by_other :: "'q research_world \<Rightarrow> 'q research_world" where
  "saved_by_other w = w\<lparr>rw_rows := rw_rows w @ [\<lparr>rr_table = User_Library, rr_key = 3, rr_user = Some 2, rr_papers = [10], rr_parent = None\<rparr>]\<rparr>"

definition demo_env :: "unit reclaim_env" where
  "demo_env = \<lparr>re_meanwhile = saved_by_other, re_refused = False, re_unlink_fails = (\<lambda>p. False), re_rmtree_fails = (\<lambda>p. p = 11)\<rparr>"

theorem orphan_removal_safe_witness:
  "fst (erase_orphaned_user_papers demo_env 1 demo_world) = None \<and>
   rw_papers (snd (erase_orphaned_user_papers demo_env 1 demo_world)) = rw_papers demo_world \<and>
   rw_pdfs (snd (erase_orphaned_user_papers demo_env 1 demo_world)) = {10} \<and>
   \<lparr>pp_id = 10, pp_public = False\<rparr> \<in> set (rw_papers (snd (erase_orphaned_user_papers demo_env 1 demo_world)))"
proof -
  note eval = demo_env_def demo_world_def saved_by_other_def orphaned_papers_def deletable_papers_def orphan_rule_def
    held_by_other_def awaited_by_other_def
  have ne: "orphaned_papers 1 demo_world \<noteq> []" by (simp add: eval)
  have f: "fst (erase_orphaned_user_papers demo_env 1 demo_world) = None"
    "rw_pdfs (snd (erase_orphaned_user_papers demo_env 1 demo_world)) = {10}"
    by (simp_all add: erase_orphaned_user_papers_def delete_papers_def eval) auto
  define w' where "w' = snd (erase_orphaned_user_papers demo_env 1 demo_world)"
  have run: "erase_orphaned_user_papers demo_env 1 demo_world = (None, w')" using f(1) by (simp add: w'_def prod_eq_iff)
  have d: "distinct (map pp_id (rw_papers (saved_by_other demo_world)))" by (simp add: eval)
  have m: "saved_by_other demo_world = re_meanwhile demo_env demo_world" by (simp add: demo_env_def)
  note safe = orphan_removal_safe [OF run ne m d]
  have "rw_papers w' = rw_papers demo_world" using safe by (simp add: saved_by_other_def)
  moreover have "\<lparr>pp_id = 10, pp_public = False\<rparr> \<in> set (rw_papers w')"
    using safe by (simp add: eval)
  ultimately show ?thesis using f by (simp add: w'_def)
qed

section \<open>What the endpoints promise the coordinator\<close>

definition research_gone :: "int \<Rightarrow> 'q research_world \<Rightarrow> bool" where
  "research_gone u w \<longleftrightarrow> (\<forall>r \<in> set (rw_rows w). \<not> row_erased u r)"

lemma unname_erased [simp]: "row_erased u (unname ps r) = row_erased u r"
  by (simp add: row_erased_def unname_def erased_tables_def)

lemma delete_papers_gone: "research_gone u w \<Longrightarrow> research_gone u (delete_papers ps w)"
  by (auto simp: research_gone_def delete_papers_def)

lemma learning_without_papers_gone:
  "tables_free_of u (learning_without_papers ps db) = tables_free_of u db" "ld_inbox (learning_without_papers ps db) = ld_inbox db"
proof -
  have "map ce_user (ld_cards (learning_without_papers ps db)) = map ce_user (ld_cards db)"
    by (simp add: learning_without_papers_def)
  then have "ce_user ` set (ld_cards (learning_without_papers ps db)) = ce_user ` set (ld_cards db)" by (metis set_map)
  then have "owners (learning_without_papers ps db) = owners db" unfolding owners_def by (simp add: learning_without_papers_def)
  then show "tables_free_of u (learning_without_papers ps db) = tables_free_of u db" by (simp add: tables_free_of_def)
qed (simp add: learning_without_papers_def)

text \<open>What a run of the research endpoint leaves, from what the others leave meanwhile.\<close>

lemma erase_research_cases:
  assumes "erase_user_research_data env u rq w = (ans, w')"
  obtains w1 pdfs images where "w1 = w \<or> w1 = re_meanwhile env w" "ans \<noteq> Research_Erased" "w' = w1\<lparr>rw_pdfs := pdfs, rw_images := images\<rparr>"
  | ps w1 w2 pdfs images where "w1 = w \<or> w1 = re_meanwhile env w" "ans = Research_Erased" "w2 = delete_papers ps w1 \<or> w2 = w1"
      "research_erase_user_data u (w2\<lparr>rw_pdfs := pdfs, rw_images := images\<rparr>) = Some w'"
proof -
  have same: "w = w\<lparr>rw_pdfs := rw_pdfs w, rw_images := rw_images w\<rparr>" by simp
  show ?thesis
  proof (cases "u \<le> 0 \<or> \<not> erasure_subject rq u")
    case True
    then have "w' = w" "ans \<noteq> Research_Erased" using assms by (auto simp: erase_user_research_data_def split: if_splits)
    then show ?thesis using that(1) [of w] same by metis
  next
    case False
    obtain a w1 where o: "erase_orphaned_user_papers env u w = (a, w1)" by (rule prod.exhaust)
    from o show ?thesis
    proof (cases rule: erase_orphaned_cases)
      case none
      have "research_erase_user_data u (w\<lparr>rw_pdfs := rw_pdfs w, rw_images := rw_images w\<rparr>) = Some w'" "ans = Research_Erased"
        using assms False o none by (auto simp: erase_user_research_data_def research_erase_user_data_def)
      then show ?thesis using that(2) by blast
    next
      case failed
      have "w' = w1" "ans \<noteq> Research_Erased" using assms False o failed(1) by (auto simp: erase_user_research_data_def)
      then show ?thesis using that(1) [of "re_meanwhile env w"] failed(2) by blast
    next
      case removed
      have "research_erase_user_data u w1 = Some w'" "ans = Research_Erased"
        using assms False o removed(1) by (auto simp: erase_user_research_data_def research_erase_user_data_def)
      then show ?thesis using that(2) [of "re_meanwhile env w"] unfolding removed(2) by blast
    qed
  qed
qed

lemma research_erase_gone:
  assumes "research_erase_user_data u w = Some w'"
  shows "research_gone u w'" "research_gone v w \<Longrightarrow> research_gone v w'" "rw_learning w' = rw_learning w" "rw_vectors w' = rw_vectors w"
  using assms by (auto simp: research_erase_user_data_def research_gone_def split: if_splits)

text \<open>
  A property of the world that is kept by the others' activity, by the removal of files, of papers
  and of an account's rows is kept by the endpoint; and an acknowledged erasure holds.
\<close>

lemma erase_research_contract:
  assumes "erase_user_research_data env u rq w = (ans, w')"
  shows "ans = Research_Erased \<Longrightarrow> research_gone u w'"
    and "(\<And>w. Q w \<Longrightarrow> Q (re_meanwhile env w)) \<Longrightarrow> (\<And>w a b. Q w \<Longrightarrow> Q (w\<lparr>rw_pdfs := a, rw_images := b\<rparr>)) \<Longrightarrow>
      (\<And>w ps. Q w \<Longrightarrow> Q (delete_papers ps w)) \<Longrightarrow> (\<And>w w2. Q w \<Longrightarrow> research_erase_user_data u w = Some w2 \<Longrightarrow> Q w2) \<Longrightarrow>
      Q w \<Longrightarrow> Q w'"
proof -
  from assms show "research_gone u w'" if "ans = Research_Erased"
    by (cases rule: erase_research_cases) (use that research_erase_gone(1) in blast)+
  assume m: "\<And>w. Q w \<Longrightarrow> Q (re_meanwhile env w)" and f: "\<And>w a b. Q w \<Longrightarrow> Q (w\<lparr>rw_pdfs := a, rw_images := b\<rparr>)"
    and d: "\<And>w ps. Q w \<Longrightarrow> Q (delete_papers ps w)" and e: "\<And>w w2. Q w \<Longrightarrow> research_erase_user_data u w = Some w2 \<Longrightarrow> Q w2"
    and w: "Q w"
  from assms show "Q w'"
  proof (cases rule: erase_research_cases)
    case (1 w1 a b)
    then show ?thesis using m w f by blast
  next
    case (2 ps w1 w2 a b)
    have "Q w1" using 2(1) m w by blast
    then have "Q w2" using 2(3) d by blast
    then show ?thesis using e f 2(4) by blast
  qed
qed

text \<open>No point of the account, and no purge of anyone gives one to it.\<close>

definition vectors_gone :: "int \<Rightarrow> point list \<Rightarrow> bool" where
  "vectors_gone u ps \<longleftrightarrow> (\<forall>p \<in> set ps. pt_user p \<noteq> Some u)"


lemma vectors_gone_writes:
  "vectors_gone s ps \<Longrightarrow> vectors_gone s (map (\<lambda>p. if p \<in> D then p\<lparr>pt_user := None\<rparr> else p) ps)"
  "vectors_gone s ps \<Longrightarrow> vectors_gone s (filter (\<lambda>p. p \<notin> D) ps)"
  by (auto simp: vectors_gone_def)

context vector_store
begin

lemma purge_brings_nothing:
  assumes "\<And>ps ps'. moves ps ps' \<Longrightarrow> vectors_gone s ps \<Longrightarrow> vectors_gone s ps'" "vectors_gone s (points q)"
  shows "vectors_gone s (points (snd (purge_qdrant_for_user c u prot q)))"
  by (rule purge_keeps) (use assms vectors_gone_writes in blast)+

lemma purge_proof_holds:
  assumes "purge_qdrant_for_user c u prot q = (Some counts, q')" "pu_residual counts = 0"
  shows "vectors_gone u (points q')"
  using residual_seen [OF assms(1)] assms(2) by (auto simp: vectors_gone_def filter_empty_conv)

end

end
