(* ===== verification/Erasure_Owners.thy ===== *)
theory Erasure_Owners
  imports Erasure_Coordinator Research_Erasure
begin

text \<open>
  The coordinator of account erasure with its actual owner services: the commands of
  Erasure\_Coordinator reach the endpoints of Research\_Erasure and Learning\_Commands, over a network
  that may lose a command or a reply, among other sessions that are active before, between and
  within the commands. The services meet the contract \<open>erasure_owners\<close> of the coordinator, so what it
  guarantees becomes a statement on the data of the three services.
\<close>

section \<open>The services behind the network\<close>







section \<open>The data of an account\<close>












section \<open>What a finished erasure means\<close>



section \<open>Witness\<close>







end
