(* ===== verification/Identity_Routes.thy ===== *)
theory Identity_Routes
  imports Prelude
begin

text \<open>
  Route capabilities of the signed identity (\<open>identity_capabilities.py\<close>): which scope a backend asks
  of a request, and which scopes a service principal may be granted. A path pattern of the source
  is a sequence of path segments (a word, one of several words, or \<open>[^/]+\<close>), and so is it here;
  \<open>re.fullmatch\<close> is the comparison of the segments of the path with it.
\<close>

section \<open>Requests and patterns\<close>

datatype identity_error = Assertion_Error | Value_Error | Runtime_Error

datatype segment = Word string | One_Of "string list" | Any_Segment

text \<open>\<open>/\<close> is code point 47.\<close>

fun segment_matches :: "segment \<Rightarrow> pystr \<Rightarrow> bool" where
  "segment_matches (Word w) s = (s = codes w)"
| "segment_matches (One_Of ws) s = list_ex (\<lambda>w. s = codes w) ws"
| "segment_matches Any_Segment s = (s \<noteq> [])"

definition fullmatch :: "segment list \<Rightarrow> pystr \<Rightarrow> bool" where
  "fullmatch pat path \<longleftrightarrow>
     (case py_split 47 path of
        [] # segments \<Rightarrow> list_all2 segment_matches pat segments
      | _ \<Rightarrow> False)"

definition audiences :: "pystr list" where
  "audiences = [codes ''learning'', codes ''research'']"

definition principals :: "pystr list" where
  "principals = [codes ''learning'', codes ''research'', codes ''telegram'']"

definition read_methods :: "pystr list" where
  "read_methods = [codes ''GET'', codes ''HEAD'']"

definition unprotected_paths :: "pystr list" where
  "unprotected_paths = [codes ''/docs'', codes ''/docs/oauth2-redirect'', codes ''/health'',
     codes ''/health/internal'', codes ''/health/live'', codes ''/openapi.json'', codes ''/redoc'']"

text \<open>
  For a string of ASCII letters \<open>m == m.upper()\<close> says that all are capitals; any other string is
  refused by \<open>isascii\<close> or \<open>isalpha\<close>.
\<close>

definition method_ok :: "pystr \<Rightarrow> bool" where
  "method_ok m \<longleftrightarrow> m \<noteq> [] \<and> list_all (\<lambda>c. 65 \<le> c \<and> c \<le> 90) m"

definition path_ok :: "pystr \<Rightarrow> bool" where
  "path_ok p \<longleftrightarrow> take 1 p = codes ''/'' \<and> list_all (\<lambda>c. c \<notin> set (codes ''?#'') \<and> c \<noteq> 92) p"

definition validate_binding :: "pystr \<Rightarrow> pystr \<Rightarrow> pystr \<Rightarrow> identity_error + unit" where
  "validate_binding audience m path =
     (if audience \<notin> set audiences then Inl Value_Error
      else if \<not> method_ok m then Inl Value_Error
      else if \<not> path_ok path then Inl Value_Error
      else Inr ())"

section \<open>The manifest\<close>

record route_capability =
  cp_principal :: string
  cp_audience :: string
  cp_method :: string
  cp_pattern :: "segment list"
  cp_scope :: string
  cp_names_subject :: bool

definition capability_matches :: "route_capability \<Rightarrow> pystr \<Rightarrow> pystr \<Rightarrow> bool" where
  "capability_matches c m path \<longleftrightarrow> m = codes (cp_method c) \<and> fullmatch (cp_pattern c) path"

definition command_capability :: "string \<Rightarrow> string \<Rightarrow> string \<Rightarrow> segment list \<Rightarrow> string \<Rightarrow> route_capability" where
  "command_capability pr au m pat sc =
     \<lparr>cp_principal = pr, cp_audience = au, cp_method = m, cp_pattern = pat, cp_scope = sc, cp_names_subject = True\<rparr>"

definition telegram_capability :: "string \<Rightarrow> string \<Rightarrow> segment list \<Rightarrow> string \<Rightarrow> route_capability" where
  "telegram_capability au m pat sc =
     \<lparr>cp_principal = ''telegram'', cp_audience = au, cp_method = m, cp_pattern = pat, cp_scope = sc,
      cp_names_subject = False\<rparr>"

definition service_commands :: "route_capability list" where
  "service_commands =
    [command_capability ''learning'' ''research'' ''POST''
       [Word ''internal'', Word ''domains'', Word ''library''] ''research:library:write'',
     command_capability ''research'' ''learning'' ''POST''
       [Word ''internal'', Word ''domains'', Word ''paper-read''] ''learning:domain:write'',
     command_capability ''research'' ''learning'' ''POST''
       [Word ''internal'', Word ''domains'', Word ''paper-deleted''] ''learning:domain:write'',
     command_capability ''research'' ''learning'' ''PUT''
       [Word ''internal'', Word ''domains'', Word ''projects'', Any_Segment, Word ''zotero-collection'']
       ''learning:domain:write'',
     command_capability ''research'' ''learning'' ''PUT''
       [Word ''internal'', Word ''domains'', Word ''journal''] ''learning:domain:write'']"

definition telegram_learning :: "route_capability list" where
  "telegram_learning =
    [telegram_capability ''learning'' ''GET'' [Word ''api'', Word ''projects''] ''learning:projects:read'',
     telegram_capability ''learning'' ''POST'' [Word ''api'', Word ''projects''] ''learning:projects:write'',
     telegram_capability ''learning'' ''GET'' [Word ''api'', Word ''projects'', Any_Segment] ''learning:projects:read'',
     telegram_capability ''learning'' ''GET'' [Word ''api'', Word ''projects'', Any_Segment, Word ''tasks'']
       ''learning:tasks:read'',
     telegram_capability ''learning'' ''GET'' [Word ''api'', Word ''projects'', Any_Segment, Word ''milestones'']
       ''learning:milestones:read'',
     telegram_capability ''learning'' ''GET'' [Word ''api'', Word ''tasks''] ''learning:tasks:read'',
     telegram_capability ''learning'' ''PUT'' [Word ''api'', Word ''tasks'', Any_Segment] ''learning:tasks:write'',
     telegram_capability ''learning'' ''GET'' [Word ''api'', Word ''milestones'', Word ''upcoming'']
       ''learning:milestones:read'',
     telegram_capability ''learning'' ''GET'' [Word ''api'', Word ''stats''] ''learning:review:read'',
     telegram_capability ''learning'' ''GET'' [Word ''api'', Word ''review'', Word ''next''] ''learning:review:read'',
     telegram_capability ''learning'' ''POST'' [Word ''api'', Word ''review'', Any_Segment] ''learning:review:write'',
     telegram_capability ''learning'' ''GET'' [Word ''api'', Word ''executive'', Word ''my-day'']
       ''learning:executive:read'',
     telegram_capability ''learning'' ''GET'' [Word ''api'', Word ''executive'', Word ''focus'', Word ''active'']
       ''learning:focus:read'',
     telegram_capability ''learning'' ''GET''
       [Word ''api'', Word ''executive'', Word ''focus'', Word ''telegram'', Word ''pending''] ''learning:focus:read'',
     telegram_capability ''learning'' ''POST'' [Word ''api'', Word ''executive'', Word ''focus'', Word ''start'']
       ''learning:focus:write'',
     telegram_capability ''learning'' ''POST''
       [Word ''api'', Word ''executive'', Word ''focus'', Any_Segment,
        One_Of [''pause'', ''resume'', ''complete'', ''telegram-notified'']] ''learning:focus:write'',
     telegram_capability ''learning'' ''GET'' [Word ''internal'', Word ''telegram'', Word ''nudges'']
       ''learning:nudges:read'',
     telegram_capability ''learning'' ''POST''
       [Word ''internal'', Word ''telegram'', Word ''nudges'', Any_Segment, Word ''ack''] ''learning:nudges:write'']"

definition telegram_research :: "route_capability list" where
  "telegram_research =
    [telegram_capability ''research'' ''GET'' [Word ''api'', Word ''papers'', Word ''feed''] ''research:papers:read'',
     telegram_capability ''research'' ''GET'' [Word ''api'', Word ''papers'', Any_Segment] ''research:papers:read'',
     telegram_capability ''research'' ''PUT''
       [Word ''api'', Word ''papers'', Any_Segment,
        One_Of [''save'', ''skip'', ''reading'', ''done'', ''star'', ''unstar'', ''trash'',
                ''trash_and_reject'', ''restore'']] ''research:papers:write'',
     telegram_capability ''research'' ''POST'' [Word ''api'', Word ''papers'', Any_Segment, Word ''feedback'']
       ''research:papers:write'',
     telegram_capability ''research'' ''POST'' [Word ''api'', Word ''authors'', Word ''check''] ''research:authors:write'',
     telegram_capability ''research'' ''POST'' [Word ''api'', Word ''authors'', Word ''alerts'', Word ''ack'']
       ''research:authors:write'',
     telegram_capability ''research'' ''POST'' [Word ''api'', Word ''search''] ''research:search:write'',
     telegram_capability ''research'' ''GET'' [Word ''api'', Word ''pulse'', Word ''today''] ''research:pulse:read'',
     telegram_capability ''research'' ''POST'' [Word ''api'', Word ''pulse'', Word ''generate''] ''research:pulse:write'',
     telegram_capability ''research'' ''GET'' [Word ''api'', Word ''pulse'', Word ''generate'', Any_Segment]
       ''research:pulse:read'',
     telegram_capability ''research'' ''GET'' [Word ''api'', Word ''digest'', Word ''weekly''] ''research:digest:read'']"

definition manifest :: "route_capability list" where
  "manifest = service_commands @ telegram_learning @ telegram_research"

text \<open>Routes that only Platform may command, outside the manifest.\<close>

definition owner_bindings :: "(string \<times> string \<times> segment list \<times> string) list" where
  "owner_bindings =
    [(''research'', ''PUT'', [Word ''internal'', Word ''platform'', Word ''config'', Any_Segment], ''research:config:write''),
     (''research'', ''POST'', [Word ''internal'', Word ''platform'', Word ''providers'', Any_Segment, Word ''cache'',
        Word ''invalidate''], ''research:providers:write''),
     (''research'', ''POST'', [Word ''internal'', Word ''domains'', Word ''erasure'', Any_Segment,
        One_Of [''qdrant'', ''research'']], ''research:erasure:write''),
     (''learning'', ''POST'', [Word ''internal'', Word ''domains'', Word ''erasure'', Any_Segment],
        ''learning:erasure:write'')]"

definition internal_owner_scope :: "pystr \<Rightarrow> pystr \<Rightarrow> pystr \<Rightarrow> pystr option" where
  "internal_owner_scope audience m path =
     map_option (\<lambda>(_, _, _, scope). codes scope)
       (find (\<lambda>(target, verb, pat, _). audience = codes target \<and> m = codes verb \<and> fullmatch pat path) owner_bindings)"

section \<open>Scopes\<close>

text \<open>\<open>^[a-z0-9][a-z0-9_-]*$\<close>.\<close>

definition segment_char :: "nat \<Rightarrow> bool" where
  "segment_char c \<longleftrightarrow> 97 \<le> c \<and> c \<le> 122 \<or> 48 \<le> c \<and> c \<le> 57"

definition segment_ok :: "pystr \<Rightarrow> bool" where
  "segment_ok s \<longleftrightarrow>
     (case s of [] \<Rightarrow> False
      | c # cs \<Rightarrow> segment_char c \<and> list_all (\<lambda>d. segment_char d \<or> d = 95 \<or> d = 45) cs)"

text \<open>\<open>path.removeprefix("/api/").split("/", maxsplit=1)[0] or "api"\<close>.\<close>

definition first_segment :: "pystr \<Rightarrow> pystr" where
  "first_segment path =
     (let rest = (if take 5 path = codes ''/api/'' then drop 5 path else path);
          s = hd (py_split 47 rest)
      in if s = [] then codes ''api'' else s)"

definition single_scope :: "route_capability list \<Rightarrow> identity_error + pystr list option" where
  "single_scope found =
     (if found = [] then Inr None
      else case remdups (map cp_scope found) of
        [s] \<Rightarrow> Inr (Some [codes s])
      | _ \<Rightarrow> Inl Runtime_Error)"

text \<open>Routes of the public API: destination, first path segment, and reading or writing.\<close>

definition public_scope :: "pystr \<Rightarrow> pystr \<Rightarrow> pystr \<Rightarrow> identity_error + pystr list option" where
  "public_scope audience m path =
     (if path \<noteq> codes ''/api'' \<and> take 5 path \<noteq> codes ''/api/'' then Inl Value_Error
      else if \<not> segment_ok (first_segment path) then Inl Value_Error
      else Inr (Some [audience @ codes '':'' @ first_segment path @ codes '':'' @
                      (if m \<in> set read_methods then codes ''read'' else codes ''write'')]))"

definition destination_matches :: "pystr \<Rightarrow> pystr \<Rightarrow> pystr \<Rightarrow> route_capability list" where
  "destination_matches audience m path =
     filter (\<lambda>c. codes (cp_audience c) = audience \<and> capability_matches c m path) manifest"

definition required_identity_scopes :: "pystr \<Rightarrow> pystr \<Rightarrow> pystr \<Rightarrow> identity_error + pystr list option" where
  "required_identity_scopes audience m path =
     res_bind (validate_binding audience m path) (\<lambda>_.
       if m = codes ''OPTIONS'' \<or> path \<in> set unprotected_paths then Inr None
       else case internal_owner_scope audience m path of
         Some scope \<Rightarrow> Inr (Some [scope])
       | None \<Rightarrow>
           (case remdups (map cp_scope (destination_matches audience m path)) of
              [] \<Rightarrow> public_scope audience m path
            | [s] \<Rightarrow> Inr (Some [codes s])
            | _ \<Rightarrow> Inl Runtime_Error))"

definition matching_capabilities ::
  "pystr \<Rightarrow> pystr \<Rightarrow> pystr \<Rightarrow> pystr \<Rightarrow> identity_error + route_capability list" where
  "matching_capabilities caller audience m path =
     (if caller \<notin> set principals then Inl Value_Error
      else res_bind (validate_binding audience m path) (\<lambda>_.
        Inr (filter (\<lambda>c. codes (cp_principal c) = caller \<and> codes (cp_audience c) = audience
                         \<and> capability_matches c m path) manifest)))"

definition service_principal_scopes ::
  "pystr \<Rightarrow> pystr \<Rightarrow> pystr \<Rightarrow> pystr \<Rightarrow> identity_error + pystr list option" where
  "service_principal_scopes caller audience m path =
     res_bind (matching_capabilities caller audience m path) single_scope"

definition named_subject_scopes ::
  "pystr \<Rightarrow> pystr \<Rightarrow> pystr \<Rightarrow> pystr \<Rightarrow> identity_error + pystr list option" where
  "named_subject_scopes caller audience m path =
     res_bind (matching_capabilities caller audience m path)
       (\<lambda>found. single_scope (filter cp_names_subject found))"

section \<open>Two patterns that can match one path\<close>

fun words :: "segment \<Rightarrow> string list option" where
  "words (Word w) = Some [w]"
| "words (One_Of ws) = Some ws"
| "words Any_Segment = None"

fun compatible :: "segment \<Rightarrow> segment \<Rightarrow> bool" where
  "compatible s t = (case (words s, words t) of
     (Some vs, Some ws) \<Rightarrow> list_ex (\<lambda>v. v \<in> set ws) vs | _ \<Rightarrow> True)"

lemma codes_inj [simp]: "codes v = codes w \<longleftrightarrow> v = w"
  unfolding codes_def by (rule inj_map_eq_map) (rule injI, simp)

lemma codes_Nil [simp]: "codes [] = []" and codes_eq_Nil [simp]: "codes w = [] \<longleftrightarrow> w = []"
  by (simp_all add: codes_def)

lemma segment_matches_words:
  "segment_matches s x \<Longrightarrow> (case words s of None \<Rightarrow> True | Some ws \<Rightarrow> \<exists>w \<in> set ws. x = codes w)"
  by (cases s) (auto simp: list_ex_iff)

lemma compatible_if_both_match:
  "segment_matches s x \<Longrightarrow> segment_matches t x \<Longrightarrow> compatible s t"
  by (drule segment_matches_words, drule segment_matches_words) (auto simp: list_ex_iff split: option.splits)

lemma fullmatch_compatible:
  assumes "fullmatch p path" "fullmatch q path"
  shows "list_all2 compatible p q"
proof -
  obtain xs where "list_all2 segment_matches p xs" "list_all2 segment_matches q xs"
    using assms by (auto simp: fullmatch_def split: list.splits nat.splits)
  then have "list_all2 segment_matches p xs" "list_all2 (\<lambda>x t. segment_matches t x) xs q"
    by (auto simp: list_all2_conv_all_nth)
  then show ?thesis
    by (rule list_all2_trans [rotated]) (rule compatible_if_both_match)
qed

definition clash :: "route_capability \<Rightarrow> route_capability \<Rightarrow> bool" where
  "clash c d \<longleftrightarrow> cp_method c = cp_method d \<and> cp_audience c = cp_audience d \<and>
     list_all2 compatible (cp_pattern c) (cp_pattern d) \<and> cp_scope c \<noteq> cp_scope d"

lemma manifest_clash_free: "list_all (\<lambda>c. list_all (\<lambda>d. \<not> clash c d) manifest) manifest"
  by code_simp


lemma manifest_disjoint_owner:
  "list_all (\<lambda>c. list_all (\<lambda>(target, verb, pat, _).
     \<not> (cp_audience c = target \<and> cp_method c = verb \<and> list_all2 compatible (cp_pattern c) pat)) owner_bindings) manifest"
  by code_simp

lemma manifest_protected:
  "list_all (\<lambda>c. cp_method c \<noteq> ''OPTIONS'' \<and> list_all (\<lambda>path. \<not> fullmatch (cp_pattern c) path) unprotected_paths) manifest"
  by code_simp

section \<open>Decisions\<close>

lemma manifest_same_scope:
  assumes "c \<in> set manifest" "d \<in> set manifest" "cp_audience c = cp_audience d"
    and "capability_matches c m path" "capability_matches d m path"
  shows "cp_scope c = cp_scope d"
proof -
  have "\<not> clash c d" using manifest_clash_free assms(1,2) by (simp add: list_all_iff)
  moreover have "list_all2 compatible (cp_pattern c) (cp_pattern d)"
    using assms(4,5) fullmatch_compatible by (auto simp: capability_matches_def)
  ultimately show ?thesis using assms(3,4,5) by (auto simp: clash_def capability_matches_def)
qed

lemma remdups_all_equal: "x \<in> set xs \<Longrightarrow> \<forall>y \<in> set xs. y = x \<Longrightarrow> remdups xs = [x]"
proof -
  assume "x \<in> set xs" "\<forall>y \<in> set xs. y = x"
  then have "set xs = {x}" by blast
  then have s: "set (remdups xs) = {x}" by simp
  then obtain y ys where ys: "remdups xs = y # ys" by (cases "remdups xs") simp_all
  with s have "y = x" "set ys \<subseteq> {x}" by auto
  moreover have "y \<notin> set ys" using ys distinct_remdups [of xs] by simp
  ultimately have "ys = []" by (cases ys) auto
  with ys \<open>y = x\<close> show ?thesis by simp
qed

lemma scopes_of_matches:
  assumes "set found \<subseteq> {c \<in> set manifest. codes (cp_audience c) = audience \<and> capability_matches c m path}"
    and "c \<in> set found"
  shows "remdups (map cp_scope found) = [cp_scope c]"
proof (rule remdups_all_equal)
  show "\<forall>s \<in> set (map cp_scope found). s = cp_scope c"
  proof
    fix s assume "s \<in> set (map cp_scope found)"
    then obtain d where d: "d \<in> set found" "s = cp_scope d" by auto
    with assms have "cp_audience d = cp_audience c" by (metis (mono_tags, lifting) codes_inj mem_Collect_eq subsetD)
    then have "cp_scope d = cp_scope c"
      using manifest_same_scope [of d c m path] assms d(1) by blast
    with d(2) show "s = cp_scope c" by simp
  qed
qed (use assms(2) in simp)

lemma single_scope_cases:
  assumes "set found \<subseteq> {c \<in> set manifest. codes (cp_audience c) = audience \<and> capability_matches c m path}"
  obtains "found = []" "single_scope found = Inr None"
  | c where "c \<in> set found" "single_scope found = Inr (Some [codes (cp_scope c)])"
proof (cases found)
  case Nil
  then show ?thesis using that(1) by (simp add: single_scope_def)
next
  case (Cons c cs)
  then have "c \<in> set found" by simp
  then show ?thesis using that(2) [of c] scopes_of_matches [OF assms, of c] Cons by (auto simp: single_scope_def)
qed

lemma matching_capabilities_Inr:
  "matching_capabilities caller audience m path = Inr found \<Longrightarrow>
     caller \<in> set principals \<and> validate_binding audience m path = Inr () \<and>
     set found = {c \<in> set manifest. codes (cp_principal c) = caller \<and> codes (cp_audience c) = audience \<and> capability_matches c m path}"
  by (auto simp: matching_capabilities_def res_bind_Inr_iff split: if_splits)

lemma matching_not_runtime: "matching_capabilities caller audience m path \<noteq> Inl Runtime_Error"
  by (auto simp: matching_capabilities_def res_bind_iff validate_binding_def split: if_splits)


lemma single_scope_not_runtime:
  assumes "matching_capabilities caller audience m path = Inr found" "set found' \<subseteq> set found"
  shows "single_scope found' \<noteq> Inl Runtime_Error"
proof -
  have "set found' \<subseteq> {c \<in> set manifest. codes (cp_audience c) = audience \<and> capability_matches c m path}"
    using matching_capabilities_Inr [OF assms(1)] assms(2) by auto
  then show ?thesis by (rule single_scope_cases) simp_all
qed

lemma required_cases:
  assumes "validate_binding audience m path = Inr ()" "m \<noteq> codes ''OPTIONS''" "path \<notin> set unprotected_paths"
    and "internal_owner_scope audience m path = None"
    and "c \<in> set manifest" "codes (cp_audience c) = audience" "capability_matches c m path"
  shows "required_identity_scopes audience m path = Inr (Some [codes (cp_scope c)])"
proof -
  have "remdups (map cp_scope (destination_matches audience m path)) = [cp_scope c]"
    by (rule scopes_of_matches [of _ audience m path]) (use assms(5-7) in \<open>auto simp: destination_matches_def\<close>)
  then show ?thesis using assms(1-4) by (simp add: required_identity_scopes_def)
qed

lemma manifest_not_owner:
  assumes "c \<in> set manifest" "codes (cp_audience c) = audience" "capability_matches c m path"
  shows "internal_owner_scope audience m path = None"
proof -
  have "\<not> (audience = codes target \<and> m = codes verb \<and> fullmatch pat path)"
    if b: "(target, verb, pat, scope) \<in> set owner_bindings" for target verb pat scope
  proof
    assume h: "audience = codes target \<and> m = codes verb \<and> fullmatch pat path"
    then have "list_all2 compatible (cp_pattern c) pat"
      using assms(3) fullmatch_compatible by (auto simp: capability_matches_def)
    moreover have "cp_audience c = target" "cp_method c = verb"
      using h assms(2,3) by (auto simp: capability_matches_def)
    ultimately show False
      using manifest_disjoint_owner assms(1) b by (fastforce simp: list_all_iff)
  qed
  then show ?thesis by (auto simp: internal_owner_scope_def find_None_iff)
qed

lemma manifest_route_protected:
  assumes "c \<in> set manifest" "capability_matches c m path"
  shows "m \<noteq> codes ''OPTIONS'' \<and> path \<notin> set unprotected_paths"
  using manifest_protected assms by (auto simp: list_all_iff capability_matches_def)

lemma granted_by_capability:
  assumes "service_principal_scopes caller audience m path = Inr (Some scopes)"
  obtains c where "c \<in> set manifest" "codes (cp_principal c) = caller" "codes (cp_audience c) = audience"
    "capability_matches c m path" "scopes = [codes (cp_scope c)]" "validate_binding audience m path = Inr ()"
proof -
  obtain found where f: "matching_capabilities caller audience m path = Inr found"
    and s: "single_scope found = Inr (Some scopes)"
    using assms by (auto simp: service_principal_scopes_def res_bind_Inr_iff)
  note set_found = matching_capabilities_Inr [OF f]
  have "set found \<subseteq> {c \<in> set manifest. codes (cp_audience c) = audience \<and> capability_matches c m path}"
    using set_found by auto
  then show thesis
  proof (rule single_scope_cases)
    fix c assume c: "c \<in> set found" "single_scope found = Inr (Some [codes (cp_scope c)])"
    show thesis by (rule that [of c]) (use c s set_found in auto)
  qed (use s in simp)
qed

lemma named_is_granted:
  assumes "named_subject_scopes caller audience m path = Inr (Some scopes)"
  shows "service_principal_scopes caller audience m path = Inr (Some scopes)"
    and "\<exists>c \<in> set service_commands. codes (cp_principal c) = caller \<and> codes (cp_audience c) = audience
           \<and> capability_matches c m path \<and> scopes = [codes (cp_scope c)]"
proof -
  obtain found where f: "matching_capabilities caller audience m path = Inr found"
    and s: "single_scope (filter cp_names_subject found) = Inr (Some scopes)"
    using assms by (auto simp: named_subject_scopes_def res_bind_Inr_iff)
  note set_found = matching_capabilities_Inr [OF f]
  have sub: "set found \<subseteq> {c \<in> set manifest. codes (cp_audience c) = audience \<and> capability_matches c m path}"
    using set_found by auto
  then have "set (filter cp_names_subject found) \<subseteq> \<dots>" by auto
  then obtain c where c: "c \<in> set (filter cp_names_subject found)" "scopes = [codes (cp_scope c)]"
    by (rule single_scope_cases) (use s in auto)
  then have "remdups (map cp_scope found) = [cp_scope c]"
    by (intro scopes_of_matches [OF sub]) simp
  moreover have "found \<noteq> []" using c(1) by auto
  ultimately show "service_principal_scopes caller audience m path = Inr (Some scopes)"
    using f c(2) by (simp add: service_principal_scopes_def single_scope_def)
  have "c \<in> set manifest" "cp_names_subject c" using c(1) set_found by auto
  then have "c \<in> set service_commands"
    by (auto simp: manifest_def telegram_learning_def telegram_research_def telegram_capability_def)
  then show "\<exists>c \<in> set service_commands. codes (cp_principal c) = caller \<and> codes (cp_audience c) = audience
           \<and> capability_matches c m path \<and> scopes = [codes (cp_scope c)]"
    using c set_found by auto
qed

lemma validate_not_runtime: "validate_binding audience m path \<noteq> Inl Runtime_Error"
  by (simp add: validate_binding_def)

lemma public_not_runtime: "public_scope audience m path \<noteq> Inl Runtime_Error"
  by (simp add: public_scope_def)

lemma destination_scopes:
  "remdups (map cp_scope (destination_matches audience m path)) = [] \<or>
   (\<exists>s. remdups (map cp_scope (destination_matches audience m path)) = [s])"
proof (cases "destination_matches audience m path")
  case (Cons c cs)
  then have "c \<in> set (destination_matches audience m path)" by simp
  then have "remdups (map cp_scope (destination_matches audience m path)) = [cp_scope c]"
    by (intro scopes_of_matches [of _ audience m path]) (auto simp: destination_matches_def)
  then show ?thesis by blast
qed simp

lemma required_not_runtime: "required_identity_scopes audience m path \<noteq> Inl Runtime_Error"
proof (cases "validate_binding audience m path")
  case (Inl e)
  then show ?thesis using validate_not_runtime [of audience m path] by (simp add: required_identity_scopes_def)
next
  case (Inr u)
  obtain xs where xs: "remdups (map cp_scope (destination_matches audience m path)) = xs" "xs = [] \<or> (\<exists>s. xs = [s])"
    using destination_scopes by blast
  have "(case xs of [] \<Rightarrow> public_scope audience m path | [s] \<Rightarrow> Inr (Some [codes s]) | _ \<Rightarrow> Inl Runtime_Error) \<noteq> Inl Runtime_Error"
    using xs(2) public_not_runtime by auto
  then show ?thesis
    unfolding required_identity_scopes_def Inr res_bind.simps xs(1)
    by (cases "internal_owner_scope audience m path") simp_all
qed

lemma granted_required:
  assumes "service_principal_scopes caller audience m path = Inr (Some scopes)"
  shows "required_identity_scopes audience m path = Inr (Some scopes) \<and> internal_owner_scope audience m path = None"
proof -
  obtain c where c: "c \<in> set manifest" "codes (cp_audience c) = audience" "capability_matches c m path"
    "scopes = [codes (cp_scope c)]" "validate_binding audience m path = Inr ()"
    using assms by (rule granted_by_capability)
  note owner = manifest_not_owner [OF c(1-3)] and route = manifest_route_protected [OF c(1,3)]
  show ?thesis
    using required_cases [OF c(5) route [THEN conjunct1] route [THEN conjunct2] owner c(1-3)] owner c(4) by simp
qed

section \<open>Claims\<close>

text \<open>
  C30: the capability manifest is unambiguous. Whatever the audience, the method and the path, no
  decision ends in the error about conflicting scopes, although patterns of the manifest overlap.
\<close>

theorem scopes_never_conflict:
  "required_identity_scopes audience m path \<noteq> Inl Runtime_Error \<and>
   service_principal_scopes caller audience m path \<noteq> Inl Runtime_Error \<and>
   named_subject_scopes caller audience m path \<noteq> Inl Runtime_Error"
proof (intro conjI)
  show "required_identity_scopes audience m path \<noteq> Inl Runtime_Error" by (rule required_not_runtime)
  show "service_principal_scopes caller audience m path \<noteq> Inl Runtime_Error"
  proof (cases "matching_capabilities caller audience m path")
    case (Inr found)
    then show ?thesis using single_scope_not_runtime [OF Inr order_refl] by (simp add: service_principal_scopes_def)
  qed (use matching_not_runtime [of caller audience m path] in \<open>simp add: service_principal_scopes_def\<close>)
  show "named_subject_scopes caller audience m path \<noteq> Inl Runtime_Error"
  proof (cases "matching_capabilities caller audience m path")
    case (Inr found)
    have "set (filter cp_names_subject found) \<subseteq> set found" by simp
    then show ?thesis using single_scope_not_runtime [OF Inr] by (simp add: named_subject_scopes_def Inr)
  qed (use matching_not_runtime [of caller audience m path] in \<open>simp add: named_subject_scopes_def\<close>)
qed

text \<open>
  C15: what Platform grants to a service for a route is exactly what the destination asks of that
  route, so a granted command is never refused for its scope; and the routes that only Platform
  may command are granted to no service.
\<close>

theorem grant_is_what_is_required:
  assumes "service_principal_scopes caller audience m path = Inr (Some scopes)"
  shows "required_identity_scopes audience m path = Inr (Some scopes) \<and> internal_owner_scope audience m path = None"
  using assms by (rule granted_required)

theorem grant_is_what_is_required_witness:
  "required_identity_scopes (codes ''research'') (codes ''PUT'') (codes ''/api/papers/12/star'')
     = Inr (Some [codes ''research:papers:write'']) \<and>
   internal_owner_scope (codes ''research'') (codes ''PUT'') (codes ''/api/papers/12/star'') = None"
  by (rule grant_is_what_is_required [of "codes ''telegram''"]) code_simp

end
