(* ===== verification/Identity_Assertion.thy ===== *)
theory Identity_Assertion
  imports Identity_Routes "HOL-Library.List_Lexorder" "HOL-Library.Monad_Syntax"
begin

text \<open>
  Signed identity assertions (\<open>identity_assertions.py\<close>): the compact form with its base64url parts,
  the signer, the verifier and the registry of used identifiers. JSON texts, signatures and keys are
  one record of functions; the locale \<open>assertion_library\<close> says what is assumed of them. Instants are
  microseconds, the time stamps of a claim are seconds.
\<close>

section \<open>base64url\<close>

definition b64_char :: "nat \<Rightarrow> nat" where
  "b64_char d = (if d < 26 then 65 + d else if d < 52 then 71 + d else if d < 62 then d - 4 else if d = 62 then 45 else 95)"

text \<open>
  \<open>b64decode(value, altchars=b"-_")\<close> replaces the two characters by \<open>+\<close> and \<open>/\<close> and decodes the
  standard alphabet, which therefore is accepted too.
\<close>

definition b64_digit :: "nat \<Rightarrow> nat option" where
  "b64_digit c =
     (if 65 \<le> c \<and> c \<le> 90 then Some (c - 65)
      else if 97 \<le> c \<and> c \<le> 122 then Some (c - 71)
      else if 48 \<le> c \<and> c \<le> 57 then Some (c + 4)
      else if c = 45 \<or> c = 43 then Some 62
      else if c = 95 \<or> c = 47 then Some 63
      else None)"

fun b64_digits :: "nat list \<Rightarrow> nat list" where
  "b64_digits [] = []"
| "b64_digits [a] = [a div 4, a mod 4 * 16]"
| "b64_digits [a, b] = [a div 4, a mod 4 * 16 + b div 16, b mod 16 * 4]"
| "b64_digits (a # b # c # bs) =
     a div 4 # (a mod 4 * 16 + b div 16) # (b mod 16 * 4 + c div 64) # c mod 64 # b64_digits bs"

fun b64_bytes :: "nat list \<Rightarrow> nat list option" where
  "b64_bytes [] = Some []"
| "b64_bytes [x] = None"
| "b64_bytes [x, y] = Some [x * 4 + y div 16]"
| "b64_bytes [x, y, z] = Some [x * 4 + y div 16, y mod 16 * 16 + z div 4]"
| "b64_bytes (x # y # z # w # ds) =
     map_option (\<lambda>bs. (x * 4 + y div 16) # (y mod 16 * 16 + z div 4) # (z mod 4 * 64 + w) # bs) (b64_bytes ds)"

definition encode_bytes :: "nat list \<Rightarrow> pystr" where
  "encode_bytes bs = map b64_char (b64_digits bs)"

text \<open>\<open>=\<close> is code point 61.\<close>

definition decode_bytes :: "pystr \<Rightarrow> identity_error + nat list" where
  "decode_bytes s =
     (if s = [] \<or> 61 \<in> set s then Inl Assertion_Error
      else case Option.bind (those (map b64_digit s)) b64_bytes of
        None \<Rightarrow> Inl Assertion_Error
      | Some bs \<Rightarrow> Inr bs)"

definition is_bytes :: "nat list \<Rightarrow> bool" where
  "is_bytes bs \<longleftrightarrow> list_all (\<lambda>b. b < 256) bs"

lemma b64_digit_char: "d < 64 \<Longrightarrow> b64_digit (b64_char d) = Some d"
  by (auto simp: b64_digit_def b64_char_def)

lemma b64_char_range: "d < 64 \<Longrightarrow> b64_char d \<notin> {46, 61} \<and> 45 \<le> b64_char d"
  by (auto simp: b64_char_def)

lemma b64_digits_small: "is_bytes bs \<Longrightarrow> \<forall>d \<in> set (b64_digits bs). d < 64"
  by (induction bs rule: b64_digits.induct) (auto simp: is_bytes_def)

lemma b64_bytes_digits: "is_bytes bs \<Longrightarrow> b64_bytes (b64_digits bs) = Some bs"
  by (induction bs rule: b64_digits.induct) (auto simp: is_bytes_def)

lemma b64_digits_Nil [simp]: "b64_digits bs = [] \<longleftrightarrow> bs = []"
  by (cases bs rule: b64_digits.cases) auto

lemma those_map_Some: "\<forall>x \<in> set xs. f (g x) = Some x \<Longrightarrow> those (map f (map g xs)) = Some xs"
  by (induction xs) auto

lemma encode_bytes_chars: "is_bytes bs \<Longrightarrow> c \<in> set (encode_bytes bs) \<Longrightarrow> c \<noteq> 46 \<and> c \<noteq> 61"
  using b64_digits_small b64_char_range by (fastforce simp: encode_bytes_def)

lemma decode_encode_bytes:
  assumes "is_bytes bs" "bs \<noteq> []"
  shows "decode_bytes (encode_bytes bs) = Inr bs"
proof -
  have "those (map b64_digit (encode_bytes bs)) = Some (b64_digits bs)"
    unfolding encode_bytes_def
    by (rule those_map_Some) (use b64_digits_small [OF assms(1)] b64_digit_char in blast)
  moreover have "61 \<notin> set (encode_bytes bs)" using encode_bytes_chars [OF assms(1)] by blast
  moreover have "encode_bytes bs \<noteq> []" using assms(2) by (simp add: encode_bytes_def)
  ultimately show ?thesis using b64_bytes_digits [OF assms(1)] by (simp add: decode_bytes_def)
qed

section \<open>JSON values and the libraries\<close>

text \<open>An object is its list of fields as they occur in the text, so that duplicates can be seen.\<close>

datatype json_value = JNull | JBool bool | JInt int | JFloat real | JStr pystr | JList "json_value list" | JObj "(pystr \<times> json_value) list"

text \<open>
  \<open>json.loads\<close> raises \<open>JSONDecodeError\<close> or \<open>UnicodeDecodeError\<close>, the plain \<open>ValueError\<close> of a number
  with too many digits, or \<open>RecursionError\<close>.
\<close>

datatype loads_failure = Bad_Json | Digit_Limit | Nesting_Limit

record ('sk, 'pk) library =
  li_loads :: "nat list \<Rightarrow> loads_failure + json_value"
  li_dumps :: "json_value \<Rightarrow> nat list"
  li_sign :: "'sk \<Rightarrow> pystr \<Rightarrow> nat list"
  li_check :: "'pk \<Rightarrow> nat list \<Rightarrow> pystr \<Rightarrow> bool"
  li_public :: "'sk \<Rightarrow> 'pk"

text \<open>The hook that refuses duplicate fields sees every object of the text, nested ones included.\<close>

fun has_duplicates :: "json_value \<Rightarrow> bool" where
  "has_duplicates (JObj kvs) = (\<not> distinct (map fst kvs) \<or> list_ex (\<lambda>kv. has_duplicates (snd kv)) kvs)"
| "has_duplicates (JList xs) = list_ex has_duplicates xs"
| "has_duplicates v = False"

definition decode_json_object ::
  "('sk, 'pk) library \<Rightarrow> pystr \<Rightarrow> string list \<Rightarrow> identity_error + (pystr \<Rightarrow> json_value option)" where
  "decode_json_object lib s expected =
     res_bind (decode_bytes s) (\<lambda>bs.
       case li_loads lib bs of
         Inl Bad_Json \<Rightarrow> Inl Assertion_Error
       | Inl Digit_Limit \<Rightarrow> Inl Value_Error
       | Inl Nesting_Limit \<Rightarrow> Inl Runtime_Error
       | Inr v \<Rightarrow>
           if has_duplicates v then Inl Assertion_Error
           else (case v of
               JObj kvs \<Rightarrow> if set (map fst kvs) = set (map codes expected) then Inr (map_of kvs) else Inl Assertion_Error
             | _ \<Rightarrow> Inl Assertion_Error))"

definition encode_json :: "('sk, 'pk) library \<Rightarrow> json_value \<Rightarrow> pystr" where
  "encode_json lib v = encode_bytes (li_dumps lib v)"

section \<open>Claims\<close>

record identity_claims =
  ic_issuer :: pystr
  ic_audience :: pystr
  ic_subject :: pystr
  ic_principal :: pystr
  ic_user :: "int option"
  ic_role :: "pystr option"
  ic_session :: "pystr option"
  ic_request :: pystr
  ic_method :: pystr
  ic_path :: pystr
  ic_scopes :: "pystr list"
  ic_issued :: int
  ic_from :: int
  ic_expires :: int
  ic_token :: pystr

definition header_fields :: "string list" where
  "header_fields = [''alg'', ''kid'', ''typ'']"

definition claim_fields :: "string list" where
  "claim_fields = [''aud'', ''exp'', ''iat'', ''iss'', ''jti'', ''mth'', ''nbf'', ''prn'', ''pth'', ''rid'', ''role'',
     ''scp'', ''sid'', ''sub'', ''uid'', ''ver'']"

definition optional_json :: "('a \<Rightarrow> json_value) \<Rightarrow> 'a option \<Rightarrow> json_value" where
  "optional_json f v = (case v of None \<Rightarrow> JNull | Some x \<Rightarrow> f x)"

definition to_payload :: "identity_claims \<Rightarrow> json_value" where
  "to_payload c = JObj (zip (map codes claim_fields)
     [JStr (ic_audience c), JInt (ic_expires c), JInt (ic_issued c), JStr (ic_issuer c), JStr (ic_token c),
      JStr (ic_method c), JInt (ic_from c), JStr (ic_principal c), JStr (ic_path c), JStr (ic_request c),
      optional_json JStr (ic_role c), JList (map JStr (ic_scopes c)), optional_json JStr (ic_session c),
      JStr (ic_subject c), optional_json JInt (ic_user c), JInt 1])"

definition header_json :: "pystr \<Rightarrow> json_value" where
  "header_json kid = JObj [(codes ''alg'', JStr (codes ''EdDSA'')), (codes ''kid'', JStr kid), (codes ''typ'', JStr (codes ''JWT''))]"

definition required_text :: "pystr \<Rightarrow> bool" where
  "required_text s \<longleftrightarrow> py_strip s \<noteq> [] \<and> s = py_strip s"

definition optional_text :: "pystr option \<Rightarrow> bool" where
  "optional_text v = (case v of None \<Rightarrow> True | Some s \<Rightarrow> required_text s)"

definition request_method_ok :: "pystr \<Rightarrow> bool" where
  "request_method_ok m \<longleftrightarrow> required_text m \<and> method_ok m"

definition request_path_ok :: "pystr \<Rightarrow> bool" where
  "request_path_ok p \<longleftrightarrow> required_text p \<and> path_ok p"

definition normalize_scopes :: "pystr list \<Rightarrow> pystr list option" where
  "normalize_scopes scopes =
     (if list_all required_text scopes \<and> scopes \<noteq> [] then Some (sort (remdups scopes)) else None)"

fun claim_text :: "json_value option \<Rightarrow> pystr option" where
  "claim_text (Some (JStr s)) = (if required_text s then Some s else None)"
| "claim_text v = None"

fun claim_optional_text :: "json_value option \<Rightarrow> pystr option option" where
  "claim_optional_text (Some (JStr s)) = (if required_text s then Some (Some s) else None)"
| "claim_optional_text (Some JNull) = Some None"
| "claim_optional_text None = Some None"
| "claim_optional_text v = None"

fun claim_timestamp :: "json_value option \<Rightarrow> int option" where
  "claim_timestamp (Some (JInt n)) = (if n < 0 then None else Some n)"
| "claim_timestamp v = None"

fun claim_user :: "json_value option \<Rightarrow> int option option" where
  "claim_user (Some (JInt n)) = (if n \<le> 0 then None else Some (Some n))"
| "claim_user (Some JNull) = Some None"
| "claim_user None = Some None"
| "claim_user v = None"

text \<open>In Python \<open>True\<close> and \<open>1.0\<close> equal 1.\<close>

fun is_one :: "json_value option \<Rightarrow> bool" where
  "is_one (Some (JInt n)) = (n = 1)"
| "is_one (Some (JBool b)) = b"
| "is_one (Some (JFloat x)) = (x = 1)"
| "is_one v = False"

fun claim_string :: "json_value \<Rightarrow> pystr option" where
  "claim_string (JStr s) = Some s"
| "claim_string v = None"

fun claim_scopes :: "json_value option \<Rightarrow> pystr list option" where
  "claim_scopes (Some (JList xs)) = Option.bind (those (map claim_string xs)) normalize_scopes"
| "claim_scopes v = None"

definition claim_method :: "json_value option \<Rightarrow> pystr option" where
  "claim_method v = Option.bind (claim_text v) (\<lambda>m. if request_method_ok m then Some m else None)"

definition claim_path :: "json_value option \<Rightarrow> pystr option" where
  "claim_path v = Option.bind (claim_text v) (\<lambda>p. if request_path_ok p then Some p else None)"

text \<open>Every failure is the same exception, so the order of the checks cannot be seen.\<close>

definition claims_from_payload :: "(pystr \<Rightarrow> json_value option) \<Rightarrow> identity_claims option" where
  "claims_from_payload p =
     (if \<not> is_one (p (codes ''ver'')) then None
      else do {
        scopes \<leftarrow> claim_scopes (p (codes ''scp''));
        user \<leftarrow> claim_user (p (codes ''uid''));
        iss \<leftarrow> claim_text (p (codes ''iss''));
        aud \<leftarrow> claim_text (p (codes ''aud''));
        sub \<leftarrow> claim_text (p (codes ''sub''));
        prn \<leftarrow> claim_text (p (codes ''prn''));
        role \<leftarrow> claim_optional_text (p (codes ''role''));
        sid \<leftarrow> claim_optional_text (p (codes ''sid''));
        rid \<leftarrow> claim_text (p (codes ''rid''));
        mth \<leftarrow> claim_method (p (codes ''mth''));
        pth \<leftarrow> claim_path (p (codes ''pth''));
        iat \<leftarrow> claim_timestamp (p (codes ''iat''));
        nbf \<leftarrow> claim_timestamp (p (codes ''nbf''));
        ex \<leftarrow> claim_timestamp (p (codes ''exp''));
        jti \<leftarrow> claim_text (p (codes ''jti''));
        Some \<lparr>ic_issuer = iss, ic_audience = aud, ic_subject = sub, ic_principal = prn, ic_user = user, ic_role = role,
              ic_session = sid, ic_request = rid, ic_method = mth, ic_path = pth, ic_scopes = scopes,
              ic_issued = iat, ic_from = nbf, ic_expires = ex, ic_token = jti\<rparr>
      })"

section \<open>The signer\<close>

definition second :: int where
  "second = 1000000"

definition max_ttl :: int where
  "max_ttl = 60 * second"

definition timestamp :: "int \<Rightarrow> int" where
  "timestamp t = t div second"

record 'sk signer =
  sg_issuer :: pystr
  sg_key_id :: pystr
  sg_key :: 'sk

text \<open>The arguments of \<open>issue\<close> that say for whom and for which request; \<open>timing\<close> holds the rest.\<close>

record assertion_request =
  aq_audience :: pystr
  aq_subject :: pystr
  aq_principal :: pystr
  aq_user :: "int option"
  aq_role :: "pystr option"
  aq_session :: "pystr option"
  aq_id :: pystr
  aq_method :: pystr
  aq_path :: pystr
  aq_scopes :: "pystr list"

record timing =
  tm_now :: int
  tm_from :: "int option"
  tm_ttl :: int
  tm_token :: pystr

definition valid_from :: "timing \<Rightarrow> int" where
  "valid_from tm = (case tm_from tm of None \<Rightarrow> tm_now tm | Some t \<Rightarrow> t)"

definition issued_claims :: "pystr \<Rightarrow> assertion_request \<Rightarrow> timing \<Rightarrow> pystr list \<Rightarrow> identity_claims" where
  "issued_claims issuer aq tm scopes =
     \<lparr>ic_issuer = issuer, ic_audience = aq_audience aq, ic_subject = aq_subject aq, ic_principal = aq_principal aq,
      ic_user = aq_user aq, ic_role = aq_role aq, ic_session = aq_session aq, ic_request = aq_id aq,
      ic_method = aq_method aq, ic_path = aq_path aq, ic_scopes = scopes, ic_issued = timestamp (tm_now tm),
      ic_from = timestamp (valid_from tm), ic_expires = timestamp (tm_now tm + tm_ttl tm), ic_token = tm_token tm\<rparr>"

definition request_texts_ok :: "assertion_request \<Rightarrow> bool" where
  "request_texts_ok aq \<longleftrightarrow> required_text (aq_audience aq) \<and> required_text (aq_subject aq) \<and> required_text (aq_principal aq)
     \<and> optional_text (aq_role aq) \<and> optional_text (aq_session aq) \<and> required_text (aq_id aq)
     \<and> request_method_ok (aq_method aq) \<and> request_path_ok (aq_path aq)"

definition signed_text :: "('sk, 'pk) library \<Rightarrow> pystr \<Rightarrow> identity_claims \<Rightarrow> pystr" where
  "signed_text lib kid c = encode_json lib (header_json kid) @ [46] @ encode_json lib (to_payload c)"

definition issue_claims :: "pystr \<Rightarrow> assertion_request \<Rightarrow> timing \<Rightarrow> identity_error + identity_claims" where
  "issue_claims issuer aq tm =
     (if tm_ttl tm \<le> 0 \<or> tm_ttl tm > max_ttl then Inl Value_Error
      else if valid_from tm > tm_now tm + tm_ttl tm then Inl Value_Error
      else case normalize_scopes (aq_scopes aq) of
        None \<Rightarrow> Inl Value_Error
      | Some scopes \<Rightarrow>
          if (case aq_user aq of None \<Rightarrow> False | Some u \<Rightarrow> u \<le> 0) then Inl Value_Error
          else if \<not> request_texts_ok aq \<or> \<not> required_text (tm_token tm) then Inl Value_Error
          else Inr (issued_claims issuer aq tm scopes))"

definition issue ::
  "('sk, 'pk) library \<Rightarrow> 'sk signer \<Rightarrow> assertion_request \<Rightarrow> timing \<Rightarrow> identity_error + pystr" where
  "issue lib sg aq tm =
     res_bind (issue_claims (sg_issuer sg) aq tm) (\<lambda>c.
       let signed = signed_text lib (sg_key_id sg) c
       in Inr (signed @ [46] @ encode_bytes (li_sign lib (sg_key sg) signed)))"

section \<open>The registry of used identifiers\<close>

text \<open>The entries in the order of their arrival.\<close>

record replay_cache =
  rc_maximum :: nat
  rc_entries :: "(pystr \<times> int) list"

definition consume :: "pystr \<Rightarrow> int \<Rightarrow> int \<Rightarrow> replay_cache \<Rightarrow> (identity_error + unit) \<times> replay_cache" where
  "consume token expires now c =
     (let live = dropWhile (\<lambda>(_, e). e < now) (rc_entries c)
      in if token \<in> fst ` set live then (Inl Assertion_Error, c\<lparr>rc_entries := live\<rparr>)
         else (Inr (), c\<lparr>rc_entries := drop (length live + 1 - rc_maximum c) live @ [(token, expires)]\<rparr>))"

section \<open>The verifier\<close>

record 'pk verification_key =
  vk_key :: 'pk
  vk_accept_until :: "int option"

record 'pk verifier =
  vf_issuer :: pystr
  vf_audience :: pystr
  vf_keys :: "(pystr \<times> 'pk verification_key) list"
  vf_skew :: int

text \<open>The arguments of \<open>verify\<close> about the request at hand.\<close>

record binding =
  bd_scopes :: "pystr list"
  bd_request :: pystr
  bd_method :: pystr
  bd_path :: pystr

text \<open>\<open>clock_skew\<close> is a duration in microseconds; what is kept of it is whole seconds.\<close>

definition make_verifier :: "pystr \<Rightarrow> pystr \<Rightarrow> (pystr \<times> 'pk verification_key) list \<Rightarrow> int \<Rightarrow> identity_error + 'pk verifier" where
  "make_verifier issuer audience keys clock_skew =
     (if \<not> required_text issuer \<or> \<not> required_text audience then Inl Value_Error
      else if keys = [] then Inl Value_Error
      else if \<not> list_all (\<lambda>k. required_text (fst k)) keys then Inl Value_Error
      else if clock_skew < 0 \<or> clock_skew \<ge> max_ttl then Inl Value_Error
      else Inr \<lparr>vf_issuer = issuer, vf_audience = audience, vf_keys = keys, vf_skew = timestamp clock_skew\<rparr>)"

definition max_compact_length :: nat where
  "max_compact_length = 16 * 1024"

definition compact_parts :: "pystr \<Rightarrow> identity_error + pystr \<times> pystr \<times> pystr" where
  "compact_parts token =
     (if length token > max_compact_length then Inl Assertion_Error
      else case py_split 46 token of
        [h, p, s] \<Rightarrow> if h \<noteq> [] \<and> p \<noteq> [] \<and> s \<noteq> [] then Inr (h, p, s) else Inl Assertion_Error
      | _ \<Rightarrow> Inl Assertion_Error)"

definition key_of_header :: "'pk verifier \<Rightarrow> int \<Rightarrow> (pystr \<Rightarrow> json_value option) \<Rightarrow> identity_error + 'pk" where
  "key_of_header v now header =
     (if header (codes ''alg'') \<noteq> Some (JStr (codes ''EdDSA'')) \<or> header (codes ''typ'') \<noteq> Some (JStr (codes ''JWT''))
      then Inl Assertion_Error
      else case Option.bind (claim_text (header (codes ''kid''))) (map_of (vf_keys v)) of
        None \<Rightarrow> Inl Assertion_Error
      | Some k \<Rightarrow>
          (case vk_accept_until k of
             None \<Rightarrow> Inr (vk_key k)
           | Some t \<Rightarrow> if now > t then Inl Assertion_Error else Inr (vk_key k)))"

text \<open>A malformed request raises the plain \<open>ValueError\<close> of the text checks, not the error of an assertion.\<close>

definition check_binding :: "'pk verifier \<Rightarrow> binding \<Rightarrow> identity_claims \<Rightarrow> identity_error + unit" where
  "check_binding v b c =
     (if \<not> required_text (bd_request b) then Inl Value_Error
      else if ic_issuer c \<noteq> vf_issuer v then Inl Assertion_Error
      else if ic_audience c \<noteq> vf_audience v then Inl Assertion_Error
      else if ic_request c \<noteq> bd_request b then Inl Assertion_Error
      else if \<not> request_method_ok (bd_method b) then Inl Value_Error
      else if ic_method c \<noteq> bd_method b then Inl Assertion_Error
      else if \<not> request_path_ok (bd_path b) then Inl Value_Error
      else if ic_path c \<noteq> bd_path b then Inl Assertion_Error
      else case normalize_scopes (bd_scopes b) of
        None \<Rightarrow> Inl Value_Error
      | Some scopes \<Rightarrow> if \<not> set scopes \<subseteq> set (ic_scopes c) then Inl Assertion_Error else Inr ())"

definition check_times :: "'pk verifier \<Rightarrow> int \<Rightarrow> identity_claims \<Rightarrow> identity_error + unit" where
  "check_times v now c =
     (let t = timestamp now; skew = vf_skew v
      in if ic_expires c \<le> ic_issued c then Inl Assertion_Error
         else if ic_from c > ic_expires c then Inl Assertion_Error
         else if ic_expires c - ic_issued c > 60 then Inl Assertion_Error
         else if ic_from c > t + skew then Inl Assertion_Error
         else if ic_issued c > t + skew then Inl Assertion_Error
         else if ic_expires c < t - skew then Inl Assertion_Error
         else Inr ())"

definition check_assertion ::
  "('sk, 'pk) library \<Rightarrow> 'pk verifier \<Rightarrow> pystr \<Rightarrow> binding \<Rightarrow> int \<Rightarrow> identity_error + identity_claims" where
  "check_assertion lib v token b now =
     res_bind (compact_parts token) (\<lambda>(h, p, s).
     res_bind (decode_json_object lib h header_fields) (\<lambda>header.
     res_bind (key_of_header v now header) (\<lambda>key.
     res_bind (decode_bytes s) (\<lambda>signature.
       if \<not> li_check lib key signature (h @ [46] @ p) then Inl Assertion_Error
       else res_bind (decode_json_object lib p claim_fields) (\<lambda>payload.
         case claims_from_payload payload of
           None \<Rightarrow> Inl Assertion_Error
         | Some c \<Rightarrow>
             res_bind (check_binding v b c) (\<lambda>_.
             res_bind (check_times v now c) (\<lambda>_. Inr c)))))))"

definition verify ::
  "('sk, 'pk) library \<Rightarrow> 'pk verifier \<Rightarrow> pystr \<Rightarrow> binding \<Rightarrow> int \<Rightarrow> replay_cache
    \<Rightarrow> (identity_error + identity_claims) \<times> replay_cache" where
  "verify lib v token b now cache =
     (case check_assertion lib v token b now of
        Inl e \<Rightarrow> (Inl e, cache)
      | Inr c \<Rightarrow>
          (case consume (ic_token c) (ic_expires c + vf_skew v) (timestamp now) cache of
             (Inl e, cache') \<Rightarrow> (Inl e, cache')
           | (Inr _, cache') \<Rightarrow> (Inr c, cache')))"

section \<open>Replay\<close>

fun verify_all ::
  "('sk, 'pk) library \<Rightarrow> 'pk verifier \<Rightarrow> (pystr \<times> binding \<times> int) list \<Rightarrow> replay_cache
    \<Rightarrow> (identity_error + identity_claims) list \<times> replay_cache" where
  "verify_all lib v [] cache = ([], cache)"
| "verify_all lib v ((token, b, now) # rs) cache =
     (case verify lib v token b now cache of
        (r, cache1) \<Rightarrow> (case verify_all lib v rs cache1 of (rest, cache2) \<Rightarrow> (r # rest, cache2)))"

definition acceptances :: "(identity_error + identity_claims) list \<Rightarrow> nat" where
  "acceptances rs = length (filter (\<lambda>r. \<not> isl r) rs)"

definition attempt_time :: "pystr \<times> binding \<times> int \<Rightarrow> int" where
  "attempt_time a = (case a of (_, _, now) \<Rightarrow> timestamp now)"

text \<open>
  What has become of an entry \<open>(i, e)\<close> after \<open>n\<close> later acceptances, the last attempt being at \<open>t\<close>: it
  still has \<open>n\<close> entries behind it, or it is expired, or \<open>n\<close> reaches the capacity.
\<close>

definition remembered :: "pystr \<Rightarrow> int \<Rightarrow> nat \<Rightarrow> int \<Rightarrow> replay_cache \<Rightarrow> bool" where
  "remembered i e n t c \<longleftrightarrow>
     (\<exists>pre post. rc_entries c = pre @ (i, e) # post \<and> length post = n) \<or> e < t \<or> rc_maximum c \<le> n"

lemma dropWhile_keeps:
  "(\<exists>pre'. dropWhile P (pre @ x # post) = pre' @ x # post) \<or> P x"
  by (induction pre) auto

lemma consume_maximum: "rc_maximum (snd (consume i e t c)) = rc_maximum c"
  by (simp add: consume_def Let_def)

lemma consume_remembers:
  assumes rem: "remembered i e n t c" and later: "t \<le> now" and run: "consume j f now c = (r, c')"
  shows "remembered i e (case r of Inl _ \<Rightarrow> n | Inr _ \<Rightarrow> Suc n) now c'"
proof (cases "e < now \<or> rc_maximum c \<le> n")
  case True
  have "rc_maximum c' = rc_maximum c" using consume_maximum [of j f now c] run by simp
  then show ?thesis using True by (auto simp: remembered_def split: sum.split)
next
  case False
  then obtain pre post where c: "rc_entries c = pre @ (i, e) # post" "length post = n"
    using rem later by (auto simp: remembered_def)
  define live where "live = dropWhile (\<lambda>(_, e). e < now) (rc_entries c)"
  obtain pre' where live: "live = pre' @ (i, e) # post"
    using dropWhile_keeps [of "\<lambda>(_, e). e < now" pre "(i, e)" post] False c(1) by (auto simp: live_def)
  show ?thesis
  proof (cases "j \<in> fst ` set live")
    case True
    then have "r = Inl Assertion_Error" "c' = c\<lparr>rc_entries := live\<rparr>"
      using run by (simp_all add: consume_def live_def [symmetric] Let_def)
    then show ?thesis using live c(2) by (auto simp: remembered_def)
  next
    case fresh: False
    then have r: "r = Inr ()" and c': "c' = c\<lparr>rc_entries := drop (length live + 1 - rc_maximum c) live @ [(j, f)]\<rparr>"
      using run by (simp_all add: consume_def live_def [symmetric] Let_def)
    show ?thesis
    proof (cases "rc_maximum c \<le> Suc n")
      case True
      then show ?thesis by (simp add: remembered_def r c')
    next
      case False
      then have "length live + 1 - rc_maximum c \<le> length pre'" using c(2) by (simp add: live)
      then have "rc_entries c' = drop (length live + 1 - rc_maximum c) pre' @ (i, e) # (post @ [(j, f)])"
        by (simp add: c' live)
      moreover have "length (post @ [(j, f)]) = Suc n" using c(2) by simp
      ultimately show ?thesis unfolding remembered_def r by (metis sum.case(2))
    qed
  qed
qed

lemma verify_remembers:
  assumes "remembered i e n t c" "t \<le> timestamp now" "verify lib v token b now c = (r, c')"
  shows "remembered i e (n + acceptances [r]) (timestamp now) c'"
proof (cases "check_assertion lib v token b now")
  case (Inl err)
  then have "r = Inl err" "c' = c" using assms(3) by (simp_all add: verify_def)
  then show ?thesis using assms(1,2) by (auto simp: remembered_def acceptances_def)
next
  case (Inr cl)
  obtain q c1 where q: "consume (ic_token cl) (ic_expires cl + vf_skew v) (timestamp now) c = (q, c1)" by (rule prod.exhaust)
  have r: "r = (case q of Inl e \<Rightarrow> Inl e | Inr _ \<Rightarrow> Inr cl)" "c' = c1"
    using assms(3) Inr q by (auto simp: verify_def split: sum.splits)
  show ?thesis using consume_remembers [OF assms(1,2) q] r by (cases q) (simp_all add: acceptances_def)
qed

lemma verify_all_remembers:
  assumes "remembered i e n t c" "sorted (t # map attempt_time as)" "verify_all lib v as c = (rs, c')"
  shows "\<exists>t'. remembered i e (n + acceptances rs) t' c' \<and> t' \<in> insert t (attempt_time ` set as)"
  using assms
proof (induction as arbitrary: n t c rs)
  case Nil
  then show ?case by (auto simp: acceptances_def)
next
  case (Cons a as)
  obtain token b now where a: "a = (token, b, now)" by (rule prod_cases3)
  obtain r c1 where r: "verify lib v token b now c = (r, c1)" by (rule prod.exhaust)
  obtain rs' c2 where rs': "verify_all lib v as c1 = (rs', c2)" by (rule prod.exhaust)
  have rs: "rs = r # rs'" "c' = c2" using Cons.prems(3) by (simp_all add: a r rs')
  have now: "attempt_time a = timestamp now" by (simp add: a attempt_time_def)
  have "remembered i e (n + acceptances [r]) (timestamp now) c1"
    by (rule verify_remembers [OF Cons.prems(1) _ r]) (use Cons.prems(2) now in simp)
  moreover have "sorted (timestamp now # map attempt_time as)" using Cons.prems(2) now by simp
  ultimately
  obtain t' where "remembered i e (n + acceptances [r] + acceptances rs') t' c2"
      "t' \<in> insert (timestamp now) (attempt_time ` set as)"
    using Cons.IH rs' rs(2) by blast
  moreover have "n + acceptances [r] + acceptances rs' = n + acceptances rs" by (simp add: rs acceptances_def)
  ultimately show ?case using rs(2) now by auto
qed

lemma verify_all_append:
  "verify_all lib v (as @ bs) c =
     (case verify_all lib v as c of (rs, c1) \<Rightarrow> (case verify_all lib v bs c1 of (ss, c2) \<Rightarrow> (rs @ ss, c2)))"
  by (induction as arbitrary: c) (auto split: prod.split)

lemma verify_maximum: "verify lib v token b now c = (r, c') \<Longrightarrow> rc_maximum c' = rc_maximum c"
  using consume_maximum by (auto simp: verify_def split: sum.splits prod.splits) (metis snd_conv)+

lemma verify_all_maximum: "verify_all lib v as c = (rs, c') \<Longrightarrow> rc_maximum c' = rc_maximum c"
  by (induction as arbitrary: c rs) (auto split: prod.splits dest: verify_maximum)

lemma verify_all_length: "verify_all lib v as c = (rs, c') \<Longrightarrow> length rs = length as"
  by (induction as arbitrary: c rs) (auto split: prod.splits)

lemma checked_assertion:
  assumes "check_assertion lib v token b now = Inr c"
  obtains h p s header key signature payload where
    "compact_parts token = Inr (h, p, s)" "decode_json_object lib h header_fields = Inr header"
    "key_of_header v now header = Inr key" "decode_bytes s = Inr signature" "li_check lib key signature (h @ [46] @ p)"
    "decode_json_object lib p claim_fields = Inr payload" "claims_from_payload payload = Some c"
    "check_binding v b c = Inr ()" "check_times v now c = Inr ()"
proof -
  obtain parts where parts: "compact_parts token = Inr parts" using assms by (auto simp: check_assertion_def res_bind_Inr_iff)
  obtain h p s where hps: "parts = (h, p, s)" by (rule prod_cases3)
  obtain header where header: "decode_json_object lib h header_fields = Inr header"
    using assms parts hps by (auto simp: check_assertion_def res_bind_Inr_iff)
  obtain key where key: "key_of_header v now header = Inr key"
    using assms parts hps header by (auto simp: check_assertion_def res_bind_Inr_iff)
  obtain signature where signature: "decode_bytes s = Inr signature"
    using assms parts hps header key by (auto simp: check_assertion_def res_bind_Inr_iff)
  have ck: "li_check lib key signature (h @ [46] @ p)"
    using assms parts hps header key signature by (simp add: check_assertion_def split: if_splits)
  obtain payload where payload: "decode_json_object lib p claim_fields = Inr payload"
    using assms parts hps header key signature ck by (auto simp: check_assertion_def res_bind_Inr_iff)
  have rest: "(case claims_from_payload payload of None \<Rightarrow> Inl Assertion_Error
      | Some c \<Rightarrow> res_bind (check_binding v b c) (\<lambda>_. res_bind (check_times v now c) (\<lambda>_. Inr c))) = Inr c"
    using assms parts hps header key signature ck payload by (simp add: check_assertion_def)
  then have "claims_from_payload payload = Some c" "check_binding v b c = Inr ()" "check_times v now c = Inr ()"
    by (simp_all add: res_bind_Inr_iff split: option.splits)
  then show thesis using that parts hps header key signature ck payload by blast
qed

lemma checked_times: "check_assertion lib v token b now = Inr c \<Longrightarrow> check_times v now c = Inr ()"
  by (rule checked_assertion)

lemma verify_accepts:
  assumes "verify lib v token b now c = (Inr cl, c')"
  shows "check_assertion lib v token b now = Inr cl" "timestamp now \<le> ic_expires cl + vf_skew v"
    "\<exists>pre. rc_entries c' = pre @ [(ic_token cl, ic_expires cl + vf_skew v)]"
    "\<not> (\<exists>pre post. rc_entries c = pre @ (ic_token cl, ic_expires cl + vf_skew v) # post)"
proof -
  show ck: "check_assertion lib v token b now = Inr cl"
    using assms by (auto simp: verify_def split: sum.splits prod.splits)
  then have "check_times v now cl = Inr ()" by (rule checked_times)
  then show t: "timestamp now \<le> ic_expires cl + vf_skew v"
    by (simp add: check_times_def Let_def split: if_splits)
  obtain q where q: "consume (ic_token cl) (ic_expires cl + vf_skew v) (timestamp now) c = (Inr q, c')"
    using assms ck by (auto simp: verify_def split: sum.splits prod.splits)
  then show "\<exists>pre. rc_entries c' = pre @ [(ic_token cl, ic_expires cl + vf_skew v)]"
    by (auto simp: consume_def Let_def split: if_splits)
  show "\<not> (\<exists>pre post. rc_entries c = pre @ (ic_token cl, ic_expires cl + vf_skew v) # post)"
  proof
    assume "\<exists>pre post. rc_entries c = pre @ (ic_token cl, ic_expires cl + vf_skew v) # post"
    then obtain pre post where c: "rc_entries c = pre @ (ic_token cl, ic_expires cl + vf_skew v) # post" by blast
    then obtain pre' where
      "dropWhile (\<lambda>(_, e). e < timestamp now) (rc_entries c) = pre' @ (ic_token cl, ic_expires cl + vf_skew v) # post"
      using dropWhile_keeps [of "\<lambda>(_, e). e < timestamp now" pre "(ic_token cl, ic_expires cl + vf_skew v)" post] t by auto
    then show False using q by (simp add: consume_def Let_def)
  qed
qed

lemma split_at_two:
  assumes "i < j" "j < length xs"
  shows "xs = take i xs @ xs ! i # drop (Suc i) (take j xs) @ xs ! j # drop (Suc j) xs"
proof -
  have "xs = take j xs @ xs ! j # drop (Suc j) xs" using assms by (simp add: id_take_nth_drop)
  moreover have "take j xs = take i (take j xs) @ take j xs ! i # drop (Suc i) (take j xs)"
    by (rule id_take_nth_drop) (use assms in simp)
  ultimately have "xs = (take i (take j xs) @ take j xs ! i # drop (Suc i) (take j xs)) @ xs ! j # drop (Suc j) xs" by simp
  then show ?thesis using assms by (simp add: min_absorb1)
qed

text \<open>
  C8: an assertion is accepted at most once, as long as fewer assertions than the capacity of the
  registry are accepted in between; the clock of the verifier does not run backwards.
\<close>

theorem replay_refused:
  assumes "verify_all lib v as c = (rs, c')" "sorted (map attempt_time as)"
    and "i < j" "j < length rs" "rs ! i = Inr cl" "rs ! j = Inr cl"
  shows "rc_maximum c \<le> acceptances (drop (Suc i) (take j rs))"
proof -
  have len: "length as = length rs" using verify_all_length [OF assms(1)] by simp
  define mid where "mid = drop (Suc i) (take j as)"
  have split: "as = (take i as @ [as ! i]) @ mid @ [as ! j] @ drop (Suc j) as"
    using split_at_two [of i j as] assms(3,4) len by (simp add: mid_def)
  obtain t1 b1 n1 where ai: "as ! i = (t1, b1, n1)" by (rule prod_cases3)
  obtain t2 b2 n2 where aj: "as ! j = (t2, b2, n2)" by (rule prod_cases3)
  obtain rs1 c1 where 1: "verify_all lib v (take i as) c = (rs1, c1)" by (rule prod.exhaust)
  obtain r2 c2 where 2: "verify lib v t1 b1 n1 c1 = (r2, c2)" by (rule prod.exhaust)
  obtain rs3 c3 where 3: "verify_all lib v mid c2 = (rs3, c3)" by (rule prod.exhaust)
  obtain r4 c4 where 4: "verify lib v t2 b2 n2 c3 = (r4, c4)" by (rule prod.exhaust)
  obtain rs5 c5 where 5: "verify_all lib v (drop (Suc j) as) c4 = (rs5, c5)" by (rule prod.exhaust)
  have "verify_all lib v ((take i as @ [as ! i]) @ mid @ [as ! j] @ drop (Suc j) as) c
      = ((rs1 @ [r2]) @ rs3 @ [r4] @ rs5, c5)"
    unfolding verify_all_append by (simp add: 1 2 3 4 5 ai aj)
  then have rs: "rs = rs1 @ r2 # rs3 @ r4 # rs5" using assms(1) split by simp
  have l1: "length rs1 = i" using verify_all_length [OF 1] assms(3,4) len by simp
  have l3: "length rs3 = j - Suc i" using verify_all_length [OF 3] assms(3,4) len by (simp add: mid_def)
  have j: "j = length rs1 + Suc (length rs3)" using l1 l3 assms(3) by simp
  have res: "r2 = Inr cl" "r4 = Inr cl" using assms(5,6) unfolding rs l1 [symmetric] j by (simp_all add: nth_append)
  have mid_rs: "drop (Suc i) (take j rs) = rs3" unfolding rs l1 [symmetric] j by simp
  note first = verify_accepts [OF 2 [unfolded res(1)]] and second = verify_accepts [OF 4 [unfolded res(2)]]
  have "sorted (map attempt_time ((take i as @ [as ! i]) @ mid @ [as ! j] @ drop (Suc j) as))"
    using assms(2) split by simp
  then have times: "sorted (timestamp n1 # map attempt_time mid)" "\<forall>t \<in> insert (timestamp n1) (attempt_time ` set mid). t \<le> timestamp n2"
    by (auto simp: sorted_append ai aj attempt_time_def)
  have "remembered (ic_token cl) (ic_expires cl + vf_skew v) 0 (timestamp n1) c2"
    using first(3) by (auto simp: remembered_def)
  from verify_all_remembers [OF this times(1) 3]
  obtain t' where "remembered (ic_token cl) (ic_expires cl + vf_skew v) (acceptances rs3) t' c3"
    "t' \<in> insert (timestamp n1) (attempt_time ` set mid)" by auto
  then have "rc_maximum c3 \<le> acceptances rs3"
    using second(2,4) times(2) by (fastforce simp: remembered_def)
  moreover have "rc_maximum c3 = rc_maximum c"
    using verify_all_maximum [OF 1] verify_maximum [OF 2] verify_all_maximum [OF 3] by simp
  ultimately show ?thesis by (simp add: mid_rs)
qed

section \<open>What is assumed of the libraries\<close>

text \<open>Code points that are not surrogates: JSON text can hold the others only in pairs.\<close>

definition scalar_text :: "pystr \<Rightarrow> bool" where
  "scalar_text s \<longleftrightarrow> list_all (\<lambda>c. c < 55296 \<or> 57344 \<le> c \<and> c < 1114112) s"

fun plain_string :: "json_value \<Rightarrow> bool" where
  "plain_string (JStr s) = scalar_text s"
| "plain_string v = False"

fun plain_value :: "json_value \<Rightarrow> bool" where
  "plain_value JNull = True"
| "plain_value (JInt n) = True"
| "plain_value (JStr s) = scalar_text s"
| "plain_value (JList xs) = list_all plain_string xs"
| "plain_value v = False"

text \<open>The objects that the signer writes, with their fields sorted as \<open>sort_keys\<close> sorts them.\<close>

definition plain_json :: "json_value \<Rightarrow> bool" where
  "plain_json v \<longleftrightarrow>
     (case v of
        JObj kvs \<Rightarrow> sorted (map fst kvs) \<and> distinct (map fst kvs)
          \<and> list_all (\<lambda>kv. scalar_text (fst kv) \<and> plain_value (snd kv)) kvs
      | _ \<Rightarrow> False)"

definition text_ok :: "pystr \<Rightarrow> bool" where
  "text_ok s \<longleftrightarrow> required_text s \<and> scalar_text s"

definition claims_ok :: "identity_claims \<Rightarrow> bool" where
  "claims_ok c \<longleftrightarrow>
     list_all text_ok [ic_issuer c, ic_audience c, ic_subject c, ic_principal c, ic_request c, ic_method c, ic_path c, ic_token c] \<and>
     pred_option text_ok (ic_role c) \<and> pred_option text_ok (ic_session c) \<and> pred_option (\<lambda>u. 0 < u) (ic_user c) \<and>
     method_ok (ic_method c) \<and> path_ok (ic_path c) \<and>
     normalize_scopes (ic_scopes c) = Some (ic_scopes c) \<and> list_all scalar_text (ic_scopes c) \<and>
     0 \<le> ic_issued c \<and> 0 \<le> ic_from c \<and> 0 \<le> ic_expires c"

lemma normalize_idem: "normalize_scopes xs = Some ys \<Longrightarrow> normalize_scopes ys = Some ys"
proof -
  assume h: "normalize_scopes xs = Some ys"
  then have ys: "ys = sort (remdups xs)" "list_all required_text xs" "xs \<noteq> []"
    by (auto simp: normalize_scopes_def split: if_splits)
  have "set ys = set xs" "sorted ys" "distinct ys" by (simp_all add: ys(1))
  moreover from this(1) have "ys \<noteq> []" using ys(3) by (metis set_empty)
  ultimately show ?thesis using ys(2) by (simp add: normalize_scopes_def list_all_iff distinct_remdups_id sorted_sort_id)
qed

lemma those_strings: "those (map claim_string (map JStr xs)) = Some xs"
  by (induction xs) auto

lemma to_payload_eq:
  "to_payload c = JObj
     [(codes ''aud'', JStr (ic_audience c)), (codes ''exp'', JInt (ic_expires c)), (codes ''iat'', JInt (ic_issued c)),
      (codes ''iss'', JStr (ic_issuer c)), (codes ''jti'', JStr (ic_token c)), (codes ''mth'', JStr (ic_method c)),
      (codes ''nbf'', JInt (ic_from c)), (codes ''prn'', JStr (ic_principal c)), (codes ''pth'', JStr (ic_path c)),
      (codes ''rid'', JStr (ic_request c)), (codes ''role'', optional_json JStr (ic_role c)),
      (codes ''scp'', JList (map JStr (ic_scopes c))), (codes ''sid'', optional_json JStr (ic_session c)),
      (codes ''sub'', JStr (ic_subject c)), (codes ''uid'', optional_json JInt (ic_user c)), (codes ''ver'', JInt 1)]"
  by (simp add: to_payload_def claim_fields_def)

definition payload_map :: "identity_claims \<Rightarrow> pystr \<Rightarrow> json_value option" where
  "payload_map c = (case to_payload c of JObj kvs \<Rightarrow> map_of kvs | _ \<Rightarrow> Map.empty)"

lemma payload_lookups:
  "payload_map c (codes ''aud'') = Some (JStr (ic_audience c))" "payload_map c (codes ''exp'') = Some (JInt (ic_expires c))"
  "payload_map c (codes ''iat'') = Some (JInt (ic_issued c))" "payload_map c (codes ''iss'') = Some (JStr (ic_issuer c))"
  "payload_map c (codes ''jti'') = Some (JStr (ic_token c))" "payload_map c (codes ''mth'') = Some (JStr (ic_method c))"
  "payload_map c (codes ''nbf'') = Some (JInt (ic_from c))" "payload_map c (codes ''prn'') = Some (JStr (ic_principal c))"
  "payload_map c (codes ''pth'') = Some (JStr (ic_path c))" "payload_map c (codes ''rid'') = Some (JStr (ic_request c))"
  "payload_map c (codes ''role'') = Some (optional_json JStr (ic_role c))"
  "payload_map c (codes ''scp'') = Some (JList (map JStr (ic_scopes c)))"
  "payload_map c (codes ''sid'') = Some (optional_json JStr (ic_session c))"
  "payload_map c (codes ''sub'') = Some (JStr (ic_subject c))"
  "payload_map c (codes ''uid'') = Some (optional_json JInt (ic_user c))"
  "payload_map c (codes ''ver'') = Some (JInt 1)"
  by (simp_all add: payload_map_def to_payload_eq)

lemma claim_optional_text_ok:
  "pred_option text_ok v \<Longrightarrow> claim_optional_text (Some (optional_json JStr v)) = Some v"
  by (cases v) (auto simp: optional_json_def text_ok_def)

lemma claim_user_ok: "pred_option (\<lambda>u. 0 < u) v \<Longrightarrow> claim_user (Some (optional_json JInt v)) = Some v"
  by (cases v) (auto simp: optional_json_def)

lemma claims_from_payload_ok:
  assumes "claims_ok c"
  shows "claims_from_payload (payload_map c) = Some c"
  using assms
  by (simp add: claims_from_payload_def payload_lookups those_strings claim_optional_text_ok claim_user_ok claims_ok_def
      text_ok_def claim_method_def claim_path_def request_method_ok_def request_path_ok_def del: map_map)

lemma codes_less: "codes (c # v) < codes (d # w) \<longleftrightarrow> (of_char c :: nat) < of_char d \<or> c = d \<and> codes v < codes w"
  by (auto simp: codes_def)

lemma claim_fields_sorted: "sorted (map codes claim_fields) \<and> distinct (map codes claim_fields)"
proof -
  have "sorted_wrt (<) (map codes claim_fields)"
    by (simp add: claim_fields_def codes_less)
  then show ?thesis by (simp add: strict_sorted_iff)
qed

lemma claim_fields_scalar: "list_all scalar_text (map codes claim_fields)"
  by (simp add: claim_fields_def codes_def scalar_text_def)

lemma plain_zip:
  assumes "sorted ks" "distinct ks" "list_all scalar_text ks" "length ks = length vs" "list_all plain_value vs"
  shows "plain_json (JObj (zip ks vs))"
  using assms by (auto simp: plain_json_def list_all_iff dest: set_zip_leftD set_zip_rightD)

lemma plain_payload:
  assumes "claims_ok c"
  shows "plain_json (to_payload c)"
proof -
  have "plain_value (optional_json JStr v)" if "pred_option text_ok v" for v
    using that by (cases v) (auto simp: optional_json_def text_ok_def)
  moreover have "plain_value (optional_json JInt v)" for v by (cases v) (auto simp: optional_json_def)
  moreover have "list_all plain_string (map JStr (ic_scopes c))" using assms by (simp add: claims_ok_def list_all_iff)
  ultimately show ?thesis
    unfolding to_payload_def using claim_fields_sorted claim_fields_scalar assms
    by (intro plain_zip) (simp_all add: claims_ok_def text_ok_def claim_fields_def list_all_iff)
qed

lemma plain_header: "scalar_text kid \<Longrightarrow> plain_json (header_json kid)"
  by (simp add: plain_json_def header_json_def) (simp add: codes_def scalar_text_def)

lemma plain_no_duplicates: "plain_json (JObj kvs) \<Longrightarrow> \<not> has_duplicates (JObj kvs)"
proof -
  have "\<not> has_duplicates v" if "plain_string v" for v using that by (cases v) auto
  then have "\<not> has_duplicates v" if "plain_value v" for v
    using that by (cases v) (auto simp: list_all_iff list_ex_iff)
  then show "plain_json (JObj kvs) \<Longrightarrow> ?thesis" by (auto simp: plain_json_def list_all_iff list_ex_iff)
qed

lemma py_split_none: "c \<notin> set s \<Longrightarrow> py_split c s = [s]"
  by (induction s) auto

lemma py_split_free: "w \<in> set (py_split c s) \<Longrightarrow> c \<notin> set w"
  by (induction s arbitrary: w) (auto split: if_splits list.splits)

lemma py_split_cons: "py_split c s = w # v # ws \<Longrightarrow> \<exists>t. s = w @ c # t \<and> py_split c t = v # ws"
proof (induction s arbitrary: w)
  case (Cons x s)
  show ?case
  proof (cases "x = c")
    case False
    then obtain w' where "py_split c s = w' # v # ws" "w = x # w'" using Cons.prems by (auto split: list.splits)
    with Cons.IH show ?thesis by fastforce
  qed (use Cons.prems in auto)
qed simp

lemma py_split_one: "py_split c s = [w] \<Longrightarrow> s = w"
  by (induction s arbitrary: w) (auto split: if_splits list.splits)

lemma compact_partsD:
  assumes "compact_parts token = Inr (h, p, s)"
  shows "46 \<notin> set h" "46 \<notin> set p" "token = h @ [46] @ p @ [46] @ s"
proof -
  have sp: "py_split 46 token = [h, p, s]"
    using assms by (auto simp: compact_parts_def split: if_splits list.splits)
  then show "46 \<notin> set h" "46 \<notin> set p" using py_split_free [of h 46 token] py_split_free [of p 46 token] sp by simp_all
  obtain t where t: "token = h @ 46 # t" "py_split 46 t = [p, s]" using py_split_cons [OF sp] by blast
  obtain t' where "t = p @ 46 # t'" "py_split 46 t' = [s]" using py_split_cons [OF t(2)] by blast
  with t(1) py_split_one show "token = h @ [46] @ p @ [46] @ s" by fastforce
qed

lemma compact_partsI:
  assumes "46 \<notin> set h" "46 \<notin> set p" "46 \<notin> set s" "h \<noteq> []" "p \<noteq> []" "s \<noteq> []"
    and "length (h @ [46] @ p @ [46] @ s) \<le> max_compact_length"
  shows "compact_parts (h @ [46] @ p @ [46] @ s) = Inr (h, p, s)"
  using assms by (simp add: compact_parts_def py_split_append py_split_none)

lemma dot_unique: "46 \<notin> set h \<Longrightarrow> 46 \<notin> set h' \<Longrightarrow> h @ [46] @ p = h' @ [46] @ (p' :: pystr) \<Longrightarrow> h = h' \<and> p = p'"
proof (induction h arbitrary: h')
  case Nil
  then show ?case by (cases h') auto
next
  case (Cons x h)
  then show ?case by (cases h') auto
qed

locale assertion_library =
  fixes lib :: "('sk, 'pk) library"
  assumes loads_dumps: "plain_json v \<Longrightarrow> li_loads lib (li_dumps lib v) = Inr v"
    and dumps_bytes: "plain_json v \<Longrightarrow> is_bytes (li_dumps lib v) \<and> li_dumps lib v \<noteq> []"
    and sign_bytes: "is_bytes (li_sign lib k m) \<and> li_sign lib k m \<noteq> []"
    and check_sign: "li_check lib (li_public lib k) (li_sign lib k m) m"
begin

lemma decode_encode:
  assumes "plain_json (JObj kvs)" "set (map fst kvs) = set (map codes fs)"
  shows "decode_json_object lib (encode_json lib (JObj kvs)) fs = Inr (map_of kvs)"
  using decode_encode_bytes dumps_bytes [OF assms(1)] loads_dumps [OF assms(1)] plain_no_duplicates [OF assms(1)] assms(2)
  by (simp add: decode_json_object_def encode_json_def del: has_duplicates.simps)

lemma encode_json_free: "plain_json v \<Longrightarrow> 46 \<notin> set (encode_json lib v) \<and> encode_json lib v \<noteq> []"
  using dumps_bytes encode_bytes_chars by (fastforce simp: encode_json_def encode_bytes_def)

lemma decode_payload: "claims_ok c \<Longrightarrow> decode_json_object lib (encode_json lib (to_payload c)) claim_fields = Inr (payload_map c)"
  using decode_encode [of "zip (map codes claim_fields)
     [JStr (ic_audience c), JInt (ic_expires c), JInt (ic_issued c), JStr (ic_issuer c), JStr (ic_token c),
      JStr (ic_method c), JInt (ic_from c), JStr (ic_principal c), JStr (ic_path c), JStr (ic_request c),
      optional_json JStr (ic_role c), JList (map JStr (ic_scopes c)), optional_json JStr (ic_session c),
      JStr (ic_subject c), optional_json JInt (ic_user c), JInt 1]" claim_fields] plain_payload [of c]
  by (simp add: to_payload_def payload_map_def) (simp add: claim_fields_def)

lemma decode_header:
  "scalar_text kid \<Longrightarrow> decode_json_object lib (encode_json lib (header_json kid)) header_fields =
     Inr (map_of [(codes ''alg'', JStr (codes ''EdDSA'')), (codes ''kid'', JStr kid), (codes ''typ'', JStr (codes ''JWT''))])"
  using decode_encode [OF plain_header [unfolded header_json_def], of kid header_fields]
  by (simp add: header_json_def header_fields_def)

text \<open>The signed text determines the claims, whoever presents it under whatever key identifier.\<close>

lemma signed_text_determines:
  assumes "h @ [46] @ p = signed_text lib kid c" "46 \<notin> set h" "claims_ok c" "scalar_text kid"
    and "decode_json_object lib p claim_fields = Inr payload" "claims_from_payload payload = Some c'"
  shows "c' = c"
proof -
  have "46 \<notin> set (encode_json lib (header_json kid))" using encode_json_free plain_header assms(4) by blast
  then have "p = encode_json lib (to_payload c)"
    using dot_unique [OF assms(2)] assms(1) unfolding signed_text_def by blast
  with decode_payload [OF assms(3)] assms(5) have "payload = payload_map c" by simp
  with claims_from_payload_ok [OF assms(3)] assms(6) show ?thesis by simp
qed

end

text \<open>The texts of a request that JSON can hold, and times after 1970.\<close>

definition request_scalar :: "assertion_request \<Rightarrow> bool" where
  "request_scalar aq \<longleftrightarrow>
     list_all scalar_text ([aq_audience aq, aq_subject aq, aq_principal aq, aq_id aq, aq_method aq, aq_path aq] @ aq_scopes aq)
     \<and> pred_option scalar_text (aq_role aq) \<and> pred_option scalar_text (aq_session aq)"

definition timing_ok :: "timing \<Rightarrow> bool" where
  "timing_ok tm \<longleftrightarrow> 0 \<le> tm_now tm \<and> 0 \<le> valid_from tm \<and> scalar_text (tm_token tm)"

lemma issue_claimsE:
  assumes "issue_claims issuer aq tm = Inr c"
  obtains scopes where "c = issued_claims issuer aq tm scopes" "normalize_scopes (aq_scopes aq) = Some scopes"
    "0 < tm_ttl tm" "tm_ttl tm \<le> max_ttl" "valid_from tm \<le> tm_now tm + tm_ttl tm"
    "pred_option (\<lambda>u. 0 < u) (aq_user aq)" "request_texts_ok aq" "required_text (tm_token tm)"
proof -
  obtain scopes where n: "normalize_scopes (aq_scopes aq) = Some scopes"
    using assms by (auto simp: issue_claims_def split: if_splits option.splits)
  show thesis
    by (rule that [OF _ n]) (use assms n in \<open>auto simp: issue_claims_def split: if_splits option.splits\<close>)
qed

lemma timestamp_mono: "s \<le> t \<Longrightarrow> timestamp s \<le> timestamp t"
  by (simp add: timestamp_def second_def zdiv_mono1)

lemma timestamp_nonneg: "0 \<le> t \<Longrightarrow> 0 \<le> timestamp t"
  by (simp add: timestamp_def second_def)

lemma pred_option_conj: "pred_option P v \<Longrightarrow> pred_option Q v \<Longrightarrow> pred_option (\<lambda>x. P x \<and> Q x) v"
  by (cases v) auto

lemma issue_claims_ok:
  assumes "issue_claims issuer aq tm = Inr c" "request_scalar aq" "timing_ok tm" "text_ok issuer"
  shows "claims_ok c"
  using assms(1)
proof (rule issue_claimsE)
  fix scopes
  assume c: "c = issued_claims issuer aq tm scopes" and n: "normalize_scopes (aq_scopes aq) = Some scopes"
    and ttl: "0 < tm_ttl tm" and user: "pred_option (\<lambda>u. 0 < u) (aq_user aq)" and texts: "request_texts_ok aq"
    and token: "required_text (tm_token tm)"
  have "set scopes \<subseteq> set (aq_scopes aq)" using n by (auto simp: normalize_scopes_def split: if_splits)
  then have "list_all scalar_text scopes" using assms(2) by (auto simp: request_scalar_def list_all_iff)
  moreover have "0 \<le> timestamp (tm_now tm)" "0 \<le> timestamp (valid_from tm)" "0 \<le> timestamp (tm_now tm + tm_ttl tm)"
    using assms(3) ttl by (auto intro!: timestamp_nonneg simp: timing_ok_def)
  moreover have "pred_option text_ok v" if "optional_text v" "pred_option scalar_text v" for v
    using that by (cases v) (auto simp: optional_text_def text_ok_def)
  ultimately show ?thesis
    using assms(2-4) normalize_idem [OF n] user texts token
    by (simp add: claims_ok_def c issued_claims_def request_texts_ok_def request_scalar_def text_ok_def timing_ok_def
        request_method_ok_def request_path_ok_def)
qed

section \<open>Authenticity\<close>

text \<open>
  A presented token is not a forgery: if its signature checks under a key of the verifier, then the
  holder of the signing keys signed its text, for claims and a key identifier of \<open>issued\<close>.
\<close>

definition not_forged :: "('sk, 'pk) library \<Rightarrow> 'pk verifier \<Rightarrow> (pystr \<times> identity_claims) set \<Rightarrow> pystr \<Rightarrow> bool" where
  "not_forged lib v issued token \<longleftrightarrow>
     (\<forall>h p s signature. \<forall>(_, k) \<in> set (vf_keys v).
        compact_parts token = Inr (h, p, s) \<and> decode_bytes s = Inr signature \<and> li_check lib (vk_key k) signature (h @ [46] @ p)
        \<longrightarrow> (\<exists>(kid, c) \<in> issued. h @ [46] @ p = signed_text lib kid c \<and> claims_ok c \<and> scalar_text kid))"

definition bound_to :: "'pk verifier \<Rightarrow> binding \<Rightarrow> int \<Rightarrow> identity_claims \<Rightarrow> bool" where
  "bound_to v b now c \<longleftrightarrow>
     ic_issuer c = vf_issuer v \<and> ic_audience c = vf_audience v \<and> ic_request c = bd_request b \<and>
     ic_method c = bd_method b \<and> ic_path c = bd_path b \<and> bd_scopes b \<noteq> [] \<and> set (bd_scopes b) \<subseteq> set (ic_scopes c) \<and>
     ic_expires c \<le> ic_issued c + 60 \<and> ic_issued c \<le> timestamp now + vf_skew v \<and> timestamp now \<le> ic_expires c + vf_skew v"

lemma check_binding_iff:
  "check_binding v b c = Inr () \<longleftrightarrow>
     required_text (bd_request b) \<and> request_method_ok (bd_method b) \<and> request_path_ok (bd_path b) \<and>
     ic_issuer c = vf_issuer v \<and> ic_audience c = vf_audience v \<and> ic_request c = bd_request b \<and>
     ic_method c = bd_method b \<and> ic_path c = bd_path b \<and>
     list_all required_text (bd_scopes b) \<and> bd_scopes b \<noteq> [] \<and> set (bd_scopes b) \<subseteq> set (ic_scopes c)"
  by (auto simp: check_binding_def normalize_scopes_def)

lemma check_times_iff:
  "check_times v now c = Inr () \<longleftrightarrow>
     ic_issued c < ic_expires c \<and> ic_from c \<le> ic_expires c \<and> ic_expires c \<le> ic_issued c + 60 \<and>
     ic_from c \<le> timestamp now + vf_skew v \<and> ic_issued c \<le> timestamp now + vf_skew v \<and> timestamp now \<le> ic_expires c + vf_skew v"
  by (auto simp: check_times_def Let_def)

lemma key_of_headerD: "key_of_header v now header = Inr key \<Longrightarrow> \<exists>kid k. (kid, k) \<in> set (vf_keys v) \<and> vk_key k = key"
  by (auto simp: key_of_header_def bind_eq_Some_conv dest: map_of_SomeD split: if_splits option.splits)

context assertion_library
begin

lemma accepted_was_issued:
  assumes "not_forged lib v issued token" "check_assertion lib v token b now = Inr c"
  shows "c \<in> snd ` issued" "bound_to v b now c"
proof -
  obtain h p s header key signature payload where
    parts: "compact_parts token = Inr (h, p, s)" and key: "key_of_header v now header = Inr key"
    and sig: "decode_bytes s = Inr signature" "li_check lib key signature (h @ [46] @ p)"
    and payload: "decode_json_object lib p claim_fields = Inr payload" "claims_from_payload payload = Some c"
    and checks: "check_binding v b c = Inr ()" "check_times v now c = Inr ()"
    using assms(2) by (rule checked_assertion)
  obtain kid c' where "(kid, c') \<in> issued" "h @ [46] @ p = signed_text lib kid c'" "claims_ok c'" "scalar_text kid"
    using key_of_headerD [OF key] parts sig assms(1) unfolding not_forged_def by fast
  with signed_text_determines [OF this(2) compact_partsD(1) [OF parts] this(3,4) payload] show "c \<in> snd ` issued" by force
  show "bound_to v b now c" using checks by (auto simp: bound_to_def check_binding_iff check_times_iff)
qed

end

section \<open>Issued assertions are accepted\<close>

definition trusts :: "('sk, 'pk) library \<Rightarrow> 'pk verifier \<Rightarrow> 'sk signer \<Rightarrow> int \<Rightarrow> bool" where
  "trusts lib v sg now \<longleftrightarrow>
     (case map_of (vf_keys v) (sg_key_id sg) of
        None \<Rightarrow> False
      | Some k \<Rightarrow> vk_key k = li_public lib (sg_key sg) \<and> pred_option (\<lambda>t. now \<le> t) (vk_accept_until k))
     \<and> vf_issuer v = sg_issuer sg \<and> text_ok (sg_issuer sg) \<and> text_ok (sg_key_id sg)"

definition in_window :: "'pk verifier \<Rightarrow> timing \<Rightarrow> int \<Rightarrow> bool" where
  "in_window v tm now \<longleftrightarrow>
     timestamp (tm_now tm) \<le> timestamp now + vf_skew v \<and> timestamp (valid_from tm) \<le> timestamp now + vf_skew v
     \<and> timestamp now \<le> timestamp (tm_now tm + tm_ttl tm) + vf_skew v"

lemma timestamp_add: "timestamp (t + second * n) = timestamp t + n"
  by (simp add: timestamp_def second_def)

lemma lifetime_bounds:
  assumes "second \<le> ttl" "ttl \<le> max_ttl"
  shows "timestamp t < timestamp (t + ttl)" "timestamp (t + ttl) \<le> timestamp t + 60"
  using timestamp_mono [of "t + second * 1" "t + ttl"] timestamp_mono [of "t + ttl" "t + second * 60"]
    timestamp_add [of t 1] timestamp_add [of t 60] assms
  by (simp_all add: max_ttl_def)

context assertion_library
begin

lemma issue_accepted:
  assumes "issue lib sg aq tm = Inr token" "request_scalar aq" "timing_ok tm" "length token \<le> max_compact_length"
    and "trusts lib v sg now" "vf_audience v = aq_audience aq"
    and "b = \<lparr>bd_scopes = needed, bd_request = aq_id aq, bd_method = aq_method aq, bd_path = aq_path aq\<rparr>"
    and "needed \<noteq> []" "set needed \<subseteq> set (aq_scopes aq)"
    and "second \<le> tm_ttl tm" "in_window v tm now"
  obtains c where "issue_claims (sg_issuer sg) aq tm = Inr c" "check_assertion lib v token b now = Inr c" "ic_token c = tm_token tm"
proof -
  obtain c where c: "issue_claims (sg_issuer sg) aq tm = Inr c" using assms(1) by (auto simp: issue_def res_bind_Inr_iff)
  define h p sig where "h = encode_json lib (header_json (sg_key_id sg))" and "p = encode_json lib (to_payload c)"
    and "sig = encode_bytes (li_sign lib (sg_key sg) (h @ [46] @ p))"
  have token: "token = h @ [46] @ p @ [46] @ sig"
    using assms(1) c by (auto simp: issue_def Let_def signed_text_def h_def p_def sig_def)
  have kid: "text_ok (sg_key_id sg)" "text_ok (sg_issuer sg)" using assms(5) by (simp_all add: trusts_def)
  have ok: "claims_ok c" by (rule issue_claims_ok [OF c assms(2,3) kid(2)])
  have free: "46 \<notin> set h" "h \<noteq> []" "46 \<notin> set p" "p \<noteq> []"
    using encode_json_free plain_header [of "sg_key_id sg"] plain_payload [OF ok] kid by (auto simp: h_def p_def text_ok_def)
  have "46 \<notin> set sig" "sig \<noteq> []"
    using encode_bytes_chars sign_bytes by (fastforce simp: sig_def encode_bytes_def)+
  with free assms(4) have parts: "compact_parts token = Inr (h, p, sig)" unfolding token by (intro compact_partsI) auto
  obtain k where k: "map_of (vf_keys v) (sg_key_id sg) = Some k" "vk_key k = li_public lib (sg_key sg)"
    "pred_option (\<lambda>t. now \<le> t) (vk_accept_until k)"
    using assms(5) by (auto simp: trusts_def split: option.splits)
  have header: "decode_json_object lib h header_fields =
      Inr (map_of [(codes ''alg'', JStr (codes ''EdDSA'')), (codes ''kid'', JStr (sg_key_id sg)), (codes ''typ'', JStr (codes ''JWT''))])"
    using decode_header kid(1) by (simp add: h_def text_ok_def)
  have key: "key_of_header v now
      (map_of [(codes ''alg'', JStr (codes ''EdDSA'')), (codes ''kid'', JStr (sg_key_id sg)), (codes ''typ'', JStr (codes ''JWT''))])
      = Inr (li_public lib (sg_key sg))"
    using k kid(1) by (cases "vk_accept_until k") (simp_all add: key_of_header_def text_ok_def)
  have sign: "decode_bytes sig = Inr (li_sign lib (sg_key sg) (h @ [46] @ p))"
    using decode_encode_bytes sign_bytes by (simp add: sig_def)
  have payload: "decode_json_object lib p claim_fields = Inr (payload_map c)" "claims_from_payload (payload_map c) = Some c"
    using decode_payload [OF ok] claims_from_payload_ok [OF ok] by (simp_all add: p_def)
  obtain scopes where cl: "c = issued_claims (sg_issuer sg) aq tm scopes" "normalize_scopes (aq_scopes aq) = Some scopes"
    "tm_ttl tm \<le> max_ttl" "valid_from tm \<le> tm_now tm + tm_ttl tm" "request_texts_ok aq"
    using c by (rule issue_claimsE)
  have sc: "set scopes = set (aq_scopes aq)" "list_all required_text (aq_scopes aq)"
    using cl(2) by (auto simp: normalize_scopes_def split: if_splits)
  have "check_binding v b c = Inr ()"
    using assms(5-9) cl(5) sc
    by (auto simp: check_binding_iff cl(1) issued_claims_def trusts_def request_texts_ok_def list_all_iff)
  moreover have "check_times v now c = Inr ()"
    using assms(11) lifetime_bounds [OF assms(10) cl(3), of "tm_now tm"] timestamp_mono [OF cl(4)]
    by (simp add: check_times_iff cl(1) issued_claims_def in_window_def)
  ultimately have "check_assertion lib v token b now = Inr c"
    using parts header key sign check_sign payload by (simp add: check_assertion_def)
  then show thesis using that c by (simp add: cl(1) issued_claims_def)
qed

end

text \<open>
  C26: an assertion that Platform issues is accepted: by the destination it names, under any
  key still accepted there, for exactly the request it is bound to and any of its scopes, from its
  start until the end of its lifetime of at most 60 seconds and at least one, give or
  take the clock skew, as long as its identifier has not been used.
\<close>

theorem issued_assertion_is_accepted:
  assumes "assertion_library lib" "issue lib sg aq tm = Inr token" "request_scalar aq" "timing_ok tm"
    and "length token \<le> max_compact_length" "trusts lib v sg now" "vf_audience v = aq_audience aq"
    and "b = \<lparr>bd_scopes = needed, bd_request = aq_id aq, bd_method = aq_method aq, bd_path = aq_path aq\<rparr>"
    and "needed \<noteq> []" "set needed \<subseteq> set (aq_scopes aq)"
    and "second \<le> tm_ttl tm" "in_window v tm now" "tm_token tm \<notin> fst ` set (rc_entries cache)"
  shows "fst (verify lib v token b now cache) = issue_claims (sg_issuer sg) aq tm"
proof -
  obtain c where c: "issue_claims (sg_issuer sg) aq tm = Inr c" "check_assertion lib v token b now = Inr c" "ic_token c = tm_token tm"
    by (rule assertion_library.issue_accepted [OF assms(1-12)])
  have "tm_token tm \<notin> fst ` set (dropWhile P (rc_entries cache))" for P
    using assms(13) set_dropWhileD by force
  then show ?thesis using c by (simp add: verify_def consume_def Let_def)
qed

section \<open>A library\<close>

text \<open>
  Libraries with the assumed laws: values as sequences of numbers, numbers as bytes with a
  continuation bit, and signatures that contain the key and the text.
\<close>

fun varint :: "nat \<Rightarrow> nat list" where
  "varint n = (if n < 128 then [n] else (n mod 128 + 128) # varint (n div 128))"

declare varint.simps [simp del]

fun get_varint :: "nat list \<Rightarrow> (nat \<times> nat list) option" where
  "get_varint [] = None"
| "get_varint (b # bs) = (if b < 128 then Some (b, bs) else map_option (\<lambda>(n, r). (b - 128 + 128 * n, r)) (get_varint bs))"

fun get_many :: "('t list \<Rightarrow> ('a \<times> 't list) option) \<Rightarrow> nat \<Rightarrow> 't list \<Rightarrow> ('a list \<times> 't list) option" where
  "get_many g 0 ts = Some ([], ts)"
| "get_many g (Suc n) ts =
     (case g ts of None \<Rightarrow> None
      | Some (x, r) \<Rightarrow> (case get_many g n r of None \<Rightarrow> None | Some (xs, r') \<Rightarrow> Some (x # xs, r')))"

definition number_bytes :: "nat list \<Rightarrow> nat list" where
  "number_bytes ns = varint (length ns) @ concat (map varint ns)"

definition get_numbers :: "nat list \<Rightarrow> nat list option" where
  "get_numbers bs = Option.bind (get_varint bs) (\<lambda>(n, r). map_option fst (get_many get_varint n r))"

fun get_text :: "nat list \<Rightarrow> (pystr \<times> nat list) option" where
  "get_text [] = None"
| "get_text (n # r) = (if n \<le> length r then Some (take n r, drop n r) else None)"

definition text_numbers :: "pystr \<Rightarrow> nat list" where
  "text_numbers s = length s # s"

fun string_numbers :: "json_value \<Rightarrow> nat list" where
  "string_numbers (JStr s) = text_numbers s"
| "string_numbers v = []"

fun value_numbers :: "json_value \<Rightarrow> nat list" where
  "value_numbers (JInt n) = (if n < 0 then [2, nat (- n)] else [1, nat n])"
| "value_numbers (JStr s) = 3 # text_numbers s"
| "value_numbers (JList xs) = 4 # length xs # concat (map string_numbers xs)"
| "value_numbers v = [0]"

definition get_string :: "nat list \<Rightarrow> (json_value \<times> nat list) option" where
  "get_string ts = map_option (\<lambda>(s, r). (JStr s, r)) (get_text ts)"

fun get_value :: "nat list \<Rightarrow> (json_value \<times> nat list) option" where
  "get_value (t # ts) =
     (if t = 0 then Some (JNull, ts)
      else if t = 3 then get_string ts
      else case ts of [] \<Rightarrow> None
           | n # r \<Rightarrow>
               if t = 1 then Some (JInt (int n), r)
               else if t = 2 then Some (JInt (- int n), r)
               else if t = 4 then map_option (\<lambda>(xs, r'). (JList xs, r')) (get_many get_string n r)
               else None)"
| "get_value [] = None"

definition get_field :: "nat list \<Rightarrow> ((pystr \<times> json_value) \<times> nat list) option" where
  "get_field ts = Option.bind (get_text ts) (\<lambda>(k, r). map_option (\<lambda>(v, r'). ((k, v), r')) (get_value r))"

definition object_numbers :: "json_value \<Rightarrow> nat list" where
  "object_numbers v =
     (case v of JObj kvs \<Rightarrow> length kvs # concat (map (\<lambda>(k, v). text_numbers k @ value_numbers v) kvs) | _ \<Rightarrow> [])"

definition get_object :: "nat list \<Rightarrow> json_value option" where
  "get_object ts = (case ts of [] \<Rightarrow> None | n # r \<Rightarrow> map_option (\<lambda>(kvs, _). JObj kvs) (get_many get_field n r))"

definition plain_library :: "(nat, nat) library" where
  "plain_library = \<lparr>li_loads = (\<lambda>bs. case Option.bind (get_numbers bs) get_object of None \<Rightarrow> Inl Bad_Json | Some v \<Rightarrow> Inr v),
     li_dumps = (\<lambda>v. number_bytes (object_numbers v)), li_sign = (\<lambda>k m. number_bytes (k # m)),
     li_check = (\<lambda>k s m. s = number_bytes (k # m)), li_public = id\<rparr>"

lemma get_varint_back: "get_varint (varint n @ r) = Some (n, r)"
proof (induction n rule: less_induct)
  case (less n)
  show ?case
  proof (cases "n < 128")
    case False
    then have "get_varint (varint (n div 128) @ r) = Some (n div 128, r)" by (intro less) simp
    then show ?thesis using False by (subst varint.simps) simp
  qed (subst varint.simps, simp)
qed

lemma get_many_back:
  "(\<And>x r. x \<in> set xs \<Longrightarrow> g (f x @ r) = Some (x, r)) \<Longrightarrow> get_many g (length xs) (concat (map f xs) @ r) = Some (xs, r)"
  by (induction xs) auto

lemma get_numbers_back: "get_numbers (number_bytes ns) = Some ns"
  using get_many_back [of ns get_varint varint "[]"] by (simp add: get_numbers_def number_bytes_def get_varint_back)

lemma varint_bytes: "is_bytes (varint n) \<and> varint n \<noteq> []"
proof (induction n rule: less_induct)
  case (less n)
  then show ?case by (cases "n < 128") (subst (1 2) varint.simps, simp add: is_bytes_def)+
qed

lemma number_bytes_bytes: "is_bytes (number_bytes ns) \<and> number_bytes ns \<noteq> []"
  using varint_bytes by (auto simp: number_bytes_def is_bytes_def list_all_iff)

lemma get_text_back: "get_text (text_numbers s @ r) = Some (s, r)"
  by (simp add: text_numbers_def)

lemma get_value_back:
  assumes "plain_value v"
  shows "get_value (value_numbers v @ r) = Some (v, r)"
proof (cases v)
  case (JList xs)
  have "get_string (string_numbers x @ r) = Some (x, r)" if "x \<in> set xs" for x r
    using assms JList that by (cases x) (auto simp: get_string_def get_text_back list_all_iff)
  then show ?thesis using JList get_many_back [of xs get_string string_numbers] by simp
qed (use assms in \<open>auto simp: get_string_def get_text_back\<close>)

lemma get_object_back: "plain_json v \<Longrightarrow> get_object (object_numbers v) = Some v"
proof (cases v)
  case (JObj kvs)
  assume plain: "plain_json v"
  let ?f = "\<lambda>(k, v). text_numbers k @ value_numbers v"
  have "get_field (?f x @ r) = Some (x, r)" if "x \<in> set kvs" for x r
    using plain JObj that get_value_back by (cases x) (auto simp: get_field_def get_text_back plain_json_def list_all_iff)
  then show ?thesis using get_many_back [of kvs get_field ?f "[]"] JObj by (simp add: get_object_def object_numbers_def)
qed (simp_all add: plain_json_def)

interpretation plain: assertion_library plain_library
  by unfold_locales (simp_all add: plain_library_def get_numbers_back get_object_back number_bytes_bytes)

section \<open>Witnesses\<close>

definition demo_signer :: "nat signer" where
  "demo_signer = \<lparr>sg_issuer = codes ''p'', sg_key_id = codes ''k'', sg_key = 5\<rparr>"

definition demo_verifier :: "nat verifier" where
  "demo_verifier = \<lparr>vf_issuer = codes ''p'', vf_audience = codes ''research'',
     vf_keys = [(codes ''k'', \<lparr>vk_key = 5, vk_accept_until = None\<rparr>)], vf_skew = 2\<rparr>"

definition demo_grant :: assertion_request where
  "demo_grant = \<lparr>aq_audience = codes ''research'', aq_subject = codes ''user:7'', aq_principal = codes ''telegram'',
     aq_user = Some 7, aq_role = None, aq_session = None, aq_id = codes ''r1'', aq_method = codes ''GET'',
     aq_path = codes ''/api/pulse/today'', aq_scopes = [codes ''research:pulse:read'']\<rparr>"

definition demo_timing :: "string \<Rightarrow> timing" where
  "demo_timing w = \<lparr>tm_now = 1000000000, tm_from = None, tm_ttl = max_ttl, tm_token = codes w\<rparr>"

definition demo_token :: "string \<Rightarrow> pystr" where
  "demo_token w = (case issue plain_library demo_signer demo_grant (demo_timing w) of Inr t \<Rightarrow> t | Inl _ \<Rightarrow> [])"

lemma b64_digits_length: "length (b64_digits bs) \<le> 2 * length bs"
  by (induction bs rule: b64_digits.induct) auto

lemma b64_char_small: "is_bytes bs \<Longrightarrow> list_all (\<lambda>c. c < 128) (encode_bytes bs)"
  using b64_digits_small by (fastforce simp: encode_bytes_def b64_char_def list_all_iff)

lemma varint_length: "n < 16384 \<Longrightarrow> length (varint n) \<le> 2"
proof -
  assume "n < 16384"
  then have "n div 128 < 128" by (simp add: less_mult_imp_div_less)
  then have "length (varint (n div 128)) = 1" by (simp add: varint.simps [of "n div 128"])
  then show ?thesis by (simp add: varint.simps [of n])
qed

lemma number_bytes_length:
  assumes "list_all (\<lambda>n. n < 16384) ns" "length ns < 16384"
  shows "length (number_bytes ns) \<le> 2 * length ns + 2"
proof -
  have "length (concat (map varint ns)) \<le> 2 * length ns"
    using assms(1) by (induction ns) (auto dest: varint_length)
  then show ?thesis using varint_length [OF assms(2)] by (simp add: number_bytes_def)
qed

lemma plain_token_length:
  assumes "object_numbers (header_json (sg_key_id sg)) = hs" "object_numbers (to_payload c) = ps"
    and "list_all (\<lambda>n. n < 16384) (sg_key sg # hs @ ps)" "length hs + length ps \<le> 500"
    and "issue_claims (sg_issuer sg) aq tm = Inr c" "issue plain_library sg aq tm = Inr token"
  shows "length token \<le> max_compact_length"
proof -
  define m where "m = signed_text plain_library (sg_key_id sg) c"
  have "length (encode_bytes bs) \<le> 2 * length bs" for bs by (simp add: encode_bytes_def b64_digits_length)
  note len = order_trans [OF this mult_le_mono2]
  have "length m \<le> 2 * (2 * length hs + 2) + 1 + 2 * (2 * length ps + 2)"
    using assms(1-4) len [OF number_bytes_length, of hs] len [OF number_bytes_length, of ps]
    by (simp add: m_def signed_text_def encode_json_def plain_library_def)
  then have m: "length m \<le> 2009" using assms(4) by simp
  have "list_all (\<lambda>c. c < 128) m"
    using b64_char_small number_bytes_bytes by (simp add: m_def signed_text_def encode_json_def plain_library_def)
  then have "list_all (\<lambda>c. c < 16384) (sg_key sg # m)" using assms(3) by (auto simp: list_all_iff)
  then have "length (encode_bytes (number_bytes (sg_key sg # m))) \<le> 2 * (2 * length (sg_key sg # m) + 2)"
    using m by (intro len number_bytes_length) simp_all
  moreover have "token = m @ [46] @ encode_bytes (number_bytes (sg_key sg # m))"
    using assms(5,6) by (simp add: issue_def m_def Let_def plain_library_def)
  ultimately show ?thesis using m by (simp add: max_compact_length_def)
qed

definition demo_claims :: "string \<Rightarrow> identity_claims" where
  "demo_claims w = issued_claims (codes ''p'') demo_grant (demo_timing w) [codes ''research:pulse:read'']"

definition demo_ids :: "string set" where
  "demo_ids = {''t1'', ''t2''}"

lemma demo_issue: "w \<in> demo_ids \<Longrightarrow> issue_claims (sg_issuer demo_signer) demo_grant (demo_timing w) = Inr (demo_claims w)"
  by (auto simp: demo_ids_def issue_claims_def demo_signer_def demo_claims_def demo_grant_def demo_timing_def valid_from_def
      normalize_scopes_def request_texts_ok_def optional_text_def required_text_def request_method_ok_def request_path_ok_def
      method_ok_def path_ok_def max_ttl_def second_def py_strip_def py_isspace_def codes_def)

lemma demo_token: "w \<in> demo_ids \<Longrightarrow> issue plain_library demo_signer demo_grant (demo_timing w) = Inr (demo_token w)"
  using demo_issue by (simp add: demo_token_def issue_def Let_def)

lemma demo_token_length: "w \<in> demo_ids \<Longrightarrow> length (demo_token w) \<le> max_compact_length"
  by (rule plain_token_length [OF refl refl _ _ demo_issue demo_token])
    (auto simp: demo_ids_def demo_signer_def header_json_def to_payload_eq demo_claims_def issued_claims_def demo_grant_def demo_timing_def
      object_numbers_def text_numbers_def optional_json_def timestamp_def valid_from_def max_ttl_def second_def codes_def)

definition demo_binding :: binding where
  "demo_binding = \<lparr>bd_scopes = [codes ''research:pulse:read''], bd_request = codes ''r1'', bd_method = codes ''GET'',
     bd_path = codes ''/api/pulse/today''\<rparr>"

lemmas demo_eval = demo_ids_def demo_grant_def demo_timing_def demo_verifier_def demo_signer_def demo_binding_def trusts_def in_window_def
  timing_ok_def request_scalar_def valid_from_def timestamp_def max_ttl_def second_def plain_library_def text_ok_def required_text_def
  scalar_text_def py_strip_def py_isspace_def codes_def

theorem issued_assertion_is_accepted_witness:
  "fst (verify plain_library demo_verifier (demo_token ''t1'') demo_binding 1061000000
      \<lparr>rc_maximum = 10000, rc_entries = [(codes ''t0'', 900)]\<rparr>) = Inr (demo_claims ''t1'')"
proof -
  have w: "''t1'' \<in> demo_ids" by (simp add: demo_ids_def)
  show ?thesis
    unfolding demo_issue [OF w, symmetric]
    by (rule issued_assertion_is_accepted [OF plain.assertion_library_axioms demo_token [OF w] _ _ demo_token_length [OF w],
          where needed = "[codes ''research:pulse:read'']"]) (simp_all add: demo_eval)
qed

lemma demo_check:
  assumes "w \<in> demo_ids"
  shows "check_assertion plain_library demo_verifier (demo_token w) demo_binding 1000000000 = Inr (demo_claims w)"
proof (rule plain.issue_accepted [OF demo_token [OF assms] _ _ demo_token_length [OF assms],
      where needed = "[codes ''research:pulse:read'']" and v = demo_verifier and now = 1000000000 and b = demo_binding])
  fix c
  assume "issue_claims (sg_issuer demo_signer) demo_grant (demo_timing w) = Inr c"
    "check_assertion plain_library demo_verifier (demo_token w) demo_binding 1000000000 = Inr c"
  then show ?thesis using demo_issue [OF assms] by simp
qed (use assms in \<open>auto simp: demo_eval\<close>)

text \<open>A registry for one identifier: the second assertion displaces the first, which is accepted again.\<close>

definition demo_attempts :: "(pystr \<times> binding \<times> int) list" where
  "demo_attempts = map (\<lambda>w. (demo_token w, demo_binding, 1000000000)) [''t1'', ''t2'', ''t1'']"

lemma demo_attempts_accepted:
  "fst (verify_all plain_library demo_verifier demo_attempts \<lparr>rc_maximum = 1, rc_entries = []\<rparr>)
    = [Inr (demo_claims ''t1''), Inr (demo_claims ''t2''), Inr (demo_claims ''t1'')]"
  using demo_check [of "''t1''"] demo_check [of "''t2''"]
  by (simp add: demo_attempts_def verify_def consume_def Let_def demo_ids_def)
    (simp add: demo_claims_def issued_claims_def demo_timing_def demo_verifier_def timestamp_def second_def)

theorem replay_refused_witness:
  "1 \<le> acceptances [Inr (demo_claims ''t2'')] \<and>
   acceptances (fst (verify_all plain_library demo_verifier demo_attempts \<lparr>rc_maximum = 1, rc_entries = []\<rparr>)) = 3"
proof -
  obtain rs c' where run: "verify_all plain_library demo_verifier demo_attempts \<lparr>rc_maximum = 1, rc_entries = []\<rparr> = (rs, c')"
    by (rule prod.exhaust)
  have rs: "rs = [Inr (demo_claims ''t1''), Inr (demo_claims ''t2''), Inr (demo_claims ''t1'')]"
    using demo_attempts_accepted run by simp
  have "sorted (map attempt_time demo_attempts)" by (simp add: demo_attempts_def attempt_time_def)
  from replay_refused [OF run this, of 0 2 "demo_claims ''t1''"] show ?thesis
    unfolding run by (simp add: rs acceptances_def)
qed

text \<open>
  At its capacity the registry drops the oldest identifier however long it is still valid, and with it
  the refusal of its replay.
\<close>

lemma capacity_reopens_replay:
  assumes "rc_entries c = (i, e) # es" "Suc (length es) = rc_maximum c" "\<forall>(_, f) \<in> set (rc_entries c). now \<le> f"
    and "j \<notin> fst ` set (rc_entries c)" "i \<notin> fst ` set es" "now \<le> f"
  shows "fst (consume j f now c) = Inr () \<and> fst (consume i e now (snd (consume j f now c))) = Inr ()"
proof -
  have "dropWhile (\<lambda>(_, e). e < now) (rc_entries c) = rc_entries c" using assms(1,3) by auto
  then have first: "consume j f now c = (Inr (), c\<lparr>rc_entries := es @ [(j, f)]\<rparr>)"
    using assms(1,2,4) by (simp add: consume_def Let_def)
  have "i \<notin> fst ` set (dropWhile (\<lambda>(_, e). e < now) (es @ [(j, f)]))"
    using assms(1,4,5) set_dropWhileD by fastforce
  then show ?thesis by (simp add: first) (simp add: consume_def Let_def)
qed

end
