(* ===== verification/Browser_Sessions.thy ===== *)
theory Browser_Sessions
  imports Erasure_Store
begin

text \<open>
  Browser sessions: the capabilities that mint and renew them, and what the session middleware
  (\<open>session_middleware.py\<close>) makes of a cookie.
\<close>

section \<open>Sessions\<close>

definition session_grace :: int where
  "session_grace = 24 * 3600"

definition session_ttl :: int where
  "session_ttl = 30 * 24 * 3600"

definition session_renew_after :: int where
  "session_renew_after = 24 * 3600"

definition live_account :: "platform_db \<Rightarrow> int \<Rightarrow> bool" where
  "live_account s u \<longleftrightarrow> list_ex (\<lambda>a. ac_id a = u \<and> ac_deleted a = None) (pf_users s)"

definition mint_session_v1 ::
  "db_role \<Rightarrow> int \<Rightarrow> int \<Rightarrow> nat option \<Rightarrow> nat \<Rightarrow> platform_db \<Rightarrow> db_error + (nat \<times> platform_db)" where
  "mint_session_v1 caller u expires credential fresh s =
     (if caller \<noteq> Platform_Runtime \<or> expires \<le> pf_now s \<or> \<not> live_account s u then Inl Not_Allowed
      else if fresh \<in> se_id ` set (pf_sessions s) then Inl Unique_Violation
      else Inr (fresh, s\<lparr>pf_sessions := pf_sessions s @
        [\<lparr>se_id = fresh, se_user = u, se_expires = expires, se_revoked = None, se_credential = credential\<rparr>]\<rparr>))"

definition renew_session_v1 ::
  "db_role \<Rightarrow> nat \<Rightarrow> int \<Rightarrow> int \<Rightarrow> platform_db \<Rightarrow> db_error + (nat option \<times> platform_db)" where
  "renew_session_v1 caller i ttl after s =
     (if caller \<noteq> Platform_Runtime \<or> ttl \<le> 0 \<or> after \<le> 0 \<or> after \<ge> ttl then Inl Not_Allowed
      else
        let hit = (\<lambda>x. se_id x = i \<and> se_revoked x = None \<and> pf_now s < se_expires x \<and> se_expires x < pf_now s + ttl - after)
        in Inr (if list_ex hit (pf_sessions s) then Some i else None,
                s\<lparr>pf_sessions := map (\<lambda>x. if hit x then x\<lparr>se_expires := pf_now s + ttl\<rparr> else x) (pf_sessions s)\<rparr>))"

record resolved_session =
  rv_user :: int
  rv_email :: pystr
  rv_role :: account_role
  rv_renewed :: bool

text \<open>What of the database calls fails; every failure is swallowed.\<close>

datatype db_weather = Healthy | Renewal_Fails | Lookup_Fails

definition renew_session :: "db_weather \<Rightarrow> nat \<Rightarrow> platform_db \<Rightarrow> bool \<times> platform_db" where
  "renew_session weather i s =
     (if weather = Renewal_Fails then (False, s)
      else case renew_session_v1 Platform_Runtime i session_ttl session_renew_after s of
        Inl e \<Rightarrow> (False, s)
      | Inr (found, s') \<Rightarrow> (found \<noteq> None, s'))"

text \<open>\<open>uuid\<close> is PostgreSQL's reading of a UUID; the join keeps a session only with its account.\<close>

definition resolve_session ::
  "(pystr \<Rightarrow> nat option) \<Rightarrow> db_weather \<Rightarrow> int \<Rightarrow> pystr \<Rightarrow> platform_db \<Rightarrow> resolved_session option \<times> platform_db" where
  "resolve_session uuid weather clock cookie s =
     (if weather = Lookup_Fails then (None, s)
      else case uuid cookie of
        None \<Rightarrow> (None, s)
      | Some i \<Rightarrow>
          (case find (\<lambda>x. se_id x = i) (pf_sessions s) of
             None \<Rightarrow> (None, s)
           | Some x \<Rightarrow>
               (case user_row s (se_user x) of
                  None \<Rightarrow> (None, s)
                | Some a \<Rightarrow>
                    if se_revoked x \<noteq> None then (None, s)
                    else if ac_deleted a \<noteq> None then (None, s)
                    else if se_expires x \<le> clock - session_grace then (None, s)
                    else
                      let (renewed, s') =
                        (if clock < se_expires x \<and> se_expires x < clock + session_ttl - session_renew_after
                         then renew_session weather i s else (False, s))
                      in (Some \<lparr>rv_user = se_user x, rv_email = ac_email a, rv_role = ac_role a, rv_renewed = renewed\<rparr>, s'))))"

text \<open>What the session middleware leaves on \<open>request.state\<close>.\<close>

record login =
  lg_user :: "int option"
  lg_role :: "account_role option"
  lg_session :: "pystr option"

definition no_login :: login where
  "no_login = \<lparr>lg_user = None, lg_role = None, lg_session = None\<rparr>"

definition populate_state_from_cookie ::
  "(pystr \<Rightarrow> nat option) \<Rightarrow> db_weather \<Rightarrow> int \<Rightarrow> pystr option \<Rightarrow> platform_db \<Rightarrow> login \<times> platform_db" where
  "populate_state_from_cookie uuid weather clock cookie s =
     (case cookie of
        None \<Rightarrow> (no_login, s)
      | Some token \<Rightarrow>
          if token = [] then (no_login, s)
          else (case resolve_session uuid weather clock token s of
            (None, s') \<Rightarrow> (no_login, s')
          | (Some r, s') \<Rightarrow> (\<lparr>lg_user = Some (rv_user r), lg_role = Some (rv_role r), lg_session = Some token\<rparr>, s')))"

text \<open>Decimal notation.\<close>

fun decimal :: "nat \<Rightarrow> pystr" where
  "decimal n = (if n < 10 then [48 + n] else decimal (n div 10) @ [48 + n mod 10])"

declare decimal.simps [simp del]

text \<open>\<open>encode("utf-8", "replace")\<close> turns surrogates into question marks.\<close>

definition utf8_replaced :: "pystr \<Rightarrow> pystr" where
  "utf8_replaced s = map (\<lambda>c. if 55296 \<le> c \<and> c < 57344 then 63 else c) s"

definition api_key_matches :: "pystr option \<Rightarrow> pystr \<Rightarrow> bool" where
  "api_key_matches presented configured \<longleftrightarrow>
     utf8_replaced (case presented of None \<Rightarrow> [] | Some k \<Rightarrow> k) = utf8_replaced configured"

end
