(* ===== verification/Identity_Gateway.thy ===== *)
theory Identity_Gateway
  imports Identity_Assertion Browser_Sessions Http_Limiter
begin

text \<open>
  Where identities come from and where they are checked: the three endpoints of Platform that mint assertions
  (\<open>internal_auth.py\<close>, \<open>internal_services.py\<close>, \<open>internal_telegram.py\<close>), the commands that Platform signs for
  itself, and the middleware of the backends (\<open>identity_middleware.py\<close>).
\<close>

section \<open>The endpoints that mint\<close>

record 'net gateway_config =
  gw_networks :: "'net list"
  gw_api_key :: pystr
  gw_service_token :: "pystr \<Rightarrow> pystr"
  gw_uuid :: "pystr \<Rightarrow> nat option"

text \<open>Pairings: a user and a chat.\<close>

record identity_db =
  id_platform :: platform_db
  id_pairings :: "(int \<times> int) list"

definition int_text :: "int \<Rightarrow> pystr" where
  "int_text i = (if i < 0 then 45 # decimal (nat (- i)) else decimal (nat i))"

definition user_subject :: "int \<Rightarrow> pystr" where
  "user_subject u = codes ''user:'' @ int_text u"

fun role_text :: "account_role \<Rightarrow> pystr" where
  "role_text User_Role = codes ''user''"
| "role_text Admin_Role = codes ''admin''"

definition gateway_peer_allowed :: "('ip, 'net) net_ops \<Rightarrow> 'net list \<Rightarrow> asgi_scope \<Rightarrow> bool" where
  "gateway_peer_allowed ops networks sc =
     (case stashed_raw_peer ops sc of None \<Rightarrow> False | Some a \<Rightarrow> list_ex (in_network ops a) networks)"

record gateway_call =
  gc_scope :: asgi_scope
  gc_audience :: pystr
  gc_method :: pystr
  gc_path :: pystr
  gc_id :: pystr
  gc_api_key :: "pystr option"

text \<open>A reply is an HTTP status, or what the signer is to sign. 422 is the validation of the typed arguments.\<close>

definition authorize_backend_request ::
  "('ip, 'net) net_ops \<Rightarrow> 'net gateway_config \<Rightarrow> login \<Rightarrow> gateway_call \<Rightarrow> nat + assertion_request" where
  "authorize_backend_request ops cfg lg call =
     (if gc_audience call \<notin> set audiences then Inl 422
      else if \<not> gateway_peer_allowed ops (gw_networks cfg) (gc_scope call) then Inl 403
      else case required_identity_scopes (gc_audience call) (gc_method call) (gc_path call) of
        Inl Value_Error \<Rightarrow> Inl 400
      | Inl _ \<Rightarrow> Inl 500
      | Inr None \<Rightarrow> Inl 400
      | Inr (Some scopes) \<Rightarrow>
          let aq = \<lparr>aq_audience = gc_audience call, aq_subject = codes ''operator-api-key'', aq_principal = codes ''api-key'',
                    aq_user = None, aq_role = None, aq_session = None, aq_id = gc_id call, aq_method = gc_method call,
                    aq_path = gc_path call, aq_scopes = scopes\<rparr>
          in (case (lg_user lg, lg_session lg) of
                (Some u, Some sid) \<Rightarrow>
                  Inr (aq\<lparr>aq_subject := user_subject u, aq_principal := codes ''browser'', aq_user := Some u,
                          aq_role := map_option role_text (lg_role lg), aq_session := Some sid\<rparr>)
              | _ \<Rightarrow>
                  if gw_api_key cfg \<noteq> [] \<and> api_key_matches (gc_api_key call) (gw_api_key cfg) then Inr aq else Inl 401))"

record service_call =
  sv_principal :: pystr
  sv_token :: pystr
  sv_audience :: pystr
  sv_method :: pystr
  sv_path :: pystr
  sv_id :: pystr
  sv_user :: int

definition authenticate_service_principal :: "'net gateway_config \<Rightarrow> service_call \<Rightarrow> bool" where
  "authenticate_service_principal cfg call \<longleftrightarrow>
     sv_principal call \<in> set principals \<and> sv_token call = gw_service_token cfg (sv_principal call)"

definition service_body_ok :: "service_call \<Rightarrow> bool" where
  "service_body_ok call \<longleftrightarrow> sv_audience call \<in> set audiences \<and> length (sv_method call) \<in> {1..16}
     \<and> length (sv_path call) \<in> {1..2048} \<and> length (sv_id call) \<in> {1..128} \<and> 0 < sv_user call"

definition service_request :: "pystr \<Rightarrow> pystr list \<Rightarrow> service_call \<Rightarrow> assertion_request" where
  "service_request pr scopes call =
     \<lparr>aq_audience = sv_audience call, aq_subject = user_subject (sv_user call), aq_principal = pr,
      aq_user = Some (sv_user call), aq_role = None, aq_session = None, aq_id = sv_id call,
      aq_method = sv_method call, aq_path = sv_path call, aq_scopes = scopes\<rparr>"

definition authorize_service_command :: "'net gateway_config \<Rightarrow> identity_db \<Rightarrow> service_call \<Rightarrow> nat + assertion_request" where
  "authorize_service_command cfg db call =
     (if \<not> authenticate_service_principal cfg call then Inl 401
      else if \<not> service_body_ok call then Inl 422
      else case named_subject_scopes (sv_principal call) (sv_audience call) (sv_method call) (sv_path call) of
        Inl Value_Error \<Rightarrow> Inl 400
      | Inl _ \<Rightarrow> Inl 500
      | Inr None \<Rightarrow> Inl 403
      | Inr (Some scopes) \<Rightarrow>
          if \<not> live_account (id_platform db) (sv_user call) then Inl 403
          else Inr (service_request (sv_principal call) scopes call))"

definition authorize_downstream_request :: "'net gateway_config \<Rightarrow> identity_db \<Rightarrow> service_call \<Rightarrow> nat + assertion_request" where
  "authorize_downstream_request cfg db call =
     (if \<not> authenticate_service_principal cfg call then Inl 401
      else if \<not> service_body_ok call then Inl 422
      else if sv_principal call \<noteq> codes ''telegram'' then Inl 403
      else case service_principal_scopes (codes ''telegram'') (sv_audience call) (sv_method call) (sv_path call) of
        Inl Value_Error \<Rightarrow> Inl 400
      | Inl _ \<Rightarrow> Inl 500
      | Inr None \<Rightarrow> Inl 403
      | Inr (Some scopes) \<Rightarrow>
          if \<not> (sv_user call \<in> fst ` set (id_pairings db) \<and> live_account (id_platform db) (sv_user call)) then Inl 404
          else Inr (service_request (codes ''telegram'') scopes call))"

section \<open>The commands that Platform signs for itself\<close>

datatype platform_command =
    Erase_Owner erasure_domain pystr int
  | Dispatch_Job pystr pystr int
  | Write_Config pystr pystr int "account_role option" "pystr option"
  | Deliver_Config pystr pystr "int option" "pystr option" "pystr option"
  | Invalidate_Cache pystr pystr int "account_role option" "pystr option"
  | Setup_Status pystr int "pystr option"

fun erasure_suffix :: "erasure_domain \<Rightarrow> pystr" where
  "erasure_suffix Qdrant = codes ''/qdrant''"
| "erasure_suffix Research = codes ''/research''"
| "erasure_suffix Learning = []"

fun erasure_audience :: "erasure_domain \<Rightarrow> pystr" where
  "erasure_audience Learning = codes ''learning''"
| "erasure_audience _ = codes ''research''"

definition browser_command ::
  "pystr \<Rightarrow> pystr \<Rightarrow> pystr \<Rightarrow> pystr \<Rightarrow> int \<Rightarrow> pystr option \<Rightarrow> pystr option \<Rightarrow> assertion_request" where
  "browser_command rid m path scope u role sid =
     \<lparr>aq_audience = codes ''research'', aq_subject = user_subject u, aq_principal = codes ''browser'', aq_user = Some u,
      aq_role = role, aq_session = sid, aq_id = rid, aq_method = m, aq_path = path, aq_scopes = [scope]\<rparr>"

definition owner_command_request :: "erasure_domain \<Rightarrow> pystr \<Rightarrow> int \<Rightarrow> assertion_request" where
  "owner_command_request d rid u =
     \<lparr>aq_audience = erasure_audience d, aq_subject = codes ''service:platform'', aq_principal = codes ''platform'',
      aq_user = Some u, aq_role = None, aq_session = None, aq_id = rid, aq_method = codes ''POST'',
      aq_path = codes ''/internal/domains/erasure/'' @ rid @ erasure_suffix d,
      aq_scopes = [erasure_audience d @ codes '':erasure:write'']\<rparr>"

definition dispatch_to_owner :: "pystr \<Rightarrow> pystr \<Rightarrow> int \<Rightarrow> assertion_request" where
  "dispatch_to_owner rid audience u =
     \<lparr>aq_audience = audience, aq_subject = user_subject u, aq_principal = codes ''platform'', aq_user = Some u,
      aq_role = None, aq_session = None, aq_id = rid, aq_method = codes ''POST'', aq_path = codes ''/api/jobs/dispatch'',
      aq_scopes = [audience @ codes '':jobs:write'']\<rparr>"

definition write_research_config :: "pystr \<Rightarrow> pystr \<Rightarrow> int \<Rightarrow> account_role option \<Rightarrow> pystr option \<Rightarrow> assertion_request" where
  "write_research_config rid key u role sid =
     browser_command rid (codes ''PUT'') (codes ''/internal/platform/config/'' @ key) (codes ''research:config:write'')
       u (map_option role_text role) sid"

text \<open>A value without a user is delivered in the name of user 1.\<close>

definition send_value :: "pystr \<Rightarrow> pystr \<Rightarrow> int option \<Rightarrow> pystr option \<Rightarrow> pystr option \<Rightarrow> assertion_request" where
  "send_value rid key u role sid =
     browser_command rid (codes ''PUT'') (codes ''/internal/platform/config/'' @ key) (codes ''research:config:write'')
       (case u of None \<Rightarrow> 1 | Some v \<Rightarrow> if v = 0 then 1 else v) role sid"

definition invalidate_provider_cache :: "pystr \<Rightarrow> pystr \<Rightarrow> int \<Rightarrow> account_role option \<Rightarrow> pystr option \<Rightarrow> assertion_request" where
  "invalidate_provider_cache rid provider u role sid =
     browser_command rid (codes ''POST'') (codes ''/internal/platform/providers/'' @ provider @ codes ''/cache/invalidate'')
       (codes ''research:providers:write'') u (map_option role_text role) sid"

definition setup_status :: "pystr \<Rightarrow> int \<Rightarrow> pystr option \<Rightarrow> assertion_request" where
  "setup_status rid u sid =
     browser_command rid (codes ''GET'') (codes ''/api/system/setup-status/research'') (codes ''research:system:read'')
       u (Some (role_text Admin_Role)) sid"

text \<open>The first text is the id of the request, for an erasure that of the erasure request.\<close>

fun command_request :: "platform_command \<Rightarrow> assertion_request" where
  "command_request (Erase_Owner d rid u) = owner_command_request d rid u"
| "command_request (Dispatch_Job rid audience u) = dispatch_to_owner rid audience u"
| "command_request (Write_Config rid key u role sid) = write_research_config rid key u role sid"
| "command_request (Deliver_Config rid key u role sid) = send_value rid key u role sid"
| "command_request (Invalidate_Cache rid provider u role sid) = invalidate_provider_cache rid provider u role sid"
| "command_request (Setup_Status rid u sid) = setup_status rid u sid"

lemmas command_request_defs = owner_command_request_def dispatch_to_owner_def write_research_config_def send_value_def
  invalidate_provider_cache_def setup_status_def browser_command_def

section \<open>The middleware of the backends\<close>

record asgi_request =
  ar_type :: string
  ar_headers :: "(nat list \<times> nat list) list"
  ar_method :: "pystr option"
  ar_path :: pystr

record backend_state =
  bs_user :: "int option"
  bs_role :: "pystr option"
  bs_session :: "pystr option"
  bs_principal :: pystr
  bs_scopes :: "pystr list"
  bs_token :: pystr

text \<open>A request goes through without an identity, or with one and without its cookies, or it is answered.\<close>

datatype outcome =
    Passed_Through
  | Forwarded backend_state "(nat list \<times> nat list) list"
  | Rejected nat
  | Closed nat
  | Crashed identity_error

definition lower_header :: "nat list \<Rightarrow> nat list" where
  "lower_header = map (\<lambda>c. if 65 \<le> c \<and> c \<le> 90 then c + 32 else c)"

text \<open>The method of a request is an ASCII token; a websocket has none.\<close>

definition ascii_upper :: "pystr \<Rightarrow> pystr" where
  "ascii_upper = map (\<lambda>c. if 97 \<le> c \<and> c \<le> 122 then c - 32 else c)"

definition asgi_method :: "asgi_request \<Rightarrow> pystr" where
  "asgi_method rq = ascii_upper (case ar_method rq of None \<Rightarrow> codes ''GET'' | Some m \<Rightarrow> m)"

definition forbidden_headers :: "nat list list" where
  "forbidden_headers = map codes [''x-jarvis-principal'', ''x-jarvis-scopes'', ''x-jarvis-session-id'', ''x-jarvis-user-id'',
     ''x-jarvis-user-role'', ''x-owner-user-id'']"

definition single_header :: "(nat list \<times> nat list) list \<Rightarrow> string \<Rightarrow> pystr option" where
  "single_header headers name =
     (case filter (\<lambda>(n, _). lower_header n = codes name) headers of
        [(_, v)] \<Rightarrow> if list_all (\<lambda>c. c < 128) v then Some v else None
      | _ \<Rightarrow> None)"

definition rejected :: "asgi_request \<Rightarrow> nat \<Rightarrow> outcome" where
  "rejected rq status = (if ar_type rq = ''websocket'' then Closed 4401 else Rejected status)"

definition backend_state_of :: "identity_claims \<Rightarrow> backend_state" where
  "backend_state_of c = \<lparr>bs_user = ic_user c, bs_role = ic_role c, bs_session = ic_session c, bs_principal = ic_principal c,
     bs_scopes = ic_scopes c, bs_token = ic_token c\<rparr>"

definition identity_middleware ::
  "('sk, 'pk) library \<Rightarrow> 'pk verifier option \<Rightarrow> pystr \<Rightarrow> asgi_request \<Rightarrow> int \<Rightarrow> replay_cache \<Rightarrow> outcome \<times> replay_cache" where
  "identity_middleware lib verifier audience rq now cache =
     (if ar_type rq \<notin> {''http'', ''websocket''} then (Passed_Through, cache)
      else if list_ex (\<lambda>(n, _). lower_header n \<in> set forbidden_headers) (ar_headers rq) then (rejected rq 401, cache)
      else case required_identity_scopes audience (asgi_method rq) (ar_path rq) of
        Inl Value_Error \<Rightarrow> (rejected rq 401, cache)
      | Inl e \<Rightarrow> (Crashed e, cache)
      | Inr None \<Rightarrow> (Passed_Through, cache)
      | Inr (Some scopes) \<Rightarrow>
          (case verifier of
             None \<Rightarrow> (rejected rq 503, cache)
           | Some v \<Rightarrow>
               (case (single_header (ar_headers rq) ''x-jarvis-identity'', single_header (ar_headers rq) ''x-request-id'') of
                  (Some token, Some rid) \<Rightarrow>
                    (case verify lib v token \<lparr>bd_scopes = scopes, bd_request = rid, bd_method = asgi_method rq, bd_path = ar_path rq\<rparr>
                        now cache of
                       (Inl Assertion_Error, cache') \<Rightarrow> (rejected rq 401, cache')
                     | (Inl e, cache') \<Rightarrow> (Crashed e, cache')
                     | (Inr c, cache') \<Rightarrow>
                         (Forwarded (backend_state_of c) (filter (\<lambda>(n, _). lower_header n \<noteq> codes ''cookie'') (ar_headers rq)), cache'))
                | _ \<Rightarrow> (rejected rq 401, cache))))"

section \<open>Who can have been granted an identity\<close>

text \<open>
  The database over time is a function of the instant. An endpoint grants in the database of its
  instant; the session lookup may also fail.
\<close>

inductive endpoint_grants ::
  "('ip, 'net) net_ops \<Rightarrow> 'net gateway_config \<Rightarrow> (int \<Rightarrow> identity_db) \<Rightarrow> int \<Rightarrow> assertion_request \<Rightarrow> bool"
  for ops cfg hist where
  gateway: "endpoint_grants ops cfg hist t aq"
    if "populate_state_from_cookie (gw_uuid cfg) weather (timestamp t) cookie (id_platform (hist t)) = (lg, s')"
      "authorize_backend_request ops cfg lg call = Inr aq"
| service: "endpoint_grants ops cfg hist t aq" if "authorize_service_command cfg (hist t) call = Inr aq"
| telegram: "endpoint_grants ops cfg hist t aq" if "authorize_downstream_request cfg (hist t) call = Inr aq"

definition granted ::
  "('ip, 'net) net_ops \<Rightarrow> 'net gateway_config \<Rightarrow> (int \<Rightarrow> identity_db) \<Rightarrow> int \<Rightarrow> assertion_request \<Rightarrow> bool" where
  "granted ops cfg hist t aq \<longleftrightarrow> endpoint_grants ops cfg hist t aq \<or> (\<exists>cmd. aq = command_request cmd)"

text \<open>What Platform has signed: grants of their instant, with the default lifetime and no later start.\<close>

definition issued_by ::
  "('ip, 'net) net_ops \<Rightarrow> 'net gateway_config \<Rightarrow> (int \<Rightarrow> identity_db) \<Rightarrow> pystr \<Rightarrow> (pystr \<times> identity_claims) set" where
  "issued_by ops cfg hist issuer =
     {(kid, c) | kid c aq tm. granted ops cfg hist (tm_now tm) aq \<and> tm_from tm = None \<and> tm_ttl tm = max_ttl
        \<and> issue_claims issuer aq tm = Inr c}"






lemma gateway_grantD:
  assumes "authorize_backend_request ops cfg lg call = Inr aq"
  shows "required_identity_scopes (aq_audience aq) (aq_method aq) (aq_path aq) = Inr (Some (aq_scopes aq))"
    and "aq_user aq = Some u \<Longrightarrow> lg_user lg = Some u \<and> aq_session aq = lg_session lg \<and> aq_role aq = map_option role_text (lg_role lg)"
    and "aq_user aq = None \<Longrightarrow> aq_session aq = None \<and> aq_role aq = None"
proof -
  obtain scopes where sc: "required_identity_scopes (gc_audience call) (gc_method call) (gc_path call) = Inr (Some scopes)"
    using assms by (auto simp: authorize_backend_request_def split: if_splits sum.splits option.splits identity_error.splits)
  show "required_identity_scopes (aq_audience aq) (aq_method aq) (aq_path aq) = Inr (Some (aq_scopes aq))"
    using assms sc by (auto simp: authorize_backend_request_def Let_def split: if_splits option.splits)
  show "aq_user aq = Some u \<Longrightarrow> lg_user lg = Some u \<and> aq_session aq = lg_session lg \<and> aq_role aq = map_option role_text (lg_role lg)"
    using assms sc by (auto simp: authorize_backend_request_def Let_def split: if_splits option.splits)
  show "aq_user aq = None \<Longrightarrow> aq_session aq = None \<and> aq_role aq = None"
    using assms sc by (auto simp: authorize_backend_request_def Let_def split: if_splits option.splits)
qed

lemma service_grantD:
  assumes "authorize_service_command cfg db call = Inr aq"
  shows "required_identity_scopes (aq_audience aq) (aq_method aq) (aq_path aq) = Inr (Some (aq_scopes aq))"
    and "aq_user aq = Some (sv_user call)" "live_account (id_platform db) (sv_user call)" "aq_session aq = None" "aq_role aq = None"
proof -
  obtain scopes where sc: "named_subject_scopes (sv_principal call) (sv_audience call) (sv_method call) (sv_path call) = Inr (Some scopes)"
    using assms by (auto simp: authorize_service_command_def split: if_splits sum.splits option.splits identity_error.splits)
  have aq: "aq = service_request (sv_principal call) scopes call" "live_account (id_platform db) (sv_user call)"
    using assms sc by (auto simp: authorize_service_command_def split: if_splits)
  show "required_identity_scopes (aq_audience aq) (aq_method aq) (aq_path aq) = Inr (Some (aq_scopes aq))"
    using granted_required [OF named_is_granted(1) [OF sc]] by (simp add: aq(1) service_request_def)
  show "aq_user aq = Some (sv_user call)" "live_account (id_platform db) (sv_user call)" "aq_session aq = None" "aq_role aq = None"
    using aq by (simp_all add: service_request_def)
qed

lemma telegram_grantD:
  assumes "authorize_downstream_request cfg db call = Inr aq"
  shows "required_identity_scopes (aq_audience aq) (aq_method aq) (aq_path aq) = Inr (Some (aq_scopes aq))"
    and "aq_user aq = Some (sv_user call)" "live_account (id_platform db) (sv_user call)" "aq_session aq = None" "aq_role aq = None"
proof -
  obtain scopes where sc: "service_principal_scopes (codes ''telegram'') (sv_audience call) (sv_method call) (sv_path call) = Inr (Some scopes)"
    using assms by (auto simp: authorize_downstream_request_def split: if_splits sum.splits option.splits identity_error.splits)
  have aq: "aq = service_request (codes ''telegram'') scopes call" "live_account (id_platform db) (sv_user call)"
    using assms sc by (auto simp: authorize_downstream_request_def split: if_splits)
  show "required_identity_scopes (aq_audience aq) (aq_method aq) (aq_path aq) = Inr (Some (aq_scopes aq))"
    using granted_required [OF sc] by (simp add: aq(1) service_request_def)
  show "aq_user aq = Some (sv_user call)" "live_account (id_platform db) (sv_user call)" "aq_session aq = None" "aq_role aq = None"
    using aq by (simp_all add: service_request_def)
qed

text \<open>What an endpoint grants is what the destination asks, and it is granted to a live account, session and role.\<close>

lemma endpoint_grant_scopes:
  "endpoint_grants ops cfg hist t aq \<Longrightarrow>
     required_identity_scopes (aq_audience aq) (aq_method aq) (aq_path aq) = Inr (Some (aq_scopes aq))"
  by (cases rule: endpoint_grants.cases) (auto dest: gateway_grantD(1) service_grantD(1) telegram_grantD(1))


section \<open>Forwarded requests\<close>

lemma forwardedD:
  assumes "identity_middleware lib (Some v) audience rq now cache = (Forwarded st headers, cache')"
  obtains scopes token rid c where
    "required_identity_scopes audience (asgi_method rq) (ar_path rq) = Inr (Some scopes)"
    "single_header (ar_headers rq) ''x-jarvis-identity'' = Some token" "single_header (ar_headers rq) ''x-request-id'' = Some rid"
    "verify lib v token \<lparr>bd_scopes = scopes, bd_request = rid, bd_method = asgi_method rq, bd_path = ar_path rq\<rparr> now cache = (Inr c, cache')"
    "st = backend_state_of c" "headers = filter (\<lambda>(n, _). lower_header n \<noteq> codes ''cookie'') (ar_headers rq)"
proof -
  have nr: "rejected rq s \<noteq> Forwarded st headers" for s by (simp add: rejected_def)
  obtain scopes where sc: "required_identity_scopes audience (asgi_method rq) (ar_path rq) = Inr (Some scopes)"
    using assms nr by (auto simp: identity_middleware_def split: if_splits sum.splits option.splits identity_error.splits)
  obtain token where token: "single_header (ar_headers rq) ''x-jarvis-identity'' = Some token"
    using assms nr sc by (auto simp: identity_middleware_def split: if_splits option.splits)
  obtain rid where rid: "single_header (ar_headers rq) ''x-request-id'' = Some rid"
    using assms nr sc token by (auto simp: identity_middleware_def split: if_splits option.splits)
  let ?b = "\<lparr>bd_scopes = scopes, bd_request = rid, bd_method = asgi_method rq, bd_path = ar_path rq\<rparr>"
  obtain r c1 where r: "verify lib v token ?b now cache = (r, c1)" by (rule prod.exhaust)
  show thesis
  proof (cases r)
    case (Inl e)
    then show thesis using assms nr sc token rid r by (cases e) (auto simp: identity_middleware_def split: if_splits)
  next
    case (Inr c)
    then show thesis using that [OF sc token rid, of c] assms sc token rid r nr
      by (auto simp: identity_middleware_def split: if_splits)
  qed
qed

text \<open>The identities that a backend was given: by which grant, and when.\<close>

definition given_by :: "'pk verifier \<Rightarrow> asgi_request \<Rightarrow> backend_state \<Rightarrow> int \<Rightarrow> assertion_request \<Rightarrow> int \<Rightarrow> bool" where
  "given_by v rq st t aq now \<longleftrightarrow>
     aq_audience aq = vf_audience v \<and> aq_method aq = asgi_method rq \<and> aq_path aq = ar_path rq \<and>
     single_header (ar_headers rq) ''x-request-id'' = Some (aq_id aq) \<and>
     bs_user st = aq_user aq \<and> bs_role st = aq_role aq \<and> bs_session st = aq_session aq \<and> bs_principal st = aq_principal aq \<and>
     timestamp t \<le> timestamp now + vf_skew v \<and> timestamp now \<le> timestamp t + 60 + vf_skew v"

lemma forwarded_grant:
  assumes "assertion_library lib"
    and "\<And>token. single_header (ar_headers rq) ''x-jarvis-identity'' = Some token \<Longrightarrow>
      not_forged lib v (issued_by ops cfg hist issuer) token"
    and "identity_middleware lib (Some v) (vf_audience v) rq now cache = (Forwarded st headers, cache')"
  obtains t aq scopes where "granted ops cfg hist t aq" "given_by v rq st t aq now"
    "required_identity_scopes (vf_audience v) (asgi_method rq) (ar_path rq) = Inr (Some scopes)" "set scopes \<subseteq> set (aq_scopes aq)"
  using assms(3)
proof (rule forwardedD)
  fix scopes token rid c
  let ?b = "\<lparr>bd_scopes = scopes, bd_request = rid, bd_method = asgi_method rq, bd_path = ar_path rq\<rparr>"
  assume sc: "required_identity_scopes (vf_audience v) (asgi_method rq) (ar_path rq) = Inr (Some scopes)"
    and token: "single_header (ar_headers rq) ''x-jarvis-identity'' = Some token"
    and rid: "single_header (ar_headers rq) ''x-request-id'' = Some rid"
    and ok: "verify lib v token ?b now cache = (Inr c, cache')" and st: "st = backend_state_of c"
  note accepted = assertion_library.accepted_was_issued [OF assms(1) assms(2) [OF token] verify_accepts(1) [OF ok]]
  obtain aq tm where g: "granted ops cfg hist (tm_now tm) aq" "tm_ttl tm = max_ttl" "issue_claims issuer aq tm = Inr c"
    using accepted(1) by (auto simp: issued_by_def)
  obtain granted_scopes where c: "c = issued_claims issuer aq tm granted_scopes" "normalize_scopes (aq_scopes aq) = Some granted_scopes"
    using g(3) by (rule issue_claimsE)
  have "set granted_scopes = set (aq_scopes aq)" using c(2) by (auto simp: normalize_scopes_def split: if_splits)
  moreover have "timestamp (tm_now tm + tm_ttl tm) = timestamp (tm_now tm) + 60"
    using timestamp_add [of "tm_now tm" 60] g(2) by (simp add: max_ttl_def mult.commute)
  ultimately have "given_by v rq st (tm_now tm) aq now" "set scopes \<subseteq> set (aq_scopes aq)"
    using accepted(2) rid by (simp_all add: given_by_def bound_to_def c(1) issued_claims_def st backend_state_of_def)
  then show thesis by (rule that [OF g(1) _ sc])
qed

text \<open>
  Errors that are not the error of an assertion escape the middleware: a text that \<open>json.loads\<close> refuses
  with a plain \<open>ValueError\<close> or by its recursion limit, before any signature is checked, and an empty
  request id.
\<close>

lemma unparsable_header_crashes:
  assumes "required_identity_scopes audience (asgi_method rq) (ar_path rq) = Inr (Some scopes)" "ar_type rq = ''http''"
    and "\<not> list_ex (\<lambda>(n, _). lower_header n \<in> set forbidden_headers) (ar_headers rq)"
    and "single_header (ar_headers rq) ''x-jarvis-identity'' = Some token" "single_header (ar_headers rq) ''x-request-id'' = Some rid"
    and "compact_parts token = Inr (h, p, s)" "decode_bytes h = Inr bs" "li_loads lib bs = Inl failure" "failure \<noteq> Bad_Json"
  shows "\<exists>e. identity_middleware lib (Some v) audience rq now cache = (Crashed e, cache)"
  using assms by (cases failure) (simp_all add: identity_middleware_def verify_def check_assertion_def decode_json_object_def)

lemma empty_request_id_crashes:
  assumes "check_assertion lib v token b now = Inr c" "\<not> required_text rid"
  shows "check_assertion lib v token (b\<lparr>bd_request := rid\<rparr>) now = Inl Value_Error"
  using assms(1)
proof (rule checked_assertion)
  fix h p s header key signature payload
  assume "compact_parts token = Inr (h, p, s)" "decode_json_object lib h header_fields = Inr header"
    "key_of_header v now header = Inr key" "decode_bytes s = Inr signature" "li_check lib key signature (h @ [46] @ p)"
    "decode_json_object lib p claim_fields = Inr payload" "claims_from_payload payload = Some c"
  then show ?thesis using assms(2) by (simp add: check_assertion_def check_binding_def)
qed

text \<open>
  C1: a backend believes an identity only for the very request it was granted for. If the middleware
  forwards a request with an identity, then Platform granted that identity, within the last minute,
  to that destination for that method, path and request id, and with every scope the route asks;
  headers that claim an identity directly never arrive, and neither do cookies.
\<close>

theorem identity_only_from_platform:
  assumes "assertion_library lib"
    and "\<forall>token. single_header (ar_headers rq) ''x-jarvis-identity'' = Some token \<longrightarrow>
      not_forged lib v (issued_by ops cfg hist issuer) token"
    and "identity_middleware lib (Some v) (vf_audience v) rq now cache = (Forwarded st headers, cache')"
  shows "(\<exists>t aq scopes. granted ops cfg hist t aq \<and> given_by v rq st t aq now \<and>
      required_identity_scopes (vf_audience v) (asgi_method rq) (ar_path rq) = Inr (Some scopes) \<and>
      set scopes \<subseteq> set (aq_scopes aq)) \<and>
    (\<forall>h \<in> set headers. lower_header (fst h) \<notin> set forbidden_headers \<and> lower_header (fst h) \<noteq> codes ''cookie'')"
proof
  show "\<exists>t aq scopes. granted ops cfg hist t aq \<and> given_by v rq st t aq now \<and>
      required_identity_scopes (vf_audience v) (asgi_method rq) (ar_path rq) = Inr (Some scopes) \<and> set scopes \<subseteq> set (aq_scopes aq)"
    by (rule forwarded_grant [OF assms(1) assms(2) [rule_format] assms(3)]) blast+
  have "\<not> list_ex (\<lambda>(n, _). lower_header n \<in> set forbidden_headers) (ar_headers rq)"
    using assms(3) by (auto simp: identity_middleware_def rejected_def split: if_splits)
  moreover have "headers = filter (\<lambda>(n, _). lower_header n \<noteq> codes ''cookie'') (ar_headers rq)"
    by (rule forwardedD [OF assms(3)])
  ultimately show "\<forall>h \<in> set headers. lower_header (fst h) \<notin> set forbidden_headers \<and> lower_header (fst h) \<noteq> codes ''cookie''"
    by (auto simp: list_ex_iff)
qed




section \<open>Granted requests are served\<close>

lemma upper_method: "method_ok m \<Longrightarrow> ascii_upper m = m"
  unfolding ascii_upper_def by (rule map_idI) (auto simp: method_ok_def list_all_iff)

lemma required_method_ok: "required_identity_scopes audience m path = Inr r \<Longrightarrow> method_ok m"
  by (auto simp: required_identity_scopes_def res_bind_Inr_iff validate_binding_def split: if_splits)

lemma required_not_Nil: "required_identity_scopes audience m path = Inr (Some scopes) \<Longrightarrow> scopes \<noteq> []"
  by (auto simp: required_identity_scopes_def public_scope_def res_bind_Inr_iff split: if_splits option.splits list.splits)

lemma grant_served:
  assumes "assertion_library lib" "endpoint_grants ops cfg hist t aq" "issue lib sg aq tm = Inr token"
    and "request_scalar aq" "timing_ok tm" "length token \<le> max_compact_length"
    and "trusts lib v sg now" "vf_audience v = aq_audience aq" "second \<le> tm_ttl tm" "in_window v tm now"
    and "tm_token tm \<notin> fst ` set (rc_entries cache)"
    and "ar_type rq = ''http''" "ar_method rq = Some (aq_method aq)" "ar_path rq = aq_path aq"
    and "single_header (ar_headers rq) ''x-jarvis-identity'' = Some token"
    and "single_header (ar_headers rq) ''x-request-id'' = Some (aq_id aq)"
    and "\<not> list_ex (\<lambda>(n, _). lower_header n \<in> set forbidden_headers) (ar_headers rq)"
  shows "\<exists>st headers cache'. identity_middleware lib (Some v) (aq_audience aq) rq now cache = (Forwarded st headers, cache')
    \<and> bs_user st = aq_user aq \<and> bs_role st = aq_role aq \<and> bs_session st = aq_session aq \<and> bs_principal st = aq_principal aq"
proof -
  note sc = endpoint_grant_scopes [OF assms(2)]
  let ?b = "\<lparr>bd_scopes = aq_scopes aq, bd_request = aq_id aq, bd_method = aq_method aq, bd_path = aq_path aq\<rparr>"
  obtain c where c: "issue_claims (sg_issuer sg) aq tm = Inr c" "check_assertion lib v token ?b now = Inr c" "ic_token c = tm_token tm"
    by (rule assertion_library.issue_accepted [OF assms(1,3-8) refl _ order_refl assms(9,10)]) (use required_not_Nil [OF sc] in auto)
  have "tm_token tm \<notin> fst ` set (dropWhile P (rc_entries cache))" for P using assms(11) set_dropWhileD by force
  then obtain cache' where ver: "verify lib v token ?b now cache = (Inr c, cache')" using c(2,3) by (simp add: verify_def consume_def Let_def)
  have m: "asgi_method rq = aq_method aq" using upper_method [OF required_method_ok [OF sc]] assms(13) by (simp add: asgi_method_def)
  have run: "identity_middleware lib (Some v) (aq_audience aq) rq now cache =
      (Forwarded (backend_state_of c) (filter (\<lambda>(n, _). lower_header n \<noteq> codes ''cookie'') (ar_headers rq)), cache')"
    using assms(12,14-17) sc ver m by (simp add: identity_middleware_def)
  obtain scopes where "c = issued_claims (sg_issuer sg) aq tm scopes" using c(1) by (rule issue_claimsE)
  then show ?thesis using run by (simp add: backend_state_of_def issued_claims_def)
qed

text \<open>
  C17: what Platform grants is served. A request that carries the assertion minted for it, sent to the
  destination before the assertion expires and once, passes the middleware with the identity that was
  granted: no scope is missing and no binding differs, whichever endpoint granted it.
\<close>

theorem granted_request_is_served:
  assumes "assertion_library lib" "endpoint_grants ops cfg hist t aq" "issue lib sg aq tm = Inr token"
    and "request_scalar aq" "timing_ok tm" "length token \<le> max_compact_length"
    and "trusts lib v sg now" "vf_audience v = aq_audience aq" "second \<le> tm_ttl tm" "in_window v tm now"
    and "tm_token tm \<notin> fst ` set (rc_entries cache)"
    and "ar_type rq = ''http''" "ar_method rq = Some (aq_method aq)" "ar_path rq = aq_path aq"
    and "single_header (ar_headers rq) ''x-jarvis-identity'' = Some token"
    and "single_header (ar_headers rq) ''x-request-id'' = Some (aq_id aq)"
    and "\<not> list_ex (\<lambda>(n, _). lower_header n \<in> set forbidden_headers) (ar_headers rq)"
  shows "\<exists>st headers cache'. identity_middleware lib (Some v) (aq_audience aq) rq now cache = (Forwarded st headers, cache')
    \<and> bs_user st = aq_user aq \<and> bs_role st = aq_role aq \<and> bs_session st = aq_session aq \<and> bs_principal st = aq_principal aq"
  using assms by (rule grant_served)

section \<open>Platform's own commands\<close>

text \<open>A path segment that Platform inserts: a UUID, a configuration key, a provider.\<close>

definition plain_segment :: "pystr \<Rightarrow> bool" where
  "plain_segment s \<longleftrightarrow> s \<noteq> [] \<and> list_all (\<lambda>c. c \<notin> {47, 63, 35, 92}) s"

fun command_wellformed :: "platform_command \<Rightarrow> bool" where
  "command_wellformed (Erase_Owner d rid u) = plain_segment rid"
| "command_wellformed (Dispatch_Job rid audience u) = (audience \<in> set audiences)"
| "command_wellformed (Write_Config rid key u role sid) = plain_segment key"
| "command_wellformed (Deliver_Config rid key u role sid) = plain_segment key"
| "command_wellformed (Invalidate_Cache rid provider u role sid) = plain_segment provider"
| "command_wellformed (Setup_Status rid u sid) = True"

lemma plain_segment_split: "plain_segment s \<Longrightarrow> py_split 47 s = [s]"
  by (rule py_split_none) (auto simp: plain_segment_def list_all_iff)

lemma split_segment: "plain_segment s \<Longrightarrow> py_split 47 (s @ 47 # p) = s # py_split 47 p"
  by (simp add: py_split_append plain_segment_split)

lemma plain_segment_path: "plain_segment s \<Longrightarrow> list_all (\<lambda>c. c \<notin> set (codes ''?#'') \<and> c \<noteq> 92) s"
  by (auto simp: plain_segment_def list_all_iff codes_def)


lemma path_split:
  "py_split 47 (codes ''/internal/platform/config/'' @ s) = [] # codes ''internal'' # codes ''platform'' # codes ''config'' # py_split 47 s"
  "py_split 47 (codes ''/internal/platform/providers/'' @ s) = [] # codes ''internal'' # codes ''platform'' # codes ''providers'' # py_split 47 s"
  "py_split 47 (codes ''/internal/domains/erasure/'' @ s) = [] # codes ''internal'' # codes ''domains'' # codes ''erasure'' # py_split 47 s"
  by (simp_all add: codes_def)

lemma owner_route_required:
  assumes "audience \<in> set audiences" "method_ok m" "path_ok path" "m \<noteq> codes ''OPTIONS''" "path \<notin> set unprotected_paths"
    and "internal_owner_scope audience m path = Some scope"
  shows "required_identity_scopes audience m path = Inr (Some [scope])"
  using assms by (simp add: required_identity_scopes_def validate_binding_def)

lemma config_route:
  assumes "plain_segment key"
  shows "required_identity_scopes (codes ''research'') (codes ''PUT'') (codes ''/internal/platform/config/'' @ key)
    = Inr (Some [codes ''research:config:write''])"
proof (rule owner_route_required)
  show "internal_owner_scope (codes ''research'') (codes ''PUT'') (codes ''/internal/platform/config/'' @ key) = Some (codes ''research:config:write'')"
    using assms by (simp add: internal_owner_scope_def owner_bindings_def fullmatch_def path_split plain_segment_split plain_segment_def)
  show "path_ok (codes ''/internal/platform/config/'' @ key)"
    using plain_segment_path [OF assms] by (simp add: path_ok_def) (simp add: codes_def)
  show "codes ''/internal/platform/config/'' @ key \<notin> set unprotected_paths" by (simp add: unprotected_paths_def) (simp add: codes_def)
qed (simp_all add: audiences_def method_ok_def, simp_all add: codes_def)

lemma cache_route:
  assumes "plain_segment provider"
  shows "required_identity_scopes (codes ''research'') (codes ''POST'')
      (codes ''/internal/platform/providers/'' @ provider @ codes ''/cache/invalidate'') = Inr (Some [codes ''research:providers:write''])"
proof (rule owner_route_required)
  have split: "py_split 47 (provider @ codes ''/cache/invalidate'') = [provider, codes ''cache'', codes ''invalidate'']"
    using split_segment [OF assms, of "codes ''cache/invalidate''"] by (simp add: codes_def)
  show "internal_owner_scope (codes ''research'') (codes ''POST'')
      (codes ''/internal/platform/providers/'' @ provider @ codes ''/cache/invalidate'') = Some (codes ''research:providers:write'')"
    using assms by (simp add: internal_owner_scope_def owner_bindings_def fullmatch_def path_split split plain_segment_def)
  show "path_ok (codes ''/internal/platform/providers/'' @ provider @ codes ''/cache/invalidate'')"
    using plain_segment_path [OF assms] by (simp add: path_ok_def) (simp add: codes_def)
  show "codes ''/internal/platform/providers/'' @ provider @ codes ''/cache/invalidate'' \<notin> set unprotected_paths"
    by (simp add: unprotected_paths_def) (simp add: codes_def)
qed (simp_all add: audiences_def method_ok_def, simp_all add: codes_def)

lemma erasure_route:
  assumes "plain_segment rid"
  shows "required_identity_scopes (erasure_audience d) (codes ''POST'') (codes ''/internal/domains/erasure/'' @ rid @ erasure_suffix d)
    = Inr (Some [erasure_audience d @ codes '':erasure:write''])"
proof (rule owner_route_required)
  have split: "py_split 47 (rid @ codes ''/qdrant'') = [rid, codes ''qdrant'']"
    "py_split 47 (rid @ codes ''/research'') = [rid, codes ''research'']" "py_split 47 rid = [rid]"
    using split_segment [OF assms, of "codes ''qdrant''"] split_segment [OF assms, of "codes ''research''"] plain_segment_split [OF assms]
    by (simp_all add: codes_def)
  have "rid \<noteq> []" using assms by (simp add: plain_segment_def)
  then show "internal_owner_scope (erasure_audience d) (codes ''POST'') (codes ''/internal/domains/erasure/'' @ rid @ erasure_suffix d)
      = Some (erasure_audience d @ codes '':erasure:write'')"
    by (cases d) (simp_all add: internal_owner_scope_def owner_bindings_def fullmatch_def path_split split, simp_all add: codes_def)
  show "path_ok (codes ''/internal/domains/erasure/'' @ rid @ erasure_suffix d)"
    using plain_segment_path [OF assms] by (cases d) (simp_all add: path_ok_def, simp_all add: codes_def)
  show "codes ''/internal/domains/erasure/'' @ rid @ erasure_suffix d \<notin> set unprotected_paths"
    by (simp add: unprotected_paths_def) (simp add: codes_def)
  show "erasure_audience d \<in> set audiences" by (cases d) (simp_all add: audiences_def)
qed (simp_all add: method_ok_def, simp_all add: codes_def)

lemma public_routes:
  "audience \<in> set audiences \<Longrightarrow>
    required_identity_scopes audience (codes ''POST'') (codes ''/api/jobs/dispatch'') = Inr (Some [audience @ codes '':jobs:write''])"
  "required_identity_scopes (codes ''research'') (codes ''GET'') (codes ''/api/system/setup-status/research'')
    = Inr (Some [codes ''research:system:read''])"
proof -
  have "list_all (\<lambda>a. required_identity_scopes a (codes ''POST'') (codes ''/api/jobs/dispatch'') = Inr (Some [a @ codes '':jobs:write''])) audiences"
    by code_simp
  then show "audience \<in> set audiences \<Longrightarrow>
      required_identity_scopes audience (codes ''POST'') (codes ''/api/jobs/dispatch'') = Inr (Some [audience @ codes '':jobs:write''])"
    by (simp add: list_all_iff)
  show "required_identity_scopes (codes ''research'') (codes ''GET'') (codes ''/api/system/setup-status/research'')
      = Inr (Some [codes ''research:system:read''])" by code_simp
qed

text \<open>
  C29: every command that Platform signs for itself - the erasure phases, job dispatch, configuration
  writes and deliveries, cache invalidation, setup status - carries exactly the scope that the
  destination asks of its route.
\<close>

theorem own_commands_carry_their_scope:
  assumes "command_wellformed cmd"
  shows "required_identity_scopes (aq_audience (command_request cmd)) (aq_method (command_request cmd)) (aq_path (command_request cmd))
    = Inr (Some (aq_scopes (command_request cmd)))"
  using assms by (cases cmd) (simp_all add: command_request_defs erasure_route public_routes config_route cache_route)

theorem own_commands_carry_their_scope_witness:
  "required_identity_scopes (codes ''learning'') (codes ''POST'') (codes ''/internal/domains/erasure/12'')
    = Inr (Some [codes ''learning:erasure:write''])"
  using own_commands_carry_their_scope [of "Erase_Owner Learning (codes ''12'') 7"]
  by (simp add: command_request_defs plain_segment_def codes_def)

section \<open>Witnesses\<close>

context assertion_library
begin

text \<open>What the signer issues is no forgery, and it is ASCII.\<close>

lemma issued_not_forged:
  assumes "issue lib sg aq tm = Inr token" "issue_claims (sg_issuer sg) aq tm = Inr c" "request_scalar aq" "timing_ok tm"
    and "text_ok (sg_issuer sg)" "text_ok (sg_key_id sg)" "(sg_key_id sg, c) \<in> issued"
  shows "not_forged lib v issued token" "list_all (\<lambda>x. x < 128) token"
proof -
  let ?h = "encode_json lib (header_json (sg_key_id sg))" and ?p = "encode_json lib (to_payload c)"
  let ?s = "encode_bytes (li_sign lib (sg_key sg) (signed_text lib (sg_key_id sg) c))"
  have ok: "claims_ok c" by (rule issue_claims_ok [OF assms(2-5)])
  have kid: "scalar_text (sg_key_id sg)" using assms(6) by (simp add: text_ok_def)
  have token: "token = ?h @ [46] @ ?p @ [46] @ ?s"
    using assms(1,2) by (simp add: issue_def Let_def signed_text_def)
  have free: "46 \<notin> set ?h" "46 \<notin> set ?p"
    using encode_json_free [OF plain_header [OF kid]] encode_json_free [OF plain_payload [OF ok]] by simp_all
  have "h @ [46] @ p = signed_text lib (sg_key_id sg) c" if parts: "compact_parts token = Inr (h, p, s)" for h p s
  proof -
    note d = compact_partsD [OF parts]
    have 1: "h = ?h \<and> p @ [46] @ s = ?p @ [46] @ ?s" by (rule dot_unique [OF d(1) free(1)]) (use d(3) token in simp)
    have "p = ?p \<and> s = ?s" by (rule dot_unique [OF d(2) free(2) 1 [THEN conjunct2]])
    with 1 show ?thesis by (simp add: signed_text_def)
  qed
  then show "not_forged lib v issued token" using ok kid assms(7) unfolding not_forged_def by fast
  show "list_all (\<lambda>x. x < 128) token"
    using b64_char_small dumps_bytes [OF plain_header [OF kid]] dumps_bytes [OF plain_payload [OF ok]] sign_bytes
    by (simp add: token encode_json_def)
qed

end

definition gateway_ops :: "(nat, nat) net_ops" where
  "gateway_ops = \<lparr>parse_address = (\<lambda>s. if s = [] then None else Some (hd s)), parse_network = (\<lambda>s. None),
     in_network = (\<lambda>a n. a = n), show_address = (\<lambda>a. [a])\<rparr>"

definition demo_gateway :: "nat gateway_config" where
  "demo_gateway = \<lparr>gw_networks = [49], gw_api_key = [], gw_service_token = (\<lambda>pr. codes ''secret''), gw_uuid = (\<lambda>s. None)\<rparr>"

text \<open>Account 7 is paired with a chat and is disabled at second 1100.\<close>

definition demo_history :: "int \<Rightarrow> identity_db" where
  "demo_history t = \<lparr>id_platform = new_platform [\<lparr>ac_id = 7, ac_email = codes ''u7'', ac_role = User_Role,
      ac_deleted = (if t < 1100000000 then None else Some 1100)\<rparr>] (timestamp t), id_pairings = [(7, 55)]\<rparr>"

definition demo_call :: service_call where
  "demo_call = \<lparr>sv_principal = codes ''telegram'', sv_token = codes ''secret'', sv_audience = codes ''research'',
     sv_method = codes ''GET'', sv_path = codes ''/api/pulse/today'', sv_id = codes ''r1'', sv_user = 7\<rparr>"

definition demo_asgi :: asgi_request where
  "demo_asgi = \<lparr>ar_type = ''http'',
     ar_headers = [(codes ''X-Jarvis-Identity'', demo_token ''t1''), (codes ''X-Request-Id'', codes ''r1''), (codes ''Cookie'', codes ''c'')],
     ar_method = Some (codes ''GET''), ar_path = codes ''/api/pulse/today''\<rparr>"

lemma demo_granted: "authorize_downstream_request demo_gateway (demo_history 1000000000) demo_call = Inr demo_grant"
proof -
  have "service_principal_scopes (codes ''telegram'') (codes ''research'') (codes ''GET'') (codes ''/api/pulse/today'')
      = Inr (Some [codes ''research:pulse:read''])" by code_simp
  then show ?thesis
    by (simp add: authorize_downstream_request_def demo_call_def demo_gateway_def demo_history_def authenticate_service_principal_def
        principals_def service_body_ok_def audiences_def live_account_def new_platform_def service_request_def demo_grant_def
        user_subject_def int_text_def decimal.simps) (simp add: codes_def)
qed

lemma demo_grants: "endpoint_grants gateway_ops demo_gateway demo_history 1000000000 demo_grant"
  by (rule endpoint_grants.telegram) (rule demo_granted)

lemma demo_w: "''t1'' \<in> demo_ids"
  by (simp add: demo_ids_def)

lemma demo_texts: "request_scalar demo_grant" "timing_ok (demo_timing ''t1'')" "text_ok (sg_issuer demo_signer)" "text_ok (sg_key_id demo_signer)"
  by (simp_all add: demo_eval)

lemma demo_not_forged:
  "not_forged plain_library demo_verifier (issued_by gateway_ops demo_gateway demo_history (codes ''p'')) (demo_token ''t1'')"
  "list_all (\<lambda>x. x < 128) (demo_token ''t1'')"
proof -
  have "(sg_key_id demo_signer, demo_claims ''t1'') \<in> issued_by gateway_ops demo_gateway demo_history (codes ''p'')"
    using demo_issue [OF demo_w] demo_grants
    by (auto simp: issued_by_def granted_def demo_signer_def demo_timing_def intro!: exI [of _ demo_grant] exI [of _ "demo_timing ''t1''"])
  then show "not_forged plain_library demo_verifier (issued_by gateway_ops demo_gateway demo_history (codes ''p'')) (demo_token ''t1'')"
    "list_all (\<lambda>x. x < 128) (demo_token ''t1'')"
    using plain.issued_not_forged [OF demo_token [OF demo_w] demo_issue [OF demo_w] demo_texts] by blast+
qed

lemma demo_headers:
  "single_header (ar_headers demo_asgi) ''x-jarvis-identity'' = Some (demo_token ''t1'')"
  "single_header (ar_headers demo_asgi) ''x-request-id'' = Some (codes ''r1'')"
  "\<not> list_ex (\<lambda>(n, _). lower_header n \<in> set forbidden_headers) (ar_headers demo_asgi)"
  using demo_not_forged(2) by (simp_all add: demo_asgi_def single_header_def lower_header_def forbidden_headers_def codes_def)

definition demo_cache :: replay_cache where
  "demo_cache = \<lparr>rc_maximum = 10000, rc_entries = []\<rparr>"

lemma demo_serving:
  "trusts plain_library demo_verifier demo_signer 1061000000" "vf_audience demo_verifier = aq_audience demo_grant"
  "second \<le> tm_ttl (demo_timing ''t1'')" "in_window demo_verifier (demo_timing ''t1'') 1061000000"
  "tm_token (demo_timing ''t1'') \<notin> fst ` set (rc_entries demo_cache)" "ar_type demo_asgi = ''http''"
  "ar_method demo_asgi = Some (aq_method demo_grant)" "ar_path demo_asgi = aq_path demo_grant"
  "single_header (ar_headers demo_asgi) ''x-request-id'' = Some (aq_id demo_grant)"
  using demo_headers(2) by (simp_all add: demo_eval demo_cache_def demo_asgi_def)

lemmas demo_serving_facts = plain.assertion_library_axioms demo_grants demo_token [OF demo_w] demo_texts(1,2)
  demo_token_length [OF demo_w] demo_serving(1-8) demo_headers(1) demo_serving(9) demo_headers(3)

theorem granted_request_is_served_witness:
  "\<exists>st headers cache'. identity_middleware plain_library (Some demo_verifier) (codes ''research'') demo_asgi 1061000000 demo_cache
     = (Forwarded st headers, cache') \<and> bs_user st = Some 7 \<and> bs_principal st = codes ''telegram''"
  using granted_request_is_served [OF demo_serving_facts] by (auto simp: demo_grant_def)

lemma demo_forwarded:
  obtains st headers cache' where
    "identity_middleware plain_library (Some demo_verifier) (vf_audience demo_verifier) demo_asgi 1061000000 demo_cache
       = (Forwarded st headers, cache')" "bs_user st = Some 7" "bs_principal st = codes ''telegram''"
  using grant_served [OF demo_serving_facts] by (auto simp: demo_grant_def demo_verifier_def)

theorem identity_only_from_platform_witness:
  "\<exists>t aq. granted gateway_ops demo_gateway demo_history t aq \<and> aq_path aq = codes ''/api/pulse/today'' \<and> aq_id aq = codes ''r1'' \<and>
     codes ''research:pulse:read'' \<in> set (aq_scopes aq)"
proof (rule demo_forwarded)
  fix st headers cache'
  assume run: "identity_middleware plain_library (Some demo_verifier) (vf_audience demo_verifier) demo_asgi 1061000000 demo_cache
      = (Forwarded st headers, cache')"
  have nf: "\<forall>token. single_header (ar_headers demo_asgi) ''x-jarvis-identity'' = Some token \<longrightarrow>
      not_forged plain_library demo_verifier (issued_by gateway_ops demo_gateway demo_history (codes ''p'')) token"
    using demo_not_forged(1) demo_headers(1) by simp
  obtain t aq scopes where g: "granted gateway_ops demo_gateway demo_history t aq" "given_by demo_verifier demo_asgi st t aq 1061000000"
      "required_identity_scopes (vf_audience demo_verifier) (asgi_method demo_asgi) (ar_path demo_asgi) = Inr (Some scopes)"
      "set scopes \<subseteq> set (aq_scopes aq)"
    using identity_only_from_platform [OF plain.assertion_library_axioms nf run] by blast
  have "required_identity_scopes (codes ''research'') (codes ''GET'') (codes ''/api/pulse/today'') = Inr (Some [codes ''research:pulse:read''])"
    by code_simp
  moreover have "asgi_method demo_asgi = codes ''GET''" by (simp add: asgi_method_def demo_asgi_def ascii_upper_def codes_def)
  ultimately have "codes ''research:pulse:read'' \<in> set (aq_scopes aq)"
    using g(3,4) by (auto simp: demo_verifier_def demo_asgi_def)
  then show ?thesis using g(1,2) demo_headers(2) by (auto simp: given_by_def demo_asgi_def)
qed


end
