(* ===== verification/Account_Admin.thy ===== *)
theory Account_Admin
  imports Browser_Sessions Erasure_Coordinator
begin

text \<open>
  Who owns and administers the instance: the resolution of the owner (\<open>jarvis_common/owner.py\<close>) and the
  administrative routes (\<open>platform_api/routers/admin.py\<close>) on the tables of the Platform schema. A route
  that changes roles or accounts runs in one transaction under one advisory lock, so it is one step;
  one that raises changes nothing. Replies are an HTTP status or the value returned. \<open>clock\<close> is the
  clock of the process, \<open>pf_now\<close> that of the database; fresh identifiers and tokens are arguments.
\<close>

section \<open>Tables and settings\<close>

record link_token =
  lt_hash :: pystr
  lt_user :: int
  lt_expires :: int
  lt_used :: "int option"
  lt_created :: int
  lt_pending :: "pystr option"

record passkey =
  pk_id :: nat
  pk_user :: int
  pk_credential :: pystr
  pk_key :: pystr
  pk_count :: int

record challenge =
  ch_value :: pystr
  ch_user :: "int option"
  ch_register :: bool
  ch_expires :: int

text \<open>The JSON value of the configuration row \<open>owner.user_id\<close>; \<open>V_Other\<close> is a Boolean, a float or a container.\<close>

datatype owner_value = V_Null | V_Int int | V_Text pystr | V_Other

record access_db =
  xs_platform :: platform_db
  xs_tokens :: "link_token list"
  xs_passkeys :: "passkey list"
  xs_challenges :: "challenge list"
  xs_owner :: "owner_value option"
  xs_key_login :: bool
  xs_names :: "int \<Rightarrow> pystr option"
  xs_logins :: "int \<Rightarrow> int option"

text \<open>Settings, the digest of tokens and the case table of Unicode.\<close>

record access_env =
  en_owner :: "pystr option"
  en_hmac_key :: "pystr option"
  en_api_key :: pystr
  en_key_login :: bool
  en_setup_token :: "pystr option"
  en_production :: bool
  en_hash :: "pystr \<Rightarrow> pystr"
  en_lower :: "pystr \<Rightarrow> pystr"

definition account_at :: "access_db \<Rightarrow> int \<Rightarrow> account option" where
  "account_at s u = user_row (xs_platform s) u"

definition live_at :: "access_db \<Rightarrow> int \<Rightarrow> account option" where
  "live_at s u = Option.bind (account_at s u) (\<lambda>a. if ac_deleted a = None then Some a else None)"

definition admin_row :: "account \<Rightarrow> bool" where
  "admin_row a \<longleftrightarrow> ac_role a = Admin_Role \<and> ac_deleted a = None"

definition admin_count :: "access_db \<Rightarrow> nat" where
  "admin_count s = length (filter admin_row (pf_users (xs_platform s)))"

definition on_platform :: "(platform_db \<Rightarrow> platform_db) \<Rightarrow> access_db \<Rightarrow> access_db" where
  "on_platform f s = s\<lparr>xs_platform := f (xs_platform s)\<rparr>"

definition audit :: "string \<Rightarrow> int \<Rightarrow> int option \<Rightarrow> platform_db \<Rightarrow> platform_db" where
  "audit action u caller p = p\<lparr>pf_audit := pf_audit p @ [(action, u, caller)]\<rparr>"

definition revoke_sessions :: "(session \<Rightarrow> bool) \<Rightarrow> platform_db \<Rightarrow> platform_db" where
  "revoke_sessions P p =
     p\<lparr>pf_sessions := map (\<lambda>x. if P x \<and> se_revoked x = None then x\<lparr>se_revoked := Some (pf_now p)\<rparr> else x) (pf_sessions p)\<rparr>"

text \<open>Identifiers are \<open>bigint\<close>; a larger argument is an error of the database driver.\<close>

definition bigint :: "int \<Rightarrow> bool" where
  "bigint u \<longleftrightarrow> - (2 ^ 63) \<le> u \<and> u < 2 ^ 63"

section \<open>The owner\<close>

datatype owner_source = From_Environment | From_Database | From_Nowhere

datatype owner_state = Owner_Valid | Owner_Missing | Owner_Invalid_Value | Owner_Missing_User | Owner_Non_Admin

record owner_identity =
  oi_source :: owner_source
  oi_state :: owner_state
  oi_user :: "int option"

definition owner_is_valid :: "owner_identity \<Rightarrow> bool" where
  "owner_is_valid ow \<longleftrightarrow> oi_state ow = Owner_Valid \<and> oi_user ow \<noteq> None"

definition digit :: "nat \<Rightarrow> bool" where
  "digit c \<longleftrightarrow> 48 \<le> c \<and> c \<le> 57"

definition positive_integer :: "pystr \<Rightarrow> bool" where
  "positive_integer t \<longleftrightarrow> (case t of [] \<Rightarrow> False | c # cs \<Rightarrow> digit c \<and> c \<noteq> 48 \<and> list_all digit cs)"

definition digits_value :: "pystr \<Rightarrow> int" where
  "digits_value t = foldl (\<lambda>n c. 10 * n + int (c - 48)) 0 t"

fun parse_owner_id :: "owner_value \<Rightarrow> int option" where
  "parse_owner_id (V_Int i) = (if i > 0 then Some i else None)"
| "parse_owner_id (V_Text raw) =
     (let text = py_strip raw in if positive_integer text then Some (digits_value text) else None)"
| "parse_owner_id _ = None"

definition normalise_owner_user_id :: "pystr option \<Rightarrow> pystr option" where
  "normalise_owner_user_id v =
     (case v of None \<Rightarrow> None | Some t \<Rightarrow> if py_strip t = [] then None else Some (py_strip t))"

text \<open>\<open>None\<close>: the driver raises.\<close>

definition check_owner :: "owner_source \<Rightarrow> owner_value \<Rightarrow> access_db \<Rightarrow> owner_identity option" where
  "check_owner source raw s =
     (case parse_owner_id raw of
        None \<Rightarrow> Some \<lparr>oi_source = source, oi_state = Owner_Invalid_Value, oi_user = None\<rparr>
      | Some u \<Rightarrow>
          if \<not> bigint u then None
          else Some \<lparr>oi_source = source,
             oi_state = (case account_at s u of
                None \<Rightarrow> Owner_Missing_User
              | Some a \<Rightarrow> if ac_deleted a \<noteq> None then Owner_Missing_User
                          else if ac_role a \<noteq> Admin_Role then Owner_Non_Admin else Owner_Valid),
             oi_user = Some u\<rparr>)"

definition resolve_owner_identity :: "access_env \<Rightarrow> access_db \<Rightarrow> owner_identity option" where
  "resolve_owner_identity env s =
     (case normalise_owner_user_id (en_owner env) of
        Some raw \<Rightarrow> check_owner From_Environment (V_Text raw) s
      | None \<Rightarrow>
          (case xs_owner s of
             None \<Rightarrow> Some \<lparr>oi_source = From_Nowhere, oi_state = Owner_Missing, oi_user = None\<rparr>
           | Some V_Null \<Rightarrow> Some \<lparr>oi_source = From_Nowhere, oi_state = Owner_Missing, oi_user = None\<rparr>
           | Some raw \<Rightarrow> check_owner From_Database raw s))"

definition owner_change_blocked :: "owner_identity \<Rightarrow> int \<Rightarrow> bool" where
  "owner_change_blocked ow u \<longleftrightarrow> owner_is_valid ow \<and> oi_user ow = Some u"

definition owner_repair_blocked :: "owner_identity \<Rightarrow> int \<Rightarrow> bool" where
  "owner_repair_blocked ow u \<longleftrightarrow> oi_source ow \<noteq> From_Nowhere \<and> \<not> owner_is_valid ow \<and> oi_user ow = Some u"

section \<open>The administrative routes\<close>

record user_record =
  ur_account :: account
  ur_is_owner :: bool
  ur_owner :: owner_identity

definition row_to_user :: "owner_identity \<Rightarrow> account \<Rightarrow> user_record" where
  "row_to_user ow a = \<lparr>ur_account = a, ur_is_owner = (owner_is_valid ow \<and> oi_user ow = Some (ac_id a)), ur_owner = ow\<rparr>"

definition require_admin :: "login \<Rightarrow> bool" where
  "require_admin lg \<longleftrightarrow> lg_role lg = Some Admin_Role"

definition require_model_hmac_key :: "access_env \<Rightarrow> bool" where
  "require_model_hmac_key env \<longleftrightarrow> (case en_hmac_key env of None \<Rightarrow> False | Some k \<Rightarrow> 32 \<le> length k)"

text \<open>Rows are kept in the order of their creation.\<close>

definition list_users :: "access_env \<Rightarrow> login \<Rightarrow> bool \<Rightarrow> access_db \<Rightarrow> nat + user_record list" where
  "list_users env lg include_deleted s =
     (if \<not> require_admin lg then Inl 403
      else case resolve_owner_identity env s of
        None \<Rightarrow> Inl 500
      | Some ow \<Rightarrow> Inr (map (row_to_user ow) (filter (\<lambda>a. case ac_deleted a of
            None \<Rightarrow> True | Some d \<Rightarrow> include_deleted \<and> d \<ge> pf_now (xs_platform s) - grace) (pf_users (xs_platform s)))))"

definition transfer_owner ::
  "access_env \<Rightarrow> login \<Rightarrow> int \<Rightarrow> pystr \<Rightarrow> access_db \<Rightarrow> (nat + owner_identity) \<times> access_db" where
  "transfer_owner env lg target confirmation s =
     (if \<not> require_admin lg then (Inl 403, s)
      else if target \<le> 0 then (Inl 422, s)
      else case (lg_user lg, resolve_owner_identity env s) of
        (None, _) \<Rightarrow> (Inl 403, s)
      | (_, None) \<Rightarrow> (Inl 500, s)
      | (Some caller, Some current) \<Rightarrow>
          if oi_source current = From_Environment then (Inl 409, s)
          else if \<not> owner_is_valid current then (Inl 409, s)
          else if oi_user current \<noteq> Some caller then (Inl 403, s)
          else if target = caller then (Inl 400, s)
          else if \<not> bigint target then (Inl 500, s)
          else (case account_at s target of
            None \<Rightarrow> (Inl 404, s)
          | Some a \<Rightarrow>
              if ac_deleted a \<noteq> None then (Inl 404, s)
              else if ac_role a \<noteq> Admin_Role then (Inl 400, s)
              else if confirmation \<noteq> ac_email a then (Inl 400, s)
              else if xs_owner s = None then (Inl 409, s)
              else (Inr \<lparr>oi_source = From_Database, oi_state = Owner_Valid, oi_user = Some target\<rparr>,
                    on_platform (audit ''admin.owner.transfer'' target (Some caller)) (s\<lparr>xs_owner := Some (V_Int target)\<rparr>))))"

text \<open>The insertion into \<open>users\<close>: e-mail addresses are unique among all rows, disabled ones included.\<close>

definition insert_user :: "int \<Rightarrow> pystr \<Rightarrow> account_role \<Rightarrow> access_db \<Rightarrow> access_db option" where
  "insert_user u email role s =
     (if list_ex (\<lambda>a. ac_id a = u \<or> ac_email a = email) (pf_users (xs_platform s)) then None
      else Some (on_platform (\<lambda>p. p\<lparr>pf_users := pf_users p @
             [\<lparr>ac_id = u, ac_email = email, ac_role = role, ac_deleted = None\<rparr>]\<rparr>) s))"

definition insert_token ::
  "pystr \<Rightarrow> int \<Rightarrow> int \<Rightarrow> pystr option \<Rightarrow> access_db \<Rightarrow> access_db option" where
  "insert_token hash u expires pending s =
     (if list_ex (\<lambda>t. lt_hash t = hash) (xs_tokens s) \<or> account_at s u = None then None
      else Some (s\<lparr>xs_tokens := xs_tokens s @ [\<lparr>lt_hash = hash, lt_user = u, lt_expires = expires, lt_used = None,
             lt_created = pf_now (xs_platform s), lt_pending = pending\<rparr>]\<rparr>))"

definition invite_token_ttl :: int where
  "invite_token_ttl = 24 * 3600"

definition invite_user ::
  "access_env \<Rightarrow> login \<Rightarrow> int \<Rightarrow> pystr \<Rightarrow> account_role \<Rightarrow> int \<Rightarrow> pystr \<Rightarrow> bool \<Rightarrow> access_db
    \<Rightarrow> (nat + (account \<times> pystr option)) \<times> access_db" where
  "invite_user env lg clock email role fresh raw delivered s =
     (let email_norm = py_strip (en_lower env email)
      in if \<not> require_admin lg then (Inl 403, s)
         else if list_ex (\<lambda>a. ac_email a = email_norm \<and> ac_deleted a = None) (pf_users (xs_platform s)) then (Inl 409, s)
         else if \<not> require_model_hmac_key env then (Inl 409, s)
         else case insert_user fresh email_norm role s of
           None \<Rightarrow> (Inl 409, s)
         | Some s1 \<Rightarrow>
             (case insert_token (en_hash env raw) fresh (clock + invite_token_ttl) None s1 of
                None \<Rightarrow> (Inl 500, s)
              | Some s2 \<Rightarrow> (Inr (\<lparr>ac_id = fresh, ac_email = email_norm, ac_role = role, ac_deleted = None\<rparr>,
                                 if delivered then None else Some raw), s2)))"

definition update_role :: "int \<Rightarrow> account_role \<Rightarrow> platform_db \<Rightarrow> platform_db" where
  "update_role u role p =
     p\<lparr>pf_users := map (\<lambda>a. if ac_id a = u \<and> ac_deleted a = None then a\<lparr>ac_role := role\<rparr> else a) (pf_users p)\<rparr>"

definition update_user_role ::
  "access_env \<Rightarrow> login \<Rightarrow> int \<Rightarrow> account_role \<Rightarrow> access_db \<Rightarrow> (nat + user_record) \<times> access_db" where
  "update_user_role env lg u role s =
     (if \<not> require_admin lg then (Inl 403, s)
      else if \<not> bigint u then (Inl 500, s)
      else case live_at s u of
        None \<Rightarrow> (Inl 404, s)
      | Some a \<Rightarrow>
          (case resolve_owner_identity env s of
             None \<Rightarrow> (Inl 500, s)
           | Some ow \<Rightarrow>
               if ac_role a = Admin_Role \<and> role \<noteq> Admin_Role \<and> owner_change_blocked ow u then (Inl 409, s)
               else if ac_role a \<noteq> Admin_Role \<and> role = Admin_Role \<and> owner_repair_blocked ow u then (Inl 409, s)
               else if ac_role a = Admin_Role \<and> role \<noteq> Admin_Role \<and> admin_count s \<le> 1 then (Inl 400, s)
               else (Inr (row_to_user ow (a\<lparr>ac_role := role\<rparr>)),
                     on_platform (audit ''admin.user.role_change'' u (lg_user lg) \<circ> update_role u role) s)))"

definition soft_delete_user ::
  "access_env \<Rightarrow> login \<Rightarrow> int \<Rightarrow> nat \<Rightarrow> access_db \<Rightarrow> (nat + nat) \<times> access_db" where
  "soft_delete_user env lg u fresh s =
     (if \<not> require_admin lg then (Inl 403, s)
      else if lg_user lg = Some u then (Inl 400, s)
      else if \<not> bigint u then (Inl 500, s)
      else case live_at s u of
        None \<Rightarrow> (Inl 404, s)
      | Some a \<Rightarrow>
          (case resolve_owner_identity env s of
             None \<Rightarrow> (Inl 500, s)
           | Some ow \<Rightarrow>
               if owner_change_blocked ow u then (Inl 409, s)
               else if ac_role a = Admin_Role \<and> admin_count s \<le> 1 then (Inl 400, s)
               else (case res_bind (set_account_deleted_v1 Platform_Runtime u (xs_platform s)) (Inr \<circ> snd) of
                 Inl e \<Rightarrow> (Inl 500, s)
               | Inr p1 \<Rightarrow>
                   (case create_or_get_request u fresh (revoke_sessions (\<lambda>x. se_user x = u) p1) of
                      Inl e \<Rightarrow> (Inl 500, s)
                    | Inr (i, p2) \<Rightarrow>
                        (Inr i, s\<lparr>xs_platform := audit ''admin.user.soft_delete'' u (lg_user lg) p2\<rparr>)))))"

definition restore_user ::
  "access_env \<Rightarrow> login \<Rightarrow> int \<Rightarrow> access_db \<Rightarrow> (nat + user_record) \<times> access_db" where
  "restore_user env lg u s =
     (if \<not> require_admin lg then (Inl 403, s)
      else if \<not> require_model_hmac_key env then (Inl 409, s)
      else if \<not> bigint u then (Inl 500, s)
      else case account_at s u of
        None \<Rightarrow> (Inl 404, s)
      | Some a \<Rightarrow>
          if (case ac_deleted a of None \<Rightarrow> True | Some d \<Rightarrow> d < pf_now (xs_platform s) - grace) then (Inl 404, s)
          else (case resolve_owner_identity env s of
            None \<Rightarrow> (Inl 500, s)
          | Some ow \<Rightarrow>
              if ac_role a = Admin_Role \<and> owner_repair_blocked ow u then (Inl 409, s)
              else (case restore_account_v1 Platform_Runtime u (xs_platform s) of
                Inl Already_Started \<Rightarrow> (Inl 409, s)
              | Inl e \<Rightarrow> (Inl 500, s)
              | Inr (None, p) \<Rightarrow> (Inl 409, s)
              | Inr (Some row, p) \<Rightarrow> (Inr (row_to_user ow row), s\<lparr>xs_platform := p\<rparr>))))"

text \<open>The checks of \<open>send_sign_in_link\<close>; the token is inserted in a transaction of its own.\<close>

definition send_link_check :: "access_env \<Rightarrow> login \<Rightarrow> int \<Rightarrow> access_db \<Rightarrow> nat + account" where
  "send_link_check env lg u s =
     (if \<not> require_admin lg then Inl 403
      else if \<not> bigint u then Inl 500
      else case resolve_owner_identity env s of
        None \<Rightarrow> Inl 500
      | Some ow \<Rightarrow>
          (case live_at s u of
             None \<Rightarrow> Inl 404
           | Some a \<Rightarrow> if owner_change_blocked ow u \<and> lg_user lg \<noteq> oi_user ow then Inl 409 else Inr a))"

definition magic_link_ttl :: int where
  "magic_link_ttl = 15 * 60"

text \<open>\<open>between\<close> is what others commit between the two.\<close>

definition send_sign_in_link ::
  "access_env \<Rightarrow> login \<Rightarrow> int \<Rightarrow> int \<Rightarrow> pystr \<Rightarrow> bool \<Rightarrow> (access_db \<Rightarrow> access_db) \<Rightarrow> access_db
    \<Rightarrow> (nat + (bool \<times> pystr option)) \<times> access_db" where
  "send_sign_in_link env lg clock u raw delivered between s =
     (case send_link_check env lg u s of
        Inl e \<Rightarrow> (Inl e, s)
      | Inr a \<Rightarrow>
          let s1 = between s
          in case insert_token (en_hash env raw) u (clock + magic_link_ttl) None s1 of
               None \<Rightarrow> (Inl 500, s1)
             | Some s2 \<Rightarrow> (Inr (delivered, if delivered then None else Some raw), s2))"

definition get_user_passkey_count :: "login \<Rightarrow> int \<Rightarrow> access_db \<Rightarrow> nat + nat" where
  "get_user_passkey_count lg u s =
     (if \<not> require_admin lg then Inl 403
      else if \<not> bigint u then Inl 500
      else Inr (length (filter (\<lambda>k. pk_user k = u) (xs_passkeys s))))"

text \<open>Deleting a passkey clears the reference of its sessions (\<open>ON DELETE SET NULL\<close>).\<close>

definition delete_passkeys :: "(passkey \<Rightarrow> bool) \<Rightarrow> access_db \<Rightarrow> access_db" where
  "delete_passkeys P s =
     (let gone = pk_id ` set (filter P (xs_passkeys s))
      in on_platform (\<lambda>p. p\<lparr>pf_sessions := map (\<lambda>x. case se_credential x of
              None \<Rightarrow> x | Some c \<Rightarrow> if c \<in> gone then x\<lparr>se_credential := None\<rparr> else x) (pf_sessions p)\<rparr>)
           (s\<lparr>xs_passkeys := filter (\<lambda>k. \<not> P k) (xs_passkeys s)\<rparr>))"

definition minted_by :: "nat list \<Rightarrow> session \<Rightarrow> bool" where
  "minted_by ids x \<longleftrightarrow> (case se_credential x of None \<Rightarrow> False | Some c \<Rightarrow> c \<in> set ids)"

definition revoke_user_passkeys ::
  "login \<Rightarrow> int \<Rightarrow> access_db \<Rightarrow> (nat + (nat \<times> nat)) \<times> access_db" where
  "revoke_user_passkeys lg u s =
     (if \<not> require_admin lg then (Inl 403, s)
      else if \<not> bigint u then (Inl 500, s)
      else
        let ids = map pk_id (filter (\<lambda>k. pk_user k = u) (xs_passkeys s));
            hit = filter (\<lambda>x. minted_by ids x \<and> se_revoked x = None) (pf_sessions (xs_platform s))
        in if ids = [] then (Inr (0, 0), s)
           else (Inr (length ids, length hit),
                 delete_passkeys (\<lambda>k. pk_user k = u) (on_platform (revoke_sessions (minted_by ids)) s)))"

end
