(* ===== verification/Sign_In.thy ===== *)
theory Sign_In
  imports Account_Admin Http_Limiter
begin

text \<open>
  Ways into an account and what its holder may change: sign-in links, the exchange of the operations
  key for a session, logout (\<open>platform_api/routers/auth.py\<close>), the first administrator
  (\<open>routers/setup.py\<close>), the own profile (\<open>routers/account.py\<close>) and the retention of sign-in data. The
  request limits per minute in front of these routes only add refusals and are left out.
\<close>

section \<open>The transport\<close>

record ('ip, 'net) transport =
  tr_ops :: "('ip, 'net) net_ops"
  tr_proxies :: "pystr list"
  tr_locals :: "pystr list"
  tr_scope :: asgi_scope
  tr_client :: "pystr option"
  tr_scheme :: pystr

definition ip_in_cidrs :: "('ip, 'net) net_ops \<Rightarrow> pystr option \<Rightarrow> pystr list \<Rightarrow> bool" where
  "ip_in_cidrs ops v cidrs =
     (case v of
        None \<Rightarrow> False
      | Some t \<Rightarrow>
          if t = [] then False
          else (case parse_address ops t of
            None \<Rightarrow> False
          | Some a \<Rightarrow> list_ex (\<lambda>c. c \<noteq> codes ''*'' \<and> (case parse_network ops c of None \<Rightarrow> False | Some n \<Rightarrow> in_network ops a n)) cidrs))"

definition raw_peer_host :: "('ip, 'net) transport \<Rightarrow> pystr option" where
  "raw_peer_host tr =
     (case tr_scope tr of
        Scope (Some (Peer_seq (Some h # _))) \<Rightarrow> Some h
      | Scope (Some _) \<Rightarrow> None
      | _ \<Rightarrow> tr_client tr)"

definition require_local_or_https :: "('ip, 'net) transport \<Rightarrow> bool" where
  "require_local_or_https tr \<longleftrightarrow>
     (let inside = ip_in_cidrs (tr_ops tr); peer = raw_peer_host tr; scheme = map (\<lambda>c. if 65 \<le> c \<and> c \<le> 90 then c + 32 else c) (tr_scheme tr)
      in inside peer [codes ''127.0.0.0/8'', codes ''::1/128''] \<or>
         inside peer (tr_proxies tr) \<and>
           (scheme = codes ''https'' \<or> scheme = codes ''http'' \<and> inside (tr_client tr) (tr_locals tr)))"

section \<open>Sign-in links\<close>

definition magic_link_cooldown :: int where
  "magic_link_cooldown = 2 * 60"

definition magic_link_on_cooldown :: "int \<Rightarrow> int \<Rightarrow> bool \<Rightarrow> access_db \<Rightarrow> bool" where
  "magic_link_on_cooldown clock u email_change s =
     (case py_sort_desc lt_created (filter (\<lambda>t. lt_user t = u \<and> (lt_pending t \<noteq> None) = email_change) (xs_tokens s)) of
        [] \<Rightarrow> False
      | t # _ \<Rightarrow> clock - lt_created t < magic_link_cooldown)"

text \<open>Always the same answer; the link is mailed later. \<open>between\<close> is what others commit between the two queries.\<close>

definition request_link ::
  "access_env \<Rightarrow> ('ip, 'net) transport \<Rightarrow> int \<Rightarrow> pystr \<Rightarrow> pystr \<Rightarrow> (access_db \<Rightarrow> access_db) \<Rightarrow> access_db
    \<Rightarrow> (nat + bool) \<times> access_db" where
  "request_link env tr clock email raw between s =
     (if \<not> require_local_or_https tr then (Inl 403, s)
      else case find (\<lambda>a. ac_email a = py_strip (en_lower env email) \<and> ac_deleted a = None) (pf_users (xs_platform s)) of
        None \<Rightarrow> (Inr True, between s)
      | Some a \<Rightarrow>
          (let s1 = between s
           in if magic_link_on_cooldown clock (ac_id a) False s1 then (Inr True, s1)
              else case insert_token (en_hash env raw) (ac_id a) (clock + magic_link_ttl) None s1 of
                None \<Rightarrow> (Inl 500, s1)
              | Some s2 \<Rightarrow> (Inr True, s2)))"

text \<open>\<open>mint_session\<close>: the foreign keys hold; \<open>None\<close> is an exception, which ends the transaction.\<close>

definition mint_session :: "int \<Rightarrow> int \<Rightarrow> nat option \<Rightarrow> nat \<Rightarrow> access_db \<Rightarrow> access_db option" where
  "mint_session clock u credential fresh s =
     (if (case credential of None \<Rightarrow> False | Some c \<Rightarrow> c \<notin> pk_id ` set (xs_passkeys s)) then None
      else case mint_session_v1 Platform_Runtime u (clock + session_ttl) credential fresh (xs_platform s) of
        Inl e \<Rightarrow> None
      | Inr (i, p) \<Rightarrow> Some (s\<lparr>xs_platform := p\<rparr>))"

definition token_row :: "access_db \<Rightarrow> pystr \<Rightarrow> link_token option" where
  "token_row s h = find (\<lambda>t. lt_hash t = h) (xs_tokens s)"

definition use_token :: "pystr \<Rightarrow> access_db \<Rightarrow> access_db" where
  "use_token h s = s\<lparr>xs_tokens := map (\<lambda>t. if lt_hash t = h then t\<lparr>lt_used := Some (pf_now (xs_platform s))\<rparr> else t) (xs_tokens s)\<rparr>"

text \<open>The answer of a sign-in: the session and the account.\<close>

type_synonym signed_in = "nat \<times> int \<times> pystr \<times> account_role"

definition verify_link ::
  "access_env \<Rightarrow> ('ip, 'net) transport \<Rightarrow> int \<Rightarrow> pystr \<Rightarrow> nat \<Rightarrow> access_db \<Rightarrow> (nat + signed_in) \<times> access_db" where
  "verify_link env tr clock token fresh s =
     (if length token < 16 \<or> 128 < length token then (Inl 422, s)
      else if \<not> require_local_or_https tr then (Inl 403, s)
      else case token_row s (en_hash env token) of
        None \<Rightarrow> (Inl 400, s)
      | Some t \<Rightarrow>
          if lt_used t \<noteq> None then (Inl 400, s)
          else if lt_expires t \<le> clock then (Inl 400, s)
          else if lt_pending t \<noteq> None then (Inl 400, s)
          else (case live_at s (lt_user t) of
            None \<Rightarrow> (Inl 400, s)
          | Some a \<Rightarrow>
              (let s1 = use_token (en_hash env token) s;
                   s2 = s1\<lparr>xs_logins := (xs_logins s1)(lt_user t \<mapsto> pf_now (xs_platform s1))\<rparr>
               in case mint_session clock (lt_user t) None fresh s2 of
                    None \<Rightarrow> (Inl 500, s)
                  | Some s3 \<Rightarrow> (Inr (fresh, lt_user t, ac_email a, ac_role a), s3))))"

section \<open>The operations key, the first administrator, logout\<close>

definition submitted_api_key :: "pystr option \<Rightarrow> pystr option \<Rightarrow> pystr" where
  "submitted_api_key body header =
     (case body of
        Some k \<Rightarrow> if k \<noteq> [] then k else (case header of None \<Rightarrow> [] | Some h \<Rightarrow> h)
      | None \<Rightarrow> (case header of None \<Rightarrow> [] | Some h \<Rightarrow> h))"

definition api_key_login_enabled :: "access_env \<Rightarrow> access_db \<Rightarrow> bool" where
  "api_key_login_enabled env s \<longleftrightarrow> en_key_login env \<or> xs_key_login s"

definition live_accounts :: "access_db \<Rightarrow> account list" where
  "live_accounts s = filter (\<lambda>a. ac_deleted a = None) (pf_users (xs_platform s))"

text \<open>\<open>ORDER BY id ASC LIMIT 1\<close> among the live administrators.\<close>

definition first_admin :: "access_db \<Rightarrow> account option" where
  "first_admin s = (case sort_key ac_id (filter admin_row (pf_users (xs_platform s))) of [] \<Rightarrow> None | a # _ \<Rightarrow> Some a)"

definition api_key_session ::
  "access_env \<Rightarrow> ('ip, 'net) transport \<Rightarrow> int \<Rightarrow> pystr option \<Rightarrow> pystr option \<Rightarrow> nat \<Rightarrow> access_db
    \<Rightarrow> (nat + signed_in) \<times> access_db" where
  "api_key_session env tr clock body header fresh s =
     (if \<not> require_local_or_https tr then (Inl 403, s)
      else if en_api_key env = [] \<or> \<not> api_key_matches (Some (submitted_api_key body header)) (en_api_key env) then (Inl 403, s)
      else case resolve_owner_identity env s of
        None \<Rightarrow> (Inl 500, s)
      | Some ow \<Rightarrow>
          if oi_source ow \<noteq> From_Nowhere \<and> \<not> owner_is_valid ow then (Inl 409, s)
          else
            let multi_user = (length (live_accounts s) \<noteq> 1)
            in if multi_user \<and> \<not> api_key_login_enabled env s \<and> \<not> owner_is_valid ow then (Inl 403, s)
               else if multi_user \<and> api_key_login_enabled env s \<and> \<not> owner_is_valid ow then (Inl 409, s)
               else (case (if owner_is_valid ow
                           then (case oi_user ow of None \<Rightarrow> None
                                 | Some u \<Rightarrow> Option.bind (live_at s u) (\<lambda>a. if ac_role a = Admin_Role then Some a else None))
                           else first_admin s) of
                 None \<Rightarrow> (Inl 409, s)
               | Some a \<Rightarrow>
                   (case mint_session clock (ac_id a) None fresh s of
                      None \<Rightarrow> (Inl 500, s)
                    | Some s1 \<Rightarrow> (Inr (fresh, ac_id a, ac_email a, ac_role a), s1))))"

definition setup_token_ok :: "access_env \<Rightarrow> pystr option \<Rightarrow> bool" where
  "setup_token_ok env provided \<longleftrightarrow>
     (case en_setup_token env of
        None \<Rightarrow> \<not> en_production env
      | Some t \<Rightarrow> (case provided of None \<Rightarrow> [] | Some h \<Rightarrow> h) = t)"

definition create_first_admin ::
  "access_env \<Rightarrow> ('ip, 'net) transport \<Rightarrow> int \<Rightarrow> pystr \<Rightarrow> pystr option \<Rightarrow> int \<Rightarrow> nat \<Rightarrow> access_db
    \<Rightarrow> (nat + signed_in) \<times> access_db" where
  "create_first_admin env tr clock email provided u fresh s =
     (let email_norm = py_strip (en_lower env email)
      in if \<not> require_local_or_https tr then (Inl 403, s)
         else if admin_count s > 0 then (Inl 409, s)
         else if \<not> setup_token_ok env provided then (Inl 403, s)
         else if list_ex (\<lambda>a. ac_email a = email_norm) (pf_users (xs_platform s)) then (Inl 409, s)
         else case insert_user u email_norm Admin_Role s of
           None \<Rightarrow> (Inl 500, s)
         | Some s1 \<Rightarrow>
             (let s2 = on_platform (audit ''admin.owner.bootstrap'' u None)
                         (s1\<lparr>xs_owner := Some (V_Int u), xs_logins := (xs_logins s1)(u \<mapsto> pf_now (xs_platform s1))\<rparr>)
              in case mint_session clock u None fresh s2 of
                   None \<Rightarrow> (Inl 500, s)
                 | Some s3 \<Rightarrow> (Inr (fresh, u, email_norm, Admin_Role), s3)))"

definition logout :: "(pystr \<Rightarrow> nat option) \<Rightarrow> pystr option \<Rightarrow> access_db \<Rightarrow> access_db" where
  "logout uuid cookie s =
     (case cookie of
        None \<Rightarrow> s
      | Some c \<Rightarrow>
          if c = [] then s
          else (case uuid c of None \<Rightarrow> s | Some i \<Rightarrow> on_platform (revoke_sessions (\<lambda>x. se_id x = i)) s))"

section \<open>The own profile\<close>

definition get_account :: "login \<Rightarrow> access_db \<Rightarrow> nat + account" where
  "get_account lg s =
     (case lg_user lg of
        None \<Rightarrow> Inl 401
      | Some u \<Rightarrow> (case live_at s u of None \<Rightarrow> Inl 401 | Some a \<Rightarrow> Inr a))"

datatype email_stage = Nothing_Staged | Email_Conflict | Staged

definition stage_email_change ::
  "access_env \<Rightarrow> int \<Rightarrow> pystr \<Rightarrow> pystr \<Rightarrow> int \<Rightarrow> pystr \<Rightarrow> access_db \<Rightarrow> (nat + email_stage) \<times> access_db" where
  "stage_email_change env clock current requested u raw s =
     (let new_email = py_strip (en_lower env requested)
      in if new_email = en_lower env current then (Inr Nothing_Staged, s)
         else if list_ex (\<lambda>a. ac_email a = new_email \<and> ac_deleted a = None) (pf_users (xs_platform s)) then (Inr Email_Conflict, s)
         else if magic_link_on_cooldown clock u True s then (Inr Nothing_Staged, s)
         else case insert_token (en_hash env raw) u (clock + magic_link_ttl) (Some new_email) s of
           None \<Rightarrow> (Inl 500, s)
         | Some s1 \<Rightarrow> (Inr Staged, s1))"

definition set_display_name :: "int \<Rightarrow> pystr option \<Rightarrow> access_db \<Rightarrow> access_db" where
  "set_display_name u name s =
     (if live_at s u = None then s else s\<lparr>xs_names := (xs_names s)(u := name)\<rparr>)"

text \<open>The answer: the account, its name and whether the confirmation was delivered. Every statement commits on its own.\<close>

definition update_account ::
  "access_env \<Rightarrow> login \<Rightarrow> int \<Rightarrow> pystr option \<Rightarrow> pystr option \<Rightarrow> pystr \<Rightarrow> bool \<Rightarrow> access_db
    \<Rightarrow> (nat + (account \<times> pystr option \<times> bool)) \<times> access_db" where
  "update_account env lg clock display_name email raw delivered s =
     (case lg_user lg of
        None \<Rightarrow> (Inl 401, s)
      | Some u \<Rightarrow>
          (case live_at s u of
             None \<Rightarrow> (Inl 401, s)
           | Some a \<Rightarrow>
               let s1 = (case display_name of
                   None \<Rightarrow> s
                 | Some n \<Rightarrow> set_display_name u (if py_strip n = [] then None else Some (py_strip n)) s)
               in (case (case email of None \<Rightarrow> (Inr Nothing_Staged, s1)
                         | Some e \<Rightarrow> stage_email_change env clock (ac_email a) e u raw s1) of
                     (Inl e, s2) \<Rightarrow> (Inl e, s2)
                   | (Inr Email_Conflict, s2) \<Rightarrow> (Inl 409, s2)
                   | (Inr st, s2) \<Rightarrow> (Inr (a, xs_names s2 u, st = Staged \<and> delivered), s2))))"

definition update_email :: "int \<Rightarrow> pystr \<Rightarrow> platform_db \<Rightarrow> platform_db" where
  "update_email u email p =
     p\<lparr>pf_users := map (\<lambda>a. if ac_id a = u \<and> ac_deleted a = None then a\<lparr>ac_email := email\<rparr> else a) (pf_users p)\<rparr>"

definition confirm_email_change ::
  "access_env \<Rightarrow> login \<Rightarrow> int \<Rightarrow> pystr \<Rightarrow> access_db \<Rightarrow> (nat + account) \<times> access_db" where
  "confirm_email_change env lg clock token s =
     (if length token < 16 \<or> 128 < length token then (Inl 422, s)
      else case lg_user lg of
        None \<Rightarrow> (Inl 401, s)
      | Some u \<Rightarrow>
          (case token_row s (en_hash env token) of
             None \<Rightarrow> (Inl 400, s)
           | Some t \<Rightarrow>
               if lt_used t \<noteq> None \<or> lt_expires t \<le> clock \<or> lt_user t \<noteq> u then (Inl 400, s)
               else (case lt_pending t of
                 None \<Rightarrow> (Inl 400, s)
               | Some pending \<Rightarrow>
                   (let new_email = py_strip (en_lower env pending)
                    in if list_ex (\<lambda>a. ac_email a = new_email \<and> ac_deleted a = None \<and> ac_id a \<noteq> u) (pf_users (xs_platform s))
                       then (Inl 409, s)
                       else if live_at s u \<noteq> None \<and> list_ex (\<lambda>a. ac_email a = new_email \<and> ac_id a \<noteq> u) (pf_users (xs_platform s))
                       then (Inl 409, s)
                       else
                         let s1 = on_platform (update_email u new_email) (use_token (en_hash env token) s)
                         in case live_at s1 u of None \<Rightarrow> (Inl 401, s1) | Some a \<Rightarrow> (Inr a, s1)))))"

section \<open>Retention and erasure\<close>

datatype retention = Purge_Sessions | Purge_Challenges | Purge_Tokens

definition purge_identity_retention_v1 :: "retention \<Rightarrow> access_db \<Rightarrow> access_db" where
  "purge_identity_retention_v1 operation s =
     (let now = pf_now (xs_platform s) in
      case operation of
        Purge_Sessions \<Rightarrow> on_platform (\<lambda>p. p\<lparr>pf_sessions := filter (\<lambda>x. \<not> (se_expires x < now - grace \<or>
            (case se_revoked x of None \<Rightarrow> False | Some r \<Rightarrow> r < now - 7 * 24 * 3600))) (pf_sessions p)\<rparr>) s
      | Purge_Challenges \<Rightarrow> s\<lparr>xs_challenges := filter (\<lambda>c. \<not> ch_expires c < now) (xs_challenges s)\<rparr>
      | Purge_Tokens \<Rightarrow> s\<lparr>xs_tokens := filter (\<lambda>t. \<not> lt_expires t < now - 24 * 3600) (xs_tokens s)\<rparr>)"

text \<open>What goes with an account that erasure removes (\<open>ON DELETE CASCADE\<close>).\<close>

definition cascade :: "access_db \<Rightarrow> access_db" where
  "cascade s =
     (let kept = (\<lambda>u. account_at s u \<noteq> None)
      in s\<lparr>xs_tokens := filter (\<lambda>t. kept (lt_user t)) (xs_tokens s),
           xs_passkeys := filter (\<lambda>k. kept (pk_user k)) (xs_passkeys s),
           xs_challenges := filter (\<lambda>c. case ch_user c of None \<Rightarrow> True | Some u \<Rightarrow> kept u) (xs_challenges s)\<rparr>)"

end
