(* ===== verification/Passkeys.thy ===== *)
theory Passkeys
  imports Sign_In
begin

text \<open>
  Passkeys (\<open>platform_api/routers/auth_passkeys.py\<close>): which origins may run a ceremony, the registration and
  the sign-in, each from the challenge to the answer, and the removal of a passkey. What the
  WebAuthn library reads and checks is a parameter.
\<close>

section \<open>Origins\<close>

text \<open>What \<open>urlparse\<close> makes of a text; the outer \<open>None\<close> of the port is a \<open>ValueError\<close>.\<close>

record parsed_url =
  pu_scheme :: pystr
  pu_host :: "pystr option"
  pu_port :: "nat option option"

record 'ip url_ops =
  uo_parse :: "pystr \<Rightarrow> parsed_url"
  uo_address :: "pystr \<Rightarrow> 'ip option"

type_synonym origin_match = "pystr \<times> pystr"

definition loopback_rp_ids :: "pystr list" where
  "loopback_rp_ids = [codes ''localhost'', codes ''jarvis.localhost'']"

definition app_base_origin :: "'ip url_ops \<Rightarrow> pystr option \<Rightarrow> pystr option" where
  "app_base_origin ops base =
     (case base of
        None \<Rightarrow> None
      | Some b \<Rightarrow>
          if b = [] then None
          else (case (pu_port (uo_parse ops b), pu_host (uo_parse ops b)) of
            (None, _) \<Rightarrow> None
          | (_, None) \<Rightarrow> None
          | (Some port, Some host) \<Rightarrow>
              if pu_scheme (uo_parse ops b) \<noteq> codes ''https'' \<or> host = [] then None
              else if uo_address ops host \<noteq> None then None
              else Some (codes ''https://'' @ host @
                (case port of None \<Rightarrow> [] | Some n \<Rightarrow> if n \<noteq> 0 \<and> n \<noteq> 443 then 58 # decimal n else []))))"

definition origin_allowed :: "'ip url_ops \<Rightarrow> pystr option \<Rightarrow> pystr option \<Rightarrow> origin_match option" where
  "origin_allowed ops base origin =
     (case origin of
        None \<Rightarrow> None
      | Some t \<Rightarrow>
          if t = [] then None
          else (case pu_host (uo_parse ops t) of
            None \<Rightarrow> None
          | Some host \<Rightarrow>
              if pu_scheme (uo_parse ops t) \<in> {codes ''https'', codes ''http''} \<and> host \<in> set loopback_rp_ids
              then Some (t, host)
              else if app_base_origin ops base = Some t \<and> host \<noteq> [] then Some (t, host) else None))"

section \<open>Challenges\<close>

definition insert_challenge :: "pystr \<Rightarrow> int option \<Rightarrow> bool \<Rightarrow> access_db \<Rightarrow> access_db option" where
  "insert_challenge value u registering s =
     (if list_ex (\<lambda>c. ch_value c = value) (xs_challenges s) then None
      else if (case u of None \<Rightarrow> False | Some v \<Rightarrow> account_at s v = None) then None
      else Some (s\<lparr>xs_challenges := xs_challenges s @ [\<lparr>ch_value = value, ch_user = u, ch_register = registering,
             ch_expires = pf_now (xs_platform s) + 5 * 60\<rparr>]\<rparr>))"

text \<open>The deletion is the read: \<open>None\<close> when no row matches, otherwise the account of the row.\<close>

definition consume_challenge :: "pystr \<Rightarrow> bool \<Rightarrow> access_db \<Rightarrow> int option option \<times> access_db" where
  "consume_challenge value registering s =
     (let hit = (\<lambda>c. ch_value c = value \<and> ch_register c = registering \<and> pf_now (xs_platform s) < ch_expires c)
      in (map_option ch_user (find hit (xs_challenges s)),
          s\<lparr>xs_challenges := filter (\<lambda>c. \<not> hit c) (xs_challenges s)\<rparr>))"

section \<open>The library\<close>

text \<open>Parsing yields the challenge, and for an assertion the raw identifier of the credential; checks that raise are \<open>None\<close>.\<close>

record 'p webauthn =
  wa_registration :: "'p \<Rightarrow> pystr option"
  wa_verify_registration :: "'p \<Rightarrow> pystr \<Rightarrow> origin_match \<Rightarrow> (pystr \<times> pystr \<times> int) option"
  wa_assertion :: "'p \<Rightarrow> (pystr \<times> pystr) option"
  wa_verify_assertion :: "'p \<Rightarrow> pystr \<Rightarrow> origin_match \<Rightarrow> pystr \<Rightarrow> int option"

definition is_clone :: "int \<Rightarrow> int \<Rightarrow> bool" where
  "is_clone stored new \<longleftrightarrow> (new \<noteq> 0 \<or> stored \<noteq> 0) \<and> new \<le> stored"

section \<open>Registration\<close>

definition passkey_register_begin ::
  "login \<Rightarrow> origin_match option \<Rightarrow> pystr \<Rightarrow> access_db \<Rightarrow> (nat + pystr) \<times> access_db" where
  "passkey_register_begin lg origin challenge s =
     (case (lg_user lg, origin) of
        (None, _) \<Rightarrow> (Inl 401, s)
      | (_, None) \<Rightarrow> (Inl 403, s)
      | (Some u, Some m) \<Rightarrow>
          (case insert_challenge challenge (Some u) True s of
             None \<Rightarrow> (Inl 500, s)
           | Some s1 \<Rightarrow> (Inr challenge, s1)))"

definition store_credential ::
  "int \<Rightarrow> pystr \<times> pystr \<times> int \<Rightarrow> nat \<Rightarrow> access_db \<Rightarrow> (nat + nat) \<times> access_db" where
  "store_credential u verified fresh s =
     (case verified of (credential, key, signs) \<Rightarrow>
        if list_ex (\<lambda>k. pk_credential k = credential) (xs_passkeys s) then (Inl 409, s)
        else if fresh \<in> pk_id ` set (xs_passkeys s) \<or> account_at s u = None then (Inl 500, s)
        else (Inr fresh, s\<lparr>xs_passkeys := xs_passkeys s @ [\<lparr>pk_id = fresh, pk_user = u, pk_credential = credential,
               pk_key = key, pk_count = signs\<rparr>]\<rparr>))"

text \<open>The challenge is claimed and the passkey stored by statements that commit on their own.\<close>

definition passkey_register_finish ::
  "'p webauthn \<Rightarrow> login \<Rightarrow> origin_match option \<Rightarrow> 'p \<Rightarrow> nat \<Rightarrow> (access_db \<Rightarrow> access_db) \<Rightarrow> access_db
    \<Rightarrow> (nat + nat) \<times> access_db" where
  "passkey_register_finish wa lg origin payload fresh between s =
     (case (lg_user lg, origin) of
        (None, _) \<Rightarrow> (Inl 401, s)
      | (_, None) \<Rightarrow> (Inl 403, s)
      | (Some u, Some m) \<Rightarrow>
          (case wa_registration wa payload of
             None \<Rightarrow> (Inl 400, s)
           | Some challenge \<Rightarrow>
               (case consume_challenge challenge True s of
                  (claimed, s1) \<Rightarrow>
                    if claimed \<noteq> Some (Some u) then (Inl 400, s1)
                    else (case wa_verify_registration wa payload challenge m of
                      None \<Rightarrow> (Inl 400, s1)
                    | Some verified \<Rightarrow> store_credential u verified fresh (between s1)))))"

section \<open>Sign-in\<close>

definition passkey_login_begin ::
  "origin_match option \<Rightarrow> pystr \<Rightarrow> access_db \<Rightarrow> (nat + pystr) \<times> access_db" where
  "passkey_login_begin origin challenge s =
     (if origin = None then (Inl 403, s)
      else case insert_challenge challenge None False s of
        None \<Rightarrow> (Inl 500, s)
      | Some s1 \<Rightarrow> (Inr challenge, s1))"

text \<open>
  A sign-in is four transactions: it claims the challenge, checks the assertion under the lock of
  the credential, reads the account and mints the session. A stage is what the handler holds
  between two of them.
\<close>

datatype 'p login_stage =
    Claimed 'p pystr origin_match
  | Authenticated int nat
  | Looked_Up int nat pystr account_role

definition login_claim ::
  "'p webauthn \<Rightarrow> origin_match option \<Rightarrow> 'p \<Rightarrow> access_db \<Rightarrow> (nat + 'p login_stage) \<times> access_db" where
  "login_claim wa origin payload s =
     (case origin of
        None \<Rightarrow> (Inl 403, s)
      | Some m \<Rightarrow>
          (case wa_assertion wa payload of
             None \<Rightarrow> (Inl 400, s)
           | Some (raw, challenge) \<Rightarrow>
               (case consume_challenge challenge False s of
                  (None, s1) \<Rightarrow> (Inl 401, s1)
                | (Some _, s1) \<Rightarrow> (Inr (Claimed payload challenge m), s1))))"

definition revoke_credential_and_sessions :: "nat \<Rightarrow> access_db \<Rightarrow> access_db" where
  "revoke_credential_and_sessions c s =
     delete_passkeys (\<lambda>k. pk_id k = c) (on_platform (revoke_sessions (\<lambda>x. se_credential x = Some c)) s)"

definition update_count :: "nat \<Rightarrow> int \<Rightarrow> access_db \<Rightarrow> access_db" where
  "update_count c n s = s\<lparr>xs_passkeys := map (\<lambda>k. if pk_id k = c then k\<lparr>pk_count := n\<rparr> else k) (xs_passkeys s)\<rparr>"

definition authenticate_assertion ::
  "'p webauthn \<Rightarrow> 'p \<Rightarrow> pystr \<Rightarrow> origin_match \<Rightarrow> access_db \<Rightarrow> (nat + (int \<times> nat)) \<times> access_db" where
  "authenticate_assertion wa payload challenge m s =
     (case Option.bind (wa_assertion wa payload) (\<lambda>(raw, _). find (\<lambda>k. pk_credential k = raw) (xs_passkeys s)) of
        None \<Rightarrow> (Inl 401, s)
      | Some k \<Rightarrow>
          (case wa_verify_assertion wa payload challenge m (pk_key k) of
             None \<Rightarrow> (Inl 401, s)
           | Some n \<Rightarrow>
               if is_clone (pk_count k) n then (Inl 401, revoke_credential_and_sessions (pk_id k) s)
               else (Inr (pk_user k, pk_id k), update_count (pk_id k) n s)))"

definition login_lookup :: "int \<Rightarrow> nat \<Rightarrow> access_db \<Rightarrow> nat + 'p login_stage" where
  "login_lookup u c s = (case live_at s u of None \<Rightarrow> Inl 401 | Some a \<Rightarrow> Inr (Looked_Up u c (ac_email a) (ac_role a)))"

definition login_mint :: "int \<Rightarrow> int \<Rightarrow> nat \<Rightarrow> nat \<Rightarrow> access_db \<Rightarrow> (nat + nat) \<times> access_db" where
  "login_mint clock u c fresh s =
     (case mint_session clock u (Some c) fresh s of None \<Rightarrow> (Inl 500, s) | Some s1 \<Rightarrow> (Inr fresh, s1))"

definition passkey_login_finish ::
  "'p webauthn \<Rightarrow> origin_match option \<Rightarrow> 'p \<Rightarrow> int \<Rightarrow> nat \<Rightarrow> (nat \<Rightarrow> access_db \<Rightarrow> access_db) \<Rightarrow> access_db
    \<Rightarrow> (nat + signed_in) \<times> access_db" where
  "passkey_login_finish wa origin payload clock fresh between s =
     (case login_claim wa origin payload s of
        (Inr (Claimed p challenge m), s1) \<Rightarrow>
          (case authenticate_assertion wa p challenge m (between 1 s1) of
             (Inl e, s2) \<Rightarrow> (Inl e, s2)
           | (Inr (u, c), s2) \<Rightarrow>
               (let s3 = between 2 s2
                in case live_at s3 u of
                     None \<Rightarrow> (Inl 401, s3)
                   | Some a \<Rightarrow>
                       (case login_mint clock u c fresh (between 3 s3) of
                          (Inl e, s4) \<Rightarrow> (Inl e, s4)
                        | (Inr i, s4) \<Rightarrow> (Inr (i, u, ac_email a, ac_role a), s4))))
      | (Inl e, s1) \<Rightarrow> (Inl e, s1)
      | (Inr _, s1) \<Rightarrow> (Inl 500, s1))"

section \<open>Listing and removal\<close>

definition list_passkeys :: "login \<Rightarrow> access_db \<Rightarrow> nat + nat list" where
  "list_passkeys lg s =
     (case lg_user lg of
        None \<Rightarrow> Inl 401
      | Some u \<Rightarrow> Inr (map pk_id (filter (\<lambda>k. pk_user k = u) (xs_passkeys s))))"

definition delete_passkey ::
  "(pystr \<Rightarrow> nat option) \<Rightarrow> login \<Rightarrow> pystr \<Rightarrow> access_db \<Rightarrow> (nat + nat) \<times> access_db" where
  "delete_passkey uuid lg credential s =
     (case (lg_user lg, uuid credential) of
        (None, _) \<Rightarrow> (Inl 401, s)
      | (_, None) \<Rightarrow> (Inl 404, s)
      | (Some u, Some c) \<Rightarrow>
          if list_ex (\<lambda>k. pk_id k = c \<and> pk_user k = u) (xs_passkeys s)
          then (Inr c, revoke_credential_and_sessions c s) else (Inl 404, s))"

end
