(* ===== verification/Access_Machine.thy ===== *)
theory Access_Machine
  imports Erasure_Store
begin

text \<open>
  What accounts, active sessions, passkeys and the owner of an instance may do, with everything else
  left out: the specification of the routes in Account\_Life.
\<close>

section \<open>The machine\<close>

text \<open>An account is its role and whether it is enabled; a session is its account and its passkey, if any.\<close>

record machine =
  mc_accounts :: "int \<Rightarrow> (account_role \<times> bool) option"
  mc_sessions :: "nat \<Rightarrow> (int \<times> nat option) option"
  mc_passkeys :: "nat \<Rightarrow> int option"
  mc_owner :: "int option"

datatype access_event = Silent | Enters nat int "nat option" | Registers nat int

definition enabled :: "machine \<Rightarrow> int \<Rightarrow> bool" where
  "enabled m u \<longleftrightarrow> (\<exists>r. mc_accounts m u = Some (r, True))"

definition administers :: "machine \<Rightarrow> int \<Rightarrow> bool" where
  "administers m u \<longleftrightarrow> mc_accounts m u = Some (Admin_Role, True)"

definition owns :: "machine \<Rightarrow> int \<Rightarrow> bool" where
  "owns m u \<longleftrightarrow> mc_owner m = Some u \<and> administers m u"

definition keep_where :: "('k \<Rightarrow> 'v \<Rightarrow> bool) \<Rightarrow> ('k \<Rightarrow> 'v option) \<Rightarrow> 'k \<Rightarrow> 'v option" where
  "keep_where P f k = (case f k of None \<Rightarrow> None | Some v \<Rightarrow> if P k v then Some v else None)"

inductive machine_step :: "machine \<Rightarrow> access_event \<Rightarrow> machine \<Rightarrow> bool" where
  stay: "machine_step m Silent m"
| enrol: "mc_accounts m u = None \<Longrightarrow>
    machine_step m Silent (m\<lparr>mc_accounts := (mc_accounts m)(u \<mapsto> (r, True))\<rparr>)"
| bootstrap: "(\<And>v. \<not> administers m v) \<Longrightarrow> mc_accounts m u = None \<Longrightarrow> mc_sessions m i = None \<Longrightarrow>
    machine_step m (Enters i u None)
      (m\<lparr>mc_accounts := (mc_accounts m)(u \<mapsto> (Admin_Role, True)), mc_sessions := (mc_sessions m)(i \<mapsto> (u, None)),
         mc_owner := ow\<rparr>)"
| change_role: "mc_accounts m u = Some (r0, True) \<Longrightarrow>
    (r0 = Admin_Role \<Longrightarrow> r \<noteq> Admin_Role \<Longrightarrow> \<not> owns m u \<and> (\<exists>v. v \<noteq> u \<and> administers m v)) \<Longrightarrow>
    machine_step m Silent (m\<lparr>mc_accounts := (mc_accounts m)(u \<mapsto> (r, True))\<rparr>)"
| disable: "mc_accounts m u = Some (r, True) \<Longrightarrow> \<not> owns m u \<Longrightarrow>
    (r = Admin_Role \<Longrightarrow> \<exists>v. v \<noteq> u \<and> administers m v) \<Longrightarrow>
    machine_step m Silent
      (m\<lparr>mc_accounts := (mc_accounts m)(u \<mapsto> (r, False)), mc_sessions := keep_where (\<lambda>i (v, c). v \<noteq> u) (mc_sessions m)\<rparr>)"
| enable: "mc_accounts m u = Some (r, False) \<Longrightarrow>
    machine_step m Silent (m\<lparr>mc_accounts := (mc_accounts m)(u \<mapsto> (r, True))\<rparr>)"
| remove: "mc_accounts m u = Some (r, False) \<Longrightarrow>
    machine_step m Silent
      (m\<lparr>mc_accounts := (mc_accounts m)(u := None), mc_sessions := keep_where (\<lambda>i (v, c). v \<noteq> u) (mc_sessions m),
         mc_passkeys := keep_where (\<lambda>k v. v \<noteq> u) (mc_passkeys m)\<rparr>)"
| transfer: "owns m u \<Longrightarrow> administers m v \<Longrightarrow> machine_step m Silent (m\<lparr>mc_owner := Some v\<rparr>)"
| enter: "enabled m u \<Longrightarrow> mc_sessions m i = None \<Longrightarrow> (\<And>k. c = Some k \<Longrightarrow> mc_passkeys m k = Some u) \<Longrightarrow>
    machine_step m (Enters i u c) (m\<lparr>mc_sessions := (mc_sessions m)(i \<mapsto> (u, c))\<rparr>)"
| leave: "machine_step m Silent (m\<lparr>mc_sessions := keep_where P (mc_sessions m)\<rparr>)"
| add_passkey: "mc_passkeys m k = None \<Longrightarrow> mc_accounts m u \<noteq> None \<Longrightarrow>
    machine_step m (Registers k u) (m\<lparr>mc_passkeys := (mc_passkeys m)(k \<mapsto> u)\<rparr>)"
| drop_passkeys: "machine_step m Silent
      (m\<lparr>mc_passkeys := keep_where (\<lambda>k u. \<not> P k) (mc_passkeys m),
         mc_sessions := keep_where (\<lambda>i (u, c). case c of None \<Rightarrow> True | Some k \<Rightarrow> \<not> P k) (mc_sessions m)\<rparr>)"

inductive machine_run :: "machine \<Rightarrow> access_event list \<Rightarrow> machine \<Rightarrow> bool" where
  nil: "machine_run m [] m"
| cons: "machine_step m e m1 \<Longrightarrow> machine_run m1 es m2 \<Longrightarrow> machine_run m (e # es) m2"

inductive_cases machine_run_NilE: "machine_run m [] m'"
inductive_cases machine_run_ConsE: "machine_run m (e # es) m'"

section \<open>What holds of it\<close>

text \<open>Active sessions belong to enabled accounts and stored passkeys of theirs; passkeys belong to accounts.\<close>

definition sound :: "machine \<Rightarrow> bool" where
  "sound m \<longleftrightarrow>
     (\<forall>i u c. mc_sessions m i = Some (u, c) \<longrightarrow> enabled m u \<and> (\<forall>k. c = Some k \<longrightarrow> mc_passkeys m k = Some u)) \<and>
     (\<forall>k u. mc_passkeys m k = Some u \<longrightarrow> mc_accounts m u \<noteq> None)"

lemma soundD:
  assumes "sound m"
  shows "mc_sessions m i = Some (u, c) \<Longrightarrow> enabled m u" "mc_sessions m i = Some (u, Some k) \<Longrightarrow> mc_passkeys m k = Some u"
    "mc_passkeys m k = Some u \<Longrightarrow> mc_accounts m u \<noteq> None"
  using assms unfolding sound_def by blast+

lemma soundI:
  assumes "\<And>i u c. mc_sessions m i = Some (u, c) \<Longrightarrow> enabled m u"
    and "\<And>i u k. mc_sessions m i = Some (u, Some k) \<Longrightarrow> mc_passkeys m k = Some u"
    and "\<And>k u. mc_passkeys m k = Some u \<Longrightarrow> mc_accounts m u \<noteq> None"
  shows "sound m"
  using assms unfolding sound_def by blast

lemma keep_where_Some: "keep_where P f k = Some v \<longleftrightarrow> f k = Some v \<and> P k v"
  by (auto simp: keep_where_def split: option.split)

lemma machine_step_sound:
  assumes "machine_step m e m'" "sound m"
  shows "sound m'"
  using assms
proof (induction rule: machine_step.induct)
  case (remove m u r)
  show ?case
  proof (rule soundI)
    fix i v c
    assume "mc_sessions (m\<lparr>mc_accounts := (mc_accounts m)(u := None), mc_sessions := keep_where (\<lambda>i (v, c). v \<noteq> u) (mc_sessions m),
         mc_passkeys := keep_where (\<lambda>k v. v \<noteq> u) (mc_passkeys m)\<rparr>) i = Some (v, c)"
    then have "mc_sessions m i = Some (v, c)" "v \<noteq> u" by (simp_all add: keep_where_Some)
    then show "enabled (m\<lparr>mc_accounts := (mc_accounts m)(u := None), mc_sessions := keep_where (\<lambda>i (v, c). v \<noteq> u) (mc_sessions m),
         mc_passkeys := keep_where (\<lambda>k v. v \<noteq> u) (mc_passkeys m)\<rparr>) v"
      using soundD(1) [OF remove.prems] by (simp add: enabled_def)
  qed (use soundD(2,3) [OF remove.prems] in \<open>auto simp: keep_where_Some\<close>)
next
  case (drop_passkeys m P)
  show ?case
    by (rule soundI) (use soundD [OF drop_passkeys] in \<open>auto simp: keep_where_Some enabled_def\<close>)
next
  case (enter m u i c)
  show ?case
    by (rule soundI) (use soundD [OF enter.prems] enter in \<open>auto simp: enabled_def split: if_split_asm\<close>)
qed (auto simp: sound_def keep_where_Some enabled_def split: if_split_asm)

lemma machine_run_sound: "machine_run m es m' \<Longrightarrow> sound m \<Longrightarrow> sound m'"
  by (induction rule: machine_run.induct) (blast intro: machine_step_sound)+

text \<open>Somebody can always administer the instance, and a valid owner has a valid successor.\<close>

lemma machine_step_admin:
  assumes "machine_step m e m'" "administers m u"
  shows "\<exists>v. administers m' v"
  using assms
proof (induction rule: machine_step.induct)
  case (change_role m v r0 r)
  show ?case
  proof (cases "u = v \<and> r \<noteq> Admin_Role")
    case True
    then obtain x where "x \<noteq> v" "administers m x" using change_role by (auto simp: administers_def)
    then show ?thesis by (intro exI [of _ x]) (simp add: administers_def)
  next
    case False
    then show ?thesis using change_role.prems by (intro exI [of _ u]) (auto simp: administers_def)
  qed
next
  case (disable m v r)
  show ?case
  proof (cases "u = v")
    case True
    then obtain x where "x \<noteq> v" "administers m x" using disable by (auto simp: administers_def)
    then show ?thesis by (intro exI [of _ x]) (simp add: administers_def)
  next
    case False
    then show ?thesis using disable.prems by (intro exI [of _ u]) (simp add: administers_def)
  qed
qed (rule exI [of _ u], auto simp: administers_def)+

lemma machine_step_owner:
  assumes "machine_step m e m'" "owns m u"
  shows "\<exists>v. owns m' v"
  using assms
proof (induction rule: machine_step.induct)
  case (change_role m v r0 r)
  then show ?case by (intro exI [of _ u], cases "r = Admin_Role") (auto simp: owns_def administers_def)
next
  case (disable m v r)
  then show ?case by (intro exI [of _ u]) (auto simp: owns_def administers_def)
next
  case (bootstrap m v i ow)
  then show ?case by (simp add: owns_def)
next
  case (transfer m x v)
  then show ?case by (intro exI [of _ v]) (simp add: owns_def administers_def)
qed (rule exI [of _ u], auto simp: owns_def administers_def)+

lemma machine_run_admin: "machine_run m es m' \<Longrightarrow> administers m u \<Longrightarrow> \<exists>v. administers m' v"
  by (induction arbitrary: u rule: machine_run.induct) (blast dest: machine_step_admin)+

lemma machine_run_owner: "machine_run m es m' \<Longrightarrow> owns m u \<Longrightarrow> \<exists>v. owns m' v"
  by (induction arbitrary: u rule: machine_run.induct) (blast dest: machine_step_owner)+

text \<open>Sessions become active by a sign-in only, passkeys appear by a registration only.\<close>

lemma machine_step_passkeys:
  assumes "machine_step m e m'" "mc_passkeys m' k = Some u"
  shows "mc_passkeys m k = Some u \<or> e = Registers k u"
  using assms by (induction rule: machine_step.induct) (auto simp: keep_where_Some split: if_split_asm)

lemma machine_step_sessions:
  assumes "machine_step m e m'" "mc_sessions m' i = Some (u, c)"
  shows "mc_sessions m i = Some (u, c) \<or> e = Enters i u c"
  using assms by (induction rule: machine_step.induct) (auto simp: keep_where_Some split: if_split_asm)

lemma machine_run_sessions:
  "machine_run m es m' \<Longrightarrow> mc_sessions m' i = Some (u, c) \<Longrightarrow> mc_sessions m i = Some (u, c) \<or> Enters i u c \<in> set es"
  by (induction rule: machine_run.induct) (auto dest: machine_step_sessions)

end
