(* ===== verification/Spec2Isabelle.thy ===== *)
theory Spec2Isabelle
  imports Paper_Lifecycle Source_Limiter Http_Limiter Text_Windows Telegram_Limit Task_Registry
    Review Prompt_Safety Quote_Verify Pulse_Job Paper_Content Erasure_Owners
    Identity_Gateway Passkeys Access_Machine
begin

text \<open>
  A verification development of the Jarvis research and learning assistant, a family of Python
  services (\<open>libs/jarvis_common\<close> and the packages under \<open>services/\<close>) around one PostgreSQL database.

  \<^bold>\<open>The system.\<close> Papers enter through background jobs of the paper ingestion service, which fetches
  catalogues under a rate limit, cuts papers into chunks and windows, has a language model
  summarise them and verifies the quotes of the summary. Users read, star and discard papers, and
  review learning cards; a Telegram bot and a web client are the front ends. Every HTTP request
  passes the maintenance middleware and the rate limiter; every job passes the task wrapper. State
  lives in database tables, most of it behind owner functions written in SQL, so the owner functions
  that the Python code calls are part of the model. A table is a function from keys to optional
  rows, a transaction is a function from database to result and database, and a failed transaction
  keeps the old database.

  \<^bold>\<open>Theories.\<close> In the order of the services' layers:

  \<^item> \<open>Prelude\<close>: results, Python lists and strings, and the locale \<open>ranking\<close>, the contract of a stable
    descending sort, interpreted for Python's \<open>sorted\<close>; the locale \<open>guarded_steps\<close>, an invariant kept by
    every step taken under its guard, interpreted for the world of \<open>Paper_Content\<close>.

  \<^item> \<open>Paper_Lifecycle\<close>: reading states, stars, feedback and trash of papers per user
    (\<open>paper_state.py\<close>, \<open>paper_visibility.py\<close>, \<open>db_helpers.py\<close>, \<open>papers_service.py\<close>,
    \<open>papers_lifecycle.py\<close>, \<open>papers_bulk.py\<close> and the owner functions in \<open>db/init.sql\<close>). The locale
    \<open>lifecycle_op\<close> is the contract of every state writer, interpreted for each of them. Requests
    refine a small machine on one (paper, user) row, isolate tenants and keep the tables well
    formed; trash and restore are inverse; a bulk action isolates the failures of its items.

  \<^item> \<open>Source_Limiter\<close>: the token bucket and the shared slot of \<open>source_rate_limiter.py\<close> with its owner
    functions. The locale \<open>slot_store\<close> states what a store of time stamps must promise so that
    accepted claims are spaced, interpreted for the \<open>source_health\<close> table. Workers interleave as
    arbitrary sequences of operations; the claim loop takes at most three transactions.

  \<^item> \<open>Http_Limiter\<close>: the client key of \<open>http_rate_limiter.py\<close>, with the parsers of the standard
    library's \<open>ipaddress\<close> as a record of functions.

  \<^item> \<open>Text_Windows\<close>: the windows of \<open>text_windows.py\<close> partition the chunks within their budget.

  \<^item> \<open>Telegram_Limit\<close>: the command limiter of the bot (\<open>handlers/rate_limit.py\<close>), refined from a
    history that forgets nothing; the horizon of 3600 seconds is the source's, and the limits hold
    for windows and cooldowns up to it.

  \<^item> \<open>Maintenance\<close>: restore maintenance and outbound quarantine (\<open>maintenance.py\<close>), fail closed.

  \<^item> \<open>Jobs\<close>: the job tables and owner functions, the adapters and the event stream of \<open>jobs.py\<close>
    and \<open>job_context.py\<close>. The stream is a fold over polled snapshots that ends after 750 seconds
    of the clock at the latest; its frames are proved over every sequence of snapshots.

  \<^item> \<open>Task_Registry\<close>: the wrapper around every job handler (\<open>task_registry.py\<close>), on top of \<open>Maintenance\<close>
    and \<open>Jobs\<close>. A quarantine is waited for during 120 attempts, the source's bound.

  \<^item> \<open>Review\<close>: spaced repetition (\<open>routers/review.py\<close>, \<open>fsrs_manager.py\<close>, \<open>streak.py\<close>): replay of offline
    batches exactly once, under interference of other requests between events; statistics, streak.

  \<^item> \<open>Prompt_Safety\<close>: escaping and delimiting of untrusted text (\<open>prompt_safety.py\<close>).

  \<^item> \<open>Quote_Verify\<close>: verification of quotes and the confidence of a summary (\<open>verify.py\<close>).

  \<^item> \<open>Pulse_Scoring\<close>: the three scoring stages of the daily deck (\<open>pulse/scoring.py\<close>), the check of the
    model's reasoning with the quote verifier (\<open>pulse/verification.py\<close>) and the computations of the
    profile (\<open>pulse/profile.py\<close>). Signals are bounded, the stages keep the best and keep the order.

  \<^item> \<open>Pulse_Deck\<close>: selection, persistence and reads of decks (\<open>pulse/deck.py\<close>) and ratings of cards
    (\<open>routers/pulse.py\<close>), on the tables of \<open>Paper_Lifecycle\<close>. Persisting refines the update of a map
    from date and user to the contents of a deck.

  \<^item> \<open>Pulse_Job\<close>: the run that composes them (\<open>pulse/job.py\<close>), with every fallback and checkpoint, and
    its job handler. What each collaborator returns or raises is one record of functions; a run
    delivers a deck whatever they do, and a run that fails writes nothing.

  \<^item> \<open>Paper_Content\<close>: how papers and the content derived from them change (\<open>services/paper_upsert.py\<close>,
    \<open>services/pdf_workflow.py\<close>, \<open>services/paper_content_reclaim.py\<close>, \<open>services/summarization.py\<close> and the
    upload of \<open>routers/pdf_actions.py\<close>), as steps of a world with tables, files, locks and the local
    variables of operations in progress, so that any number of them interleave. Documents and chunks
    carry the URL they come from, which the system does not record, so that the invariant can say
    that derived content is current; two traces show that its two conditions are needed.

  \<^bold>\<open>Conventions.\<close> A Python exception is a value of a sum or option type. Time is an argument of the
  operation that reads the clock. Floating point numbers are real numbers. Python integers are
  \<open>int\<close> or, where the code only produces natural numbers, \<open>nat\<close>. Code points are natural numbers.
  Interleaving is an explicit list of steps, or an arbitrary change of the database between two
  transactions; a row lock is the atomicity of one step. Third-party code (the FSRS scheduler, the
  fuzzy scorer) and tables of the standard library (Unicode, IP addresses, date parsing) are
  records of functions; what a theorem needs of them is a hypothesis of the theorem.

  \<^bold>\<open>Not modelled.\<close> Authentication and cryptography, HTTP clients of catalogues and model servers, PDF
  parsing, embeddings and vector search, configuration, logging, telemetry, e-mail, message
  formatting, migrations and the web client. Planned extensions: hybrid search, chunking of papers, network address policy, notification policy, the
  claims of identity assertions, and the erasure workflow.
\<close>

end
